(* ===== verification/Prelude.thy ===== *)
theory Prelude
  imports Main "HOL-Library.Char_ord" "HOL-Library.List_Lexorder" "HOL-Library.AList"
    "HOL-Library.Sublist" "HOL-Library.Multiset"
begin

text \<open>
  Shared vocabulary of the development: Go error values, the collections of
  simplification rules, and the generic facts on lists, strings and association lists
  the components use. A Go \<open>string\<close> is a byte sequence and is modelled by
  \<^typ>\<open>string\<close> (one \<^typ>\<open>char\<close> per byte); Go's \<open><\<close> on strings is the bytewise
  lexicographic order of \<^verbatim>\<open>List_Lexorder\<close>. A Go \<open>map\<close> is an association list
  whose order is one possible iteration order.
\<close>

named_theorems world_simps \<open>effects of one operation on the fields of the world\<close>
named_theorems path_simps \<open>path arithmetic on clean absolute paths\<close>
named_theorems cfg_simps \<open>unfolding of configuration operations\<close>

section \<open>Errors\<close>

text \<open>
  An \<open>error\<close> value of the code: a formatted message with its arguments, a wrapped error
  (\<open>fmt.Errorf("...: %w", err)\<close>), the context's error, a failed system call, a failed
  command, or several errors joined by \<open>errors.Join\<close>.
\<close>

datatype error =
    Errorf string "string list"
  | Wrapf string error
  | CtxCanceled
  | OsError string
  | NotExist string
  | CmdFailed
  | Joined "error list"

type_synonym 'a result = "error + 'a"

definition is_ok :: "'a result \<Rightarrow> bool" where
  "is_ok r = (case r of Inl _ \<Rightarrow> False | Inr _ \<Rightarrow> True)"

lemma is_ok_simps [simp]: "\<not> is_ok (Inl e)" "is_ok (Inr x)"
  by (simp_all add: is_ok_def)

lemma is_ok_iff: "is_ok r \<longleftrightarrow> (\<exists>x. r = Inr x)"
  by (cases r) simp_all

section \<open>Lists\<close>

lemma takeWhile_append_stop [simp]:
  "\<not> P x \<Longrightarrow> (\<And>y. y \<in> set xs \<Longrightarrow> P y) \<Longrightarrow> takeWhile P (xs @ x # ys) = xs"
  by (induction xs) auto

lemma dropWhile_append_stop [simp]:
  "\<not> P x \<Longrightarrow> (\<And>y. y \<in> set xs \<Longrightarrow> P y) \<Longrightarrow> dropWhile P (xs @ x # ys) = x # ys"
  by (induction xs) auto

lemma takeWhile_all [simp]: "(\<And>y. y \<in> set xs \<Longrightarrow> P y) \<Longrightarrow> takeWhile P xs = xs"
  by (induction xs) auto

lemma dropWhile_all [simp]: "(\<And>y. y \<in> set xs \<Longrightarrow> P y) \<Longrightarrow> dropWhile P xs = []"
  by (induction xs) auto

lemma list_all_take: "list_all P xs \<Longrightarrow> list_all P (take n xs)"
  by (auto simp: list_all_iff dest: in_set_takeD)

lemma list_all_drop: "list_all P xs \<Longrightarrow> list_all P (drop n xs)"
  by (auto simp: list_all_iff dest: in_set_dropD)

lemma append_eq_same_length:
  "length a = length c \<Longrightarrow> a @ b = c @ d \<longleftrightarrow> a = c \<and> b = d"
  by simp

lemma last_differs:
  "xs \<noteq> [] \<Longrightarrow> ys \<noteq> [] \<Longrightarrow> last xs \<noteq> last ys \<Longrightarrow> as @ xs \<noteq> bs @ ys"
  by (metis last_appendR)

text \<open>Lexicographic order of strings of equal length, piece by piece.\<close>

lemma lex_append_same_length:
  fixes a b c d :: "('a :: linorder) list"
  assumes "length a = length c"
  shows "a @ b < c @ d \<longleftrightarrow> a < c \<or> (a = c \<and> b < d)"
  using assms
proof (induction a c rule: list_induct2)
  case Nil
  show ?case by simp
next
  case (Cons x xs y ys)
  then show ?case by (auto simp: Cons_less_Cons)
qed

text \<open>The last \<open>n\<close> elements of a sorted list dominate the others.\<close>

lemma sorted_take_le_drop:
  "sorted xs \<Longrightarrow> x \<in> set (take n xs) \<Longrightarrow> y \<in> set (drop n xs) \<Longrightarrow> x \<le> y"
  by (metis append_take_drop_id sorted_append)

section \<open>Association lists as Go maps\<close>

abbreviation keys :: "('k \<times> 'v) list \<Rightarrow> 'k list" where
  "keys m \<equiv> List.map fst m"

definition map_ok :: "('k \<times> 'v) list \<Rightarrow> bool" where
  "map_ok m \<longleftrightarrow> distinct (keys m)"

lemma map_ok_Nil [simp]: "map_ok []"
  by (simp add: map_ok_def)

lemma map_ok_update [simp]: "map_ok m \<Longrightarrow> map_ok (AList.update k v m)"
  by (simp add: map_ok_def distinct_update)

lemma map_ok_delete [simp]: "map_ok m \<Longrightarrow> map_ok (AList.delete k m)"
  by (simp add: map_ok_def AList.distinct_delete)

lemma map_of_update [simp]: "map_of (AList.update k v m) = (map_of m)(k \<mapsto> v)"
  by (rule update_conv')

lemma map_of_delete [simp]: "map_of (AList.delete k m) = (map_of m)(k := None)"
  by (rule delete_conv')

lemma map_of_perm:
  "map_ok m \<Longrightarrow> mset m = mset m' \<Longrightarrow> map_of m = map_of m'"
  unfolding map_ok_def
  by (metis distinct_map map_of_inject_set mset_eq_imp_distinct_iff mset_map set_mset_mset)

text \<open>A loop that stores every element of a list into a map.\<close>

lemma map_of_fold_update:
  "map_of (fold (\<lambda>(k, v). AList.update (f k) (g k v)) kvs m) x =
     (case map_of (rev (List.map (\<lambda>(k, v). (f k, g k v)) kvs)) x of
        Some v \<Rightarrow> Some v | None \<Rightarrow> map_of m x)"
  by (induction kvs arbitrary: m) (auto simp: map_add_def split: option.splits)

lemma map_ok_fold_update:
  "map_ok m \<Longrightarrow> map_ok (fold (\<lambda>(k, v). AList.update (f k) (g k v)) kvs m)"
  by (induction kvs arbitrary: m) auto

lemma keys_update [simp]: "fst ` set (AList.update k v m) = insert k (fst ` set m)"
  by (metis dom_map_of_conv_image_fst map_of_update dom_fun_upd option.distinct(1))

lemma keys_fold_update:
  "fst ` set (fold (\<lambda>(k, v). AList.update (f k) (g k v)) kvs m) =
     fst ` set m \<union> f ` fst ` set kvs"
proof (induction kvs arbitrary: m)
  case Nil
  show ?case by simp
next
  case (Cons kv kvs)
  then show ?case by (cases kv) (simp add: Un_insert_left)
qed

section \<open>Codecs\<close>

text \<open>
  The contract of a textual representation: what is written can be read back. Every format
  the program writes for itself or for another program to read is an instance.
\<close>

locale codec =
  fixes enc :: "'a \<Rightarrow> 'b"
    and dec :: "'b \<Rightarrow> 'a option"
    and wf :: "'a \<Rightarrow> bool"
  assumes dec_enc: "wf x \<Longrightarrow> dec (enc x) = Some x"
begin

lemma enc_inj: "wf x \<Longrightarrow> wf y \<Longrightarrow> enc x = enc y \<Longrightarrow> x = y"
  by (metis dec_enc option.inject)

lemma dec_all: "list_all wf xs \<Longrightarrow> List.map_filter dec (List.map enc xs) = xs"
  by (induction xs) (auto simp: List.map_filter_def dec_enc)

lemma distinct_enc: "list_all wf xs \<Longrightarrow> distinct xs \<Longrightarrow> distinct (List.map enc xs)"
  by (simp add: distinct_map inj_on_def list_all_iff) (meson enc_inj)

end

end
