(* ===== verification/Go_Strings.thy ===== *)
theory Go_Strings
  imports Prelude
begin

text \<open>
  The parts of Go's standard library the program computes with: \<open>strings\<close>, \<open>strconv\<close>
  and \<open>path/filepath\<close>, on byte strings. White space and letter case are those of ASCII;
  the further Unicode classes of \<open>strings.TrimSpace\<close>, \<open>ToLower\<close>, \<open>EqualFold\<close> and
  \<open>Fields\<close> are not modelled.
\<close>

section \<open>strings\<close>

definition is_space :: "char \<Rightarrow> bool" where
  "is_space c \<longleftrightarrow> of_char c \<in> {9, 10, 11, 12, 13, 32 :: nat}"

definition TrimLeftSpace :: "string \<Rightarrow> string" where
  "TrimLeftSpace s = dropWhile is_space s"

definition TrimRightBy :: "(char \<Rightarrow> bool) \<Rightarrow> string \<Rightarrow> string" where
  "TrimRightBy p s = rev (dropWhile p (rev s))"

definition TrimSpace :: "string \<Rightarrow> string" where
  "TrimSpace s = TrimRightBy is_space (TrimLeftSpace s)"

definition HasPrefix :: "string \<Rightarrow> string \<Rightarrow> bool" where
  "HasPrefix s p \<longleftrightarrow> take (length p) s = p"

definition HasSuffix :: "string \<Rightarrow> string \<Rightarrow> bool" where
  "HasSuffix s p \<longleftrightarrow> length p \<le> length s \<and> drop (length s - length p) s = p"

definition TrimPrefix :: "string \<Rightarrow> string \<Rightarrow> string" where
  "TrimPrefix s p = (if HasPrefix s p then drop (length p) s else s)"

definition TrimSuffix :: "string \<Rightarrow> string \<Rightarrow> string" where
  "TrimSuffix s p = (if HasSuffix s p then take (length s - length p) s else s)"

definition lower_char :: "char \<Rightarrow> char" where
  "lower_char c = (if 65 \<le> (of_char c :: nat) \<and> (of_char c :: nat) \<le> 90
                   then char_of (of_char c + 32 :: nat) else c)"

definition ToLower :: "string \<Rightarrow> string" where
  "ToLower s = List.map lower_char s"

definition EqualFold :: "string \<Rightarrow> string \<Rightarrow> bool" where
  "EqualFold s t \<longleftrightarrow> ToLower s = ToLower t"

text \<open>\<open>strings.Split\<close>, \<open>SplitN\<close> and \<open>Join\<close>; every separator of the code is one byte
  where it splits.\<close>

fun split_on :: "(char \<Rightarrow> bool) \<Rightarrow> string \<Rightarrow> string list" where
  "split_on p [] = [[]]"
| "split_on p (x # xs) =
     (if p x then [] # split_on p xs
      else (x # hd (split_on p xs)) # tl (split_on p xs))"

lemma split_on_code [code]:
  "split_on p [] = [[]]"
  "split_on p (x # xs) = (let r = split_on p xs in if p x then [] # r else (x # hd r) # tl r)"
  by (simp_all add: Let_def)

definition Split :: "string \<Rightarrow> char \<Rightarrow> string list" where
  "Split s c = split_on (\<lambda>x. x = c) s"

fun SplitN :: "string \<Rightarrow> char \<Rightarrow> nat \<Rightarrow> string list" where
  "SplitN s c 0 = []"
| "SplitN s c (Suc 0) = [s]"
| "SplitN s c (Suc (Suc n)) =
     (case dropWhile (\<lambda>x. x \<noteq> c) s of
        [] \<Rightarrow> [s]
      | _ # rest \<Rightarrow> takeWhile (\<lambda>x. x \<noteq> c) s # SplitN rest c (Suc n))"

fun Join :: "string list \<Rightarrow> string \<Rightarrow> string" where
  "Join [] sep = []"
| "Join [x] sep = x"
| "Join (x # y # xs) sep = x @ sep @ Join (y # xs) sep"

definition Fields :: "string \<Rightarrow> string list" where
  "Fields s = filter (\<lambda>w. w \<noteq> []) (split_on is_space s)"

definition ReplaceAll :: "string \<Rightarrow> char \<Rightarrow> string \<Rightarrow> string" where
  "ReplaceAll s c r = concat (List.map (\<lambda>x. if x = c then r else [x]) s)"

text \<open>\<open>strings.Index\<close>: the first position of a substring; \<^term>\<open>None\<close> is \<open>-1\<close>.\<close>

fun Index :: "string \<Rightarrow> string \<Rightarrow> nat option" where
  "Index [] p = (if p = [] then Some 0 else None)"
| "Index (x # xs) p =
     (if HasPrefix (x # xs) p then Some 0 else map_option Suc (Index xs p))"

text \<open>\<open>s[:strings.LastIndex(s, "/")]\<close> for a string that has a slash.\<close>

definition before_last_slash :: "string \<Rightarrow> string" where
  "before_last_slash s = rev (tl (dropWhile (\<lambda>c. c \<noteq> CHR ''/'') (rev s)))"

section \<open>strconv\<close>

definition digit_char :: "nat \<Rightarrow> char" where
  "digit_char d = char_of (48 + d)"

definition is_digit :: "char \<Rightarrow> bool" where
  "is_digit c \<longleftrightarrow> 48 \<le> (of_char c :: nat) \<and> (of_char c :: nat) \<le> 57"

definition digit_val :: "char \<Rightarrow> nat" where
  "digit_val c = of_char c - 48"

fun show_nat :: "nat \<Rightarrow> string" where
  "show_nat n = (if n < 10 then [digit_char n] else show_nat (n div 10) @ [digit_char (n mod 10)])"

declare show_nat.simps [simp del]

definition show_int :: "int \<Rightarrow> string" where
  "show_int i = (if i < 0 then CHR ''-'' # show_nat (nat (- i)) else show_nat (nat i))"

text \<open>\<open>%0nd\<close>: decimal padded with zeros to width \<open>n\<close>.\<close>

definition show_padded :: "nat \<Rightarrow> nat \<Rightarrow> string" where
  "show_padded w n = replicate (w - length (show_nat n)) (CHR ''0'') @ show_nat n"

definition digits_val :: "string \<Rightarrow> nat" where
  "digits_val s = foldl (\<lambda>a c. 10 * a + digit_val c) 0 s"

definition parse_nat :: "string \<Rightarrow> nat option" where
  "parse_nat s = (if s \<noteq> [] \<and> list_all is_digit s then Some (digits_val s) else None)"

definition min_int64 :: int where "min_int64 = - (2 ^ 63)"
definition max_int64 :: int where "max_int64 = 2 ^ 63 - 1"

definition in_int64 :: "int \<Rightarrow> bool" where
  "in_int64 i \<longleftrightarrow> min_int64 \<le> i \<and> i \<le> max_int64"

text \<open>Two's complement wrap-around of \<open>int64\<close> arithmetic.\<close>

definition wrap64 :: "int \<Rightarrow> int" where
  "wrap64 i = (i + 2 ^ 63) mod 2 ^ 64 - 2 ^ 63"

text \<open>\<open>strconv.ParseInt(s, 10, 64)\<close>, and \<open>strconv.Atoi\<close> on a 64-bit platform.\<close>

definition ParseInt :: "string \<Rightarrow> int option" where
  "ParseInt s =
     (let (neg, ds) = (case s of
         c # r \<Rightarrow> if c = CHR ''-'' then (True, r) else if c = CHR ''+'' then (False, r) else (False, s)
       | [] \<Rightarrow> (False, []))
      in case parse_nat ds of
           None \<Rightarrow> None
         | Some n \<Rightarrow> (let i = (if neg then - int n else int n)
                      in if in_int64 i then Some i else None))"

abbreviation Atoi :: "string \<Rightarrow> int option" where
  "Atoi \<equiv> ParseInt"

definition ParseBool :: "string \<Rightarrow> bool option" where
  "ParseBool s =
     (if s \<in> {''1'', ''t'', ''T'', ''true'', ''TRUE'', ''True''} then Some True
      else if s \<in> {''0'', ''f'', ''F'', ''false'', ''FALSE'', ''False''} then Some False
      else None)"

definition show_bool :: "bool \<Rightarrow> string" where
  "show_bool b = (if b then ''true'' else ''false'')"

section \<open>path/filepath\<close>

definition clean_step :: "bool \<Rightarrow> string list \<Rightarrow> string \<Rightarrow> string list" where
  "clean_step rooted st c =
     (if c = [] \<or> c = ''.'' then st
      else if c = ''..'' then
        (case rev st of
           [] \<Rightarrow> if rooted then [] else [''..'']
         | t # _ \<Rightarrow> if t = ''..'' then st @ [''..''] else butlast st)
      else st @ [c])"

definition Clean :: "string \<Rightarrow> string" where
  "Clean p =
     (let rooted = HasPrefix p ''/'';
          st = foldl (clean_step rooted) [] (Split p (CHR ''/''))
      in if rooted then CHR ''/'' # Join st ''/''
         else if st = [] then ''.'' else Join st ''/'')"

definition path_join :: "string list \<Rightarrow> string" where
  "path_join elems =
     (let es = filter (\<lambda>e. e \<noteq> []) elems
      in if es = [] then [] else Clean (Join es ''/''))"

definition Base :: "string \<Rightarrow> string" where
  "Base p =
     (if p = [] then ''.''
      else (let q = TrimRightBy (\<lambda>c. c = CHR ''/'') p
            in if q = [] then ''/'' else last (Split q (CHR ''/''))))"

definition Dir_of :: "string \<Rightarrow> string" where
  "Dir_of p =
     Clean (rev (dropWhile (\<lambda>c. c \<noteq> CHR ''/'') (rev p)))"

section \<open>Facts on strings\<close>

lemma HasPrefix_iff: "HasPrefix s p \<longleftrightarrow> (\<exists>t. s = p @ t)"
  unfolding HasPrefix_def by (metis append_eq_conv_conj append_take_drop_id)

lemma HasPrefix_append [simp]: "HasPrefix (p @ t) p"
  by (simp add: HasPrefix_def)

lemma TrimPrefix_append [simp]: "TrimPrefix (p @ t) p = t"
  by (simp add: TrimPrefix_def)

lemma HasSuffix_iff: "HasSuffix s p \<longleftrightarrow> (\<exists>t. s = t @ p)"
proof
  assume "HasSuffix s p"
  then show "\<exists>t. s = t @ p"
    unfolding HasSuffix_def by (metis append_take_drop_id)
next
  assume "\<exists>t. s = t @ p"
  then show "HasSuffix s p" by (auto simp: HasSuffix_def)
qed

lemma HasSuffix_append [simp]: "HasSuffix (t @ p) p"
  by (auto simp: HasSuffix_iff)

lemma TrimSuffix_append [simp]: "TrimSuffix (t @ p) p = t"
  by (simp add: TrimSuffix_def)

lemma TrimRightBy_id: "s = [] \<or> \<not> p (last s) \<Longrightarrow> TrimRightBy p s = s"
  by (cases s rule: rev_cases) (auto simp: TrimRightBy_def)

lemma TrimSpace_id:
  "s = [] \<or> (\<not> is_space (hd s) \<and> \<not> is_space (last s)) \<Longrightarrow> TrimSpace s = s"
  by (cases s) (auto simp: TrimSpace_def TrimLeftSpace_def TrimRightBy_id)

lemma dropWhile_idem: "dropWhile p (dropWhile p s) = dropWhile p s"
  by (induction s) auto

lemma hd_TrimSpace: "TrimSpace s \<noteq> [] \<Longrightarrow> \<not> is_space (hd (TrimSpace s))"
proof -
  assume ne: "TrimSpace s \<noteq> []"
  let ?t = "dropWhile is_space s"
  have eq: "TrimSpace s = rev (dropWhile is_space (rev ?t))"
    by (simp add: TrimSpace_def TrimLeftSpace_def TrimRightBy_def)
  obtain u where u: "rev ?t = u @ dropWhile is_space (rev ?t)"
    by (metis takeWhile_dropWhile_id)
  then have t: "?t = TrimSpace s @ rev u"
    by (metis eq rev_append rev_rev_ident)
  with ne have "hd ?t = hd (TrimSpace s)" and "?t \<noteq> []" by auto
  then show ?thesis by (metis hd_dropWhile)
qed

lemma last_TrimSpace: "TrimSpace s \<noteq> [] \<Longrightarrow> \<not> is_space (last (TrimSpace s))"
  unfolding TrimSpace_def TrimRightBy_def
  by (metis Nil_is_rev_conv hd_dropWhile last_rev)

lemma TrimSpace_idem [simp]: "TrimSpace (TrimSpace s) = TrimSpace s"
  using hd_TrimSpace last_TrimSpace by (intro TrimSpace_id) blast

lemma ToLower_idem [simp]: "ToLower (ToLower s) = ToLower s"
proof -
  have "lower_char (lower_char c) = lower_char c" for c
    by (auto simp: lower_char_def)
  then show ?thesis by (simp add: ToLower_def)
qed

lemma EqualFold_refl [simp]: "EqualFold s s"
  by (simp add: EqualFold_def)

section \<open>Splitting and joining\<close>

lemma split_on_ne [simp]: "split_on p s \<noteq> []"
  by (induction s) auto

lemma split_on_none: "(\<And>c. c \<in> set s \<Longrightarrow> \<not> p c) \<Longrightarrow> split_on p s = [s]"
  by (induction s) auto

lemma split_on_append:
  "(\<And>c. c \<in> set a \<Longrightarrow> \<not> p c) \<Longrightarrow> p x \<Longrightarrow> split_on p (a @ x # b) = a # split_on p b"
  by (induction a) auto

lemma split_on_pieces: "w \<in> set (split_on p s) \<Longrightarrow> c \<in> set w \<Longrightarrow> \<not> p c"
proof (induction s arbitrary: w)
  case Nil
  then show ?case by simp
next
  case (Cons x s)
  obtain h t where "split_on p s = h # t" by (cases "split_on p s") auto
  with Cons.prems Cons.IH [of h] Cons.IH [of w] show ?case by (auto split: if_splits)
qed

lemma Join_Cons: "xs \<noteq> [] \<Longrightarrow> Join (x # xs) sep = x @ sep @ Join xs sep"
  by (cases xs) auto

lemma Split_Join:
  "xs \<noteq> [] \<Longrightarrow> (\<And>x. x \<in> set xs \<Longrightarrow> c \<notin> set x) \<Longrightarrow> Split (Join xs [c]) c = xs"
proof (induction xs)
  case Nil
  then show ?case by simp
next
  case (Cons x xs)
  show ?case
  proof (cases xs)
    case Nil
    with Cons.prems show ?thesis by (auto simp: Split_def intro: split_on_none)
  next
    case (Cons y ys)
    have "split_on (\<lambda>z. z = c) (x @ c # Join xs [c]) = x # split_on (\<lambda>z. z = c) (Join xs [c])"
      using Cons.prems by (intro split_on_append) auto
    with Cons.IH Cons.prems Cons show ?thesis by (simp add: Split_def)
  qed
qed

lemma Join_Split: "Join (Split s c) [c] = s"
proof (induction s)
  case Nil
  show ?case by (simp add: Split_def)
next
  case (Cons x s)
  obtain h t where ht: "split_on (\<lambda>x. x = c) s = h # t"
    by (cases "split_on (\<lambda>x. x = c) s") auto
  with Cons show ?case by (cases t) (auto simp: Split_def)
qed

lemma Split_append: "Split (a @ c # b) c = Split a c @ Split b c"
  by (induction a) (auto simp: Split_def)

lemma length_Split: "1 \<le> length (Split s c)"
  by (simp add: Split_def Suc_le_eq)

lemma SplitN_append [simp]:
  assumes "c \<notin> set a"
  shows "SplitN (a @ c # b) c (Suc (Suc n)) = a # SplitN b c (Suc n)"
proof -
  have "dropWhile (\<lambda>x. x \<noteq> c) (a @ c # b) = c # b"
    and "takeWhile (\<lambda>x. x \<noteq> c) (a @ c # b) = a"
    using assms by (intro dropWhile_append_stop takeWhile_append_stop; auto)+
  then show ?thesis by simp
qed

lemma SplitN_none [simp]:
  assumes "c \<notin> set s"
  shows "SplitN s c (Suc n) = [s]"
proof -
  have "dropWhile (\<lambda>x. x \<noteq> c) s = []"
    using assms by (intro dropWhile_all) auto
  then show ?thesis by (cases n) simp_all
qed

lemma Fields_Join_space:
  assumes "xs \<noteq> []" and "\<And>x. x \<in> set xs \<Longrightarrow> x \<noteq> [] \<and> (\<forall>c \<in> set x. \<not> is_space c)"
  shows "Fields (Join xs '' '') = xs"
proof -
  have "split_on is_space (Join xs '' '') = xs"
    using assms
  proof (induction xs)
    case Nil
    then show ?case by simp
  next
    case (Cons x xs)
    show ?case
    proof (cases xs)
      case Nil
      with Cons.prems show ?thesis by (auto intro: split_on_none)
    next
      case (Cons y ys)
      have "split_on is_space (x @ CHR '' '' # Join xs '' '') = x # split_on is_space (Join xs '' '')"
        using Cons.prems by (intro split_on_append) (auto simp: is_space_def)
      moreover have "split_on is_space (Join xs '' '') = xs"
        using Cons.prems Cons by (intro Cons.IH) auto
      ultimately show ?thesis using Cons by simp
    qed
  qed
  moreover have "filter (\<lambda>w. w \<noteq> []) xs = xs"
    using assms(2) by (auto simp: filter_id_conv)
  ultimately show ?thesis by (simp add: Fields_def)
qed

section \<open>Decimal numbers\<close>

lemma is_digit_digit_char [simp]: "d < 10 \<Longrightarrow> is_digit (digit_char d)"
  by (simp add: is_digit_def digit_char_def)

lemma digit_val_digit_char [simp]: "d < 10 \<Longrightarrow> digit_val (digit_char d) = d"
  by (simp add: digit_val_def digit_char_def)

lemma show_nat_ne [simp]: "show_nat n \<noteq> []"
  by (subst show_nat.simps) simp

lemma show_nat_digits: "list_all is_digit (show_nat n)"
proof (induction n rule: show_nat.induct)
  case (1 n)
  then show ?case by (cases "n < 10") (simp_all add: show_nat.simps [of n])
qed

lemma digits_val_Nil [simp]: "digits_val [] = 0"
  by (simp add: digits_val_def)

lemma digits_val_snoc [simp]: "digits_val (s @ [c]) = 10 * digits_val s + digit_val c"
  by (simp add: digits_val_def)

lemma digits_val_show_nat [simp]: "digits_val (show_nat n) = n"
proof (induction n rule: show_nat.induct)
  case (1 n)
  show ?case
  proof (cases "n < 10")
    case True
    then show ?thesis by (simp add: show_nat.simps [of n] digits_val_def)
  next
    case False
    with 1 show ?thesis by (simp add: show_nat.simps [of n])
  qed
qed

lemma parse_show_nat [simp]: "parse_nat (show_nat n) = Some n"
  by (simp add: parse_nat_def show_nat_digits)

lemma is_digit_not_sign: "is_digit c \<Longrightarrow> c \<noteq> CHR ''-'' \<and> c \<noteq> CHR ''+''"
  by (auto simp: is_digit_def)

lemma ParseInt_show_int [simp]:
  assumes "in_int64 i"
  shows "ParseInt (show_int i) = Some i"
proof (cases "i < 0")
  case True
  with assms show ?thesis by (simp add: ParseInt_def show_int_def)
next
  case False
  obtain c r where cr: "show_nat (nat i) = c # r"
    by (cases "show_nat (nat i)") auto
  then have "is_digit c" using show_nat_digits [of "nat i"] by simp
  then have "c \<noteq> CHR ''-'' \<and> c \<noteq> CHR ''+''" by (rule is_digit_not_sign)
  moreover have "parse_nat (c # r) = Some (nat i)" by (metis cr parse_show_nat)
  ultimately show ?thesis
    using assms False cr by (simp add: ParseInt_def show_int_def)
qed

lemmas ParseInt_eval = ParseInt_def parse_nat_def is_digit_def digits_val_def digit_val_def
  in_int64_def min_int64_def max_int64_def

lemma ParseInt_in_int64: "ParseInt s = Some i \<Longrightarrow> in_int64 i"
  by (auto simp: ParseInt_def Let_def split: option.splits if_splits prod.splits)

lemma show_nat_chars: "c \<in> set (show_nat n) \<Longrightarrow> is_digit c"
  using show_nat_digits by (auto simp: list_all_iff)

lemma show_int_chars: "c \<in> set (show_int i) \<Longrightarrow> is_digit c \<or> c = CHR ''-''"
  by (auto simp: show_int_def dest: show_nat_chars split: if_splits)

lemma show_int_no_char:
  "\<not> is_digit c \<Longrightarrow> c \<noteq> CHR ''-'' \<Longrightarrow> c \<notin> set (show_int i)"
  by (blast dest: show_int_chars)

lemma digits_val_Cons: "digits_val (c # s) = digit_val c * 10 ^ length s + digits_val s"
proof (induction s rule: rev_induct)
  case Nil
  show ?case by (simp add: digits_val_def)
next
  case (snoc x s)
  have "digits_val (c # s @ [x]) = 10 * digits_val (c # s) + digit_val x"
    using digits_val_snoc [of "c # s" x] by simp
  with snoc.IH show ?case by simp
qed

lemma digit_val_less: "is_digit c \<Longrightarrow> digit_val c < 10"
  unfolding is_digit_def digit_val_def by linarith

lemma digits_val_less: "list_all is_digit s \<Longrightarrow> digits_val s < 10 ^ length s"
proof (induction s)
  case Nil
  show ?case by simp
next
  case (Cons c s)
  have "digit_val c \<le> 9" using Cons.prems digit_val_less [of c] by simp
  then have "digit_val c * 10 ^ length s \<le> 9 * 10 ^ length s" by (rule mult_le_mono1)
  moreover have "digits_val s < 10 ^ length s" using Cons by simp
  ultimately show ?case unfolding digits_val_Cons length_Cons power_Suc by linarith
qed

lemma digit_val_mono: "is_digit c \<Longrightarrow> is_digit d \<Longrightarrow> digit_val c < digit_val d \<longleftrightarrow> c < d"
  unfolding is_digit_def digit_val_def less_char_def by linarith

lemma digit_val_inj: "is_digit c \<Longrightarrow> is_digit d \<Longrightarrow> digit_val c = digit_val d \<longleftrightarrow> c = d"
  using digit_val_mono [of c d] digit_val_mono [of d c]
  by (cases c d rule: linorder_cases) auto

text \<open>On digit strings of one length the bytewise order is the order of the numbers.\<close>

lemma digits_val_mono:
  assumes "length s = length t" and "list_all is_digit s" and "list_all is_digit t"
  shows "digits_val s < digits_val t \<longleftrightarrow> s < t"
  using assms
proof (induction s t rule: list_induct2)
  case Nil
  show ?case by simp
next
  case (Cons c s d t)
  have st: "digits_val s < 10 ^ length t" "digits_val t < 10 ^ length t"
    using Cons.prems Cons.hyps digits_val_less by force+
  have less: "digits_val (a # x) < digits_val (b # y)"
    if "digit_val a < digit_val b" "digits_val x < 10 ^ length t" "length x = length t" "length y = length t"
    for a b x y
  proof -
    have "Suc (digit_val a) * 10 ^ length t \<le> digit_val b * 10 ^ length t"
      using that(1) by (intro mult_le_mono1) simp
    with that(2-4) show ?thesis by (simp add: digits_val_Cons)
  qed
  consider "digit_val c < digit_val d" | "digit_val d < digit_val c" | "digit_val c = digit_val d"
    by linarith
  then show ?case
  proof cases
    case 1
    then have "c < d" using Cons.prems digit_val_mono by auto
    then show ?thesis using less [OF 1 st(1)] Cons.hyps by (simp add: Cons_less_Cons)
  next
    case 2
    then have "d < c" using Cons.prems digit_val_mono by auto
    then show ?thesis using less [OF 2 st(2) refl Cons.hyps] by (auto simp: Cons_less_Cons)
  next
    case 3
    then have "c = d" using Cons.prems digit_val_inj by auto
    then show ?thesis using Cons by (simp add: Cons_less_Cons digits_val_Cons)
  qed
qed

lemma wrap64_id [simp]: "in_int64 i \<Longrightarrow> wrap64 i = i"
  by (simp add: wrap64_def in_int64_def min_int64_def max_int64_def)

lemma in_int64_wrap64 [simp]: "in_int64 (wrap64 i)"
proof -
  have "0 \<le> (i + 2 ^ 63) mod 2 ^ 64" "(i + 2 ^ 63) mod 2 ^ 64 < 2 ^ 64"
    by (rule pos_mod_sign pos_mod_bound; simp)+
  then show ?thesis by (simp add: wrap64_def in_int64_def min_int64_def max_int64_def)
qed

section \<open>Clean absolute paths\<close>

definition ok_comp :: "string \<Rightarrow> bool" where
  "ok_comp c \<longleftrightarrow> c \<noteq> [] \<and> c \<noteq> ''.'' \<and> c \<noteq> ''..'' \<and> CHR ''/'' \<notin> set c"

definition abs_path :: "string list \<Rightarrow> string" where
  "abs_path cs = concat (List.map (\<lambda>c. CHR ''/'' # c) cs)"

lemma abs_path_simps [simp]:
  "abs_path [] = []" "abs_path (c # cs) = CHR ''/'' # c @ abs_path cs"
  by (simp_all add: abs_path_def)

lemma abs_path_append [path_simps]: "abs_path (cs @ ds) = abs_path cs @ abs_path ds"
  by (simp add: abs_path_def)

lemma abs_path_eq_Nil [simp]: "abs_path cs = [] \<longleftrightarrow> cs = []"
  by (cases cs) auto

lemma Join_slash: "cs \<noteq> [] \<Longrightarrow> CHR ''/'' # Join cs ''/'' = abs_path cs"
  by (induction cs) (auto simp: Join_Cons, metis Join.simps(2) append.right_neutral Join_Cons
      abs_path_simps(1) append_Cons append_Nil)

lemma Split_Join_slash:
  "cs \<noteq> [] \<Longrightarrow> list_all (\<lambda>c. CHR ''/'' \<notin> set c) cs \<Longrightarrow>
     Split (abs_path cs) (CHR ''/'') = [] # cs"
  using Split_Join [of cs "CHR ''/''"]
  by (simp add: Split_def Join_slash [symmetric] list_all_iff)

lemma Split_abs_path:
  assumes "list_all ok_comp cs"
  shows "Split (abs_path cs) (CHR ''/'') = [] # cs"
proof (cases "cs = []")
  case True
  then show ?thesis by (simp add: Split_def)
next
  case False
  with assms show ?thesis by (intro Split_Join_slash) (auto simp: ok_comp_def list_all_iff)
qed

lemma foldl_clean_step:
  "list_all ok_comp cs \<Longrightarrow> foldl (clean_step r) st cs = st @ cs"
  by (induction cs arbitrary: st) (auto simp: clean_step_def ok_comp_def)

lemma Clean_rooted:
  assumes "Split (CHR ''/'' # p) (CHR ''/'') = [] # cs @ ds" and "cs \<noteq> []"
    and "list_all ok_comp cs" and "ds = [] \<or> ds = [[]]"
  shows "Clean (CHR ''/'' # p) = abs_path cs"
proof -
  have "foldl (clean_step True) [] (Split (CHR ''/'' # p) (CHR ''/'')) = cs"
    using assms by (auto simp: foldl_clean_step) (auto simp: clean_step_def foldl_clean_step)
  then show ?thesis
    using assms(2) by (simp add: Clean_def HasPrefix_def Join_slash)
qed

lemma Clean_abs_path [path_simps]:
  assumes "cs \<noteq> []" and "list_all ok_comp cs"
  shows "Clean (abs_path cs) = abs_path cs"
proof -
  obtain p where p: "abs_path cs = CHR ''/'' # p" using assms(1) by (cases cs) auto
  with Split_abs_path [OF assms(2)] show ?thesis
    using Clean_rooted [of p cs "[]"] assms by simp
qed

lemma Join_abs_path: "Join (abs_path cs # ds) ''/'' = abs_path (cs @ ds)"
proof (cases "ds = []")
  case True
  then show ?thesis by simp
next
  case False
  then show ?thesis by (simp add: Join_Cons Join_slash abs_path_append)
qed

lemma path_join_abs [path_simps]:
  assumes "cs \<noteq> []" and "list_all ok_comp (cs @ ds)"
  shows "path_join (abs_path cs # ds) = abs_path (cs @ ds)"
proof -
  have "filter (\<lambda>e. e \<noteq> []) (abs_path cs # ds) = abs_path cs # ds"
    using assms by (auto simp: filter_id_conv ok_comp_def list_all_iff)
  then show ?thesis
    using assms Clean_abs_path [of "cs @ ds"] by (simp add: path_join_def Join_abs_path)
qed

lemma abs_path_snoc: "abs_path (cs @ [c]) = abs_path cs @ CHR ''/'' # c"
  by (simp add: abs_path_append)

lemma Base_abs_path [path_simps]:
  assumes "list_all ok_comp (cs @ [c])"
  shows "Base (abs_path (cs @ [c])) = c"
proof -
  have c: "c \<noteq> []" "CHR ''/'' \<notin> set c" using assms by (auto simp: ok_comp_def)
  then have "last c \<noteq> CHR ''/''" by (metis last_in_set)
  with c have "last (abs_path (cs @ [c])) \<noteq> CHR ''/''" by (simp add: abs_path_snoc)
  then have "TrimRightBy (\<lambda>c. c = CHR ''/'') (abs_path (cs @ [c])) = abs_path (cs @ [c])"
    by (intro TrimRightBy_id) simp
  moreover have "abs_path (cs @ [c]) \<noteq> []" by simp
  ultimately show ?thesis
    using Split_abs_path [OF assms] by (simp add: Base_def)
qed

lemma Dir_abs_path [path_simps]:
  assumes "cs \<noteq> []" and "list_all ok_comp (cs @ [c])"
  shows "Dir_of (abs_path (cs @ [c])) = abs_path cs"
proof -
  have c: "CHR ''/'' \<notin> set (rev c)" using assms by (auto simp: ok_comp_def)
  have "dropWhile (\<lambda>x. x \<noteq> CHR ''/'') (rev c @ CHR ''/'' # rev (abs_path cs))
      = CHR ''/'' # rev (abs_path cs)"
    using c by (intro dropWhile_append_stop) auto
  then have dir: "Dir_of (abs_path (cs @ [c])) = Clean (abs_path (cs @ [[]]))"
    by (simp add: Dir_of_def abs_path_snoc)
  obtain p where p: "abs_path (cs @ [[]]) = CHR ''/'' # p" using assms(1) by (cases cs) auto
  have "Split (abs_path (cs @ [[]])) (CHR ''/'') = [] # cs @ [[]]"
    using assms(2) by (intro Split_Join_slash) (auto simp: ok_comp_def list_all_iff)
  with p dir show ?thesis
    using Clean_rooted [of p cs "[[]]"] assms by simp
qed

lemma before_last_slash_append:
  "CHR ''/'' \<notin> set c \<Longrightarrow> before_last_slash (p @ CHR ''/'' # c) = p"
proof -
  assume "CHR ''/'' \<notin> set c"
  then have "dropWhile (\<lambda>x. x \<noteq> CHR ''/'') (rev c @ CHR ''/'' # rev p) = CHR ''/'' # rev p"
    by (intro dropWhile_append_stop) auto
  then show ?thesis by (simp add: before_last_slash_def)
qed

interpretation decimal: codec show_int ParseInt in_int64
  by unfold_locales (rule ParseInt_show_int)

end
