(* ===== verification/Go_Time.thy ===== *)
theory Go_Time
  imports Go_Strings
begin

text \<open>
  Go's \<open>time\<close> as the program uses it. A \<open>time.Duration\<close> is an \<^typ>\<open>int\<close> of nanoseconds
  in the \<open>int64\<close> range, with products and negations wrapped by \<^const>\<open>wrap64\<close>. A
  \<open>time.Time\<close> is its number of nanoseconds since the Unix epoch; \<open>time.Time{}\<close> (the zero
  time) is \<^term>\<open>None\<close> where the code tests \<open>IsZero\<close>. The tz database behind
  \<open>time.Local\<close> is data, so a location is a record of two functions: the civil time of an
  instant and the instant of a civil time.
\<close>

section \<open>Civil time\<close>

datatype civil = Civil (yr: nat) (mo: nat) (dy: nat) (hr: nat) (mi: nat)

definition civil_key :: "civil \<Rightarrow> nat list" where
  "civil_key c = [yr c, mo c, dy c, hr c, mi c]"

lemma civil_key_inj: "civil_key c = civil_key d \<Longrightarrow> c = d"
  by (cases c; cases d) (simp add: civil_key_def)

text \<open>Civil times are ordered chronologically: year first, minute last.\<close>

instantiation civil :: linorder
begin

definition less_eq_civil :: "civil \<Rightarrow> civil \<Rightarrow> bool" where
  "less_eq_civil c d \<longleftrightarrow> civil_key c \<le> civil_key d"

definition less_civil :: "civil \<Rightarrow> civil \<Rightarrow> bool" where
  "less_civil c d \<longleftrightarrow> civil_key c < civil_key d"

instance
  by standard (auto simp: less_eq_civil_def less_civil_def intro: civil_key_inj)

end

definition leap :: "nat \<Rightarrow> bool" where
  "leap y \<longleftrightarrow> y mod 4 = 0 \<and> (y mod 100 \<noteq> 0 \<or> y mod 400 = 0)"

text \<open>\<open>time.daysIn\<close>\<close>

definition days_in :: "nat \<Rightarrow> nat \<Rightarrow> nat" where
  "days_in y m = (if m = 2 then (if leap y then 29 else 28)
                  else if m = 4 \<or> m = 6 \<or> m = 9 \<or> m = 11 then 30 else 31)"

definition valid_civil :: "civil \<Rightarrow> bool" where
  "valid_civil c \<longleftrightarrow> 1 \<le> mo c \<and> mo c \<le> 12 \<and> 1 \<le> dy c \<and> dy c \<le> days_in (yr c) (mo c)
     \<and> hr c < 24 \<and> mi c < 60"

text \<open>Minutes since the Unix epoch of a civil time read as UTC.\<close>

definition days_before_year :: "nat \<Rightarrow> int" where
  "days_before_year y =
     (let p = int y - 1 in 365 * p + p div 4 - p div 100 + p div 400)"

definition days_before_month :: "nat \<Rightarrow> nat \<Rightarrow> nat" where
  "days_before_month y m = sum_list (List.map (days_in y) [1..<m])"

definition utc_days :: "civil \<Rightarrow> int" where
  "utc_days c = days_before_year (yr c) + int (days_before_month (yr c) (mo c)) + int (dy c) - 1 - 719162"

definition utc_minutes :: "civil \<Rightarrow> int" where
  "utc_minutes c = utc_days c * 1440 + int (hr c) * 60 + int (mi c)"

definition nanos_per_second :: int where "nanos_per_second = 1000000000"
definition nanos_per_minute :: int where "nanos_per_minute = 60000000000"
definition nanos_per_hour :: int where "nanos_per_hour = 3600000000000"

record location =
  to_civil :: "int \<Rightarrow> civil"
  of_civil :: "civil \<Rightarrow> int"

text \<open>A location whose clock is a fixed number of minutes ahead of UTC: what
  \<open>time.ParseInLocation\<close> computes there.\<close>

definition fixed_instant :: "int \<Rightarrow> civil \<Rightarrow> int" where
  "fixed_instant off c = (utc_minutes c - off) * nanos_per_minute"

section \<open>The snapshot time stamp \<open>20060102-1504\<close>\<close>

text \<open>\<open>t.Format("20060102-1504")\<close>\<close>

definition format_stamp :: "civil \<Rightarrow> string" where
  "format_stamp c = show_padded 4 (yr c) @ show_padded 2 (mo c) @ show_padded 2 (dy c)
     @ ''-'' @ show_padded 2 (hr c) @ show_padded 2 (mi c)"

text \<open>\<open>time.ParseInLocation("20060102-1504", s, loc)\<close> on strings of 13 bytes; every call
  of the code is on such a string. The year and the two-digit fields are all digits, the
  month, day, hour and minute are range checked, and nothing may follow.\<close>

definition stamp_shape :: "string \<Rightarrow> bool" where
  "stamp_shape s \<longleftrightarrow> length s = 13 \<and> s ! 8 = CHR ''-''
     \<and> list_all is_digit (take 8 s) \<and> list_all is_digit (drop 9 s)"

definition stamp_civil :: "string \<Rightarrow> civil" where
  "stamp_civil s = Civil (digits_val (take 4 s)) (digits_val (take 2 (drop 4 s)))
     (digits_val (take 2 (drop 6 s))) (digits_val (take 2 (drop 9 s))) (digits_val (drop 11 s))"

definition parse_stamp :: "string \<Rightarrow> civil option" where
  "parse_stamp s =
     (if stamp_shape s \<and> valid_civil (stamp_civil s) then Some (stamp_civil s) else None)"

section \<open>Durations\<close>

text \<open>\<open>now.Add(-time.Duration(days) * 24 * time.Hour)\<close>: the product wraps in \<open>int64\<close>.\<close>

definition days_duration :: "int \<Rightarrow> int" where
  "days_duration days = wrap64 (wrap64 (wrap64 (- days) * 24) * nanos_per_hour)"

definition days_cutoff :: "int \<Rightarrow> int \<Rightarrow> int" where
  "days_cutoff now days = now + days_duration days"

section \<open>Order of civil times and of instants\<close>

lemma div_pred:
  fixes x k :: int
  assumes "0 < k"
  shows "x div k = (x - 1) div k + (if k dvd x then 1 else 0)"
proof (cases "k dvd x")
  case True
  then obtain q where q: "x = k * q" ..
  have "k * q - 1 = k * (q - 1) + (k - 1)" by (simp add: algebra_simps)
  then have "(k * q - 1) div k = q - 1" using assms by (intro int_div_pos_eq [where r = "k - 1"]) simp_all
  with q assms show ?thesis by simp
next
  case False
  then have "0 < x mod k" using assms by (simp add: dvd_eq_mod_eq_0 order_le_neq_trans)
  moreover have "x mod k < k" using assms by simp
  moreover have "x - 1 = k * (x div k) + (x mod k - 1)" by simp
  ultimately have "(x - 1) div k = x div k"
    by (intro int_div_pos_eq [where r = "x mod k - 1"]) simp_all
  with False show ?thesis by simp
qed

lemma leap_sum:
  fixes n a4 b4 a100 b100 a400 b400 :: int
  assumes "a4 = b4 + (if A then 1 else 0)" "a100 = b100 + (if B then 1 else 0)"
    "a400 = b400 + (if C then 1 else 0)" and "C \<Longrightarrow> B" "B \<Longrightarrow> A"
  shows "365 * n + a4 - a100 + a400
       = 365 * (n - 1) + b4 - b100 + b400 + (if A \<and> (\<not> B \<or> C) then 366 else 365)"
  using assms by (cases A; cases B; cases C; simp)

lemma days_before_year_Suc:
  "days_before_year (Suc y) = days_before_year y + (if leap y then 366 else 365)"
proof -
  define x where "x = int y"
  have k: "4 dvd x \<longleftrightarrow> y mod 4 = 0" "100 dvd x \<longleftrightarrow> y mod 100 = 0" "400 dvd x \<longleftrightarrow> y mod 400 = 0"
    unfolding x_def by (metis dvd_eq_mod_eq_0 of_nat_dvd_iff of_nat_numeral)+
  have p: "int (Suc y) - 1 = x" by (simp add: x_def)
  have "365 * x + x div 4 - x div 100 + x div 400
      = 365 * (x - 1) + (x - 1) div 4 - (x - 1) div 100 + (x - 1) div 400
        + (if 4 dvd x \<and> (\<not> 100 dvd x \<or> 400 dvd x) then 366 else 365)"
  proof (rule leap_sum; (rule div_pred)?)
    show "400 dvd x \<Longrightarrow> 100 dvd x" by (rule dvd_trans [of 100 400]) simp_all
    show "100 dvd x \<Longrightarrow> 4 dvd x" by (rule dvd_trans [of 4 100]) simp_all
  qed simp_all
  then show ?thesis
    unfolding days_before_year_def leap_def Let_def p k x_def [symmetric] .
qed

lemma days_before_year_mono:
  "y < y' \<Longrightarrow> days_before_year y + (if leap y then 366 else 365) \<le> days_before_year y'"
proof (induction y')
  case 0
  then show ?case by simp
next
  case (Suc y')
  then show ?case
    by (cases "y = y'") (auto simp: days_before_year_Suc less_Suc_eq)
qed

lemma days_before_month_mono:
  "m < m' \<Longrightarrow> 1 \<le> m \<Longrightarrow> days_before_month y m + days_in y m \<le> days_before_month y m'"
proof (induction m')
  case 0
  then show ?case by simp
next
  case (Suc m')
  then show ?case
    by (cases "m = m'") (auto simp: days_before_month_def less_Suc_eq)
qed

lemma days_before_month_13: "days_before_month y 13 = (if leap y then 366 else 365)"
proof -
  have "[1..<13] = [1, 2, 3, 4, 5, 6, 7, 8, 9, 10, 11, 12 :: nat]" by (simp add: upt_rec)
  then show ?thesis by (simp add: days_before_month_def days_in_def)
qed

lemma utc_days_year_end:
  "valid_civil c \<Longrightarrow> days_before_month (yr c) (mo c) + dy c \<le> (if leap (yr c) then 366 else 365)"
  using days_before_month_mono [of "mo c" 13 "yr c"]
  by (simp add: days_before_month_13 valid_civil_def)

lemma civil_less_iff:
  "c < d \<longleftrightarrow> yr c < yr d \<or> (yr c = yr d \<and> (mo c < mo d \<or> (mo c = mo d \<and>
     (dy c < dy d \<or> (dy c = dy d \<and> (hr c < hr d \<or> (hr c = hr d \<and> mi c < mi d)))))))"
  by (auto simp: less_civil_def civil_key_def Cons_less_Cons)

lemma utc_days_less:
  assumes c: "valid_civil c" and d: "valid_civil d"
    and lt: "yr c < yr d \<or> (yr c = yr d \<and> (mo c < mo d \<or> (mo c = mo d \<and> dy c < dy d)))"
  shows "utc_days c < utc_days d"
proof -
  consider "yr c < yr d" | "yr c = yr d" "mo c < mo d" | "yr c = yr d" "mo c = mo d" "dy c < dy d"
    using lt by blast
  then show ?thesis
  proof cases
    case 1
    have "int (days_before_month (yr c) (mo c) + dy c) \<le> (if leap (yr c) then 366 else 365)"
      using utc_days_year_end [OF c] by (simp split: if_splits)
    moreover have "1 \<le> dy d" using d by (simp add: valid_civil_def)
    ultimately show ?thesis using days_before_year_mono [OF 1] by (simp add: utc_days_def)
  next
    case 2
    then have "days_before_month (yr c) (mo c) + days_in (yr c) (mo c) \<le> days_before_month (yr c) (mo d)"
      using c by (intro days_before_month_mono) (auto simp: valid_civil_def)
    with 2 c d show ?thesis by (simp add: utc_days_def valid_civil_def)
  next
    case 3
    then show ?thesis by (simp add: utc_days_def)
  qed
qed

lemma utc_minutes_less:
  assumes c: "valid_civil c" and d: "valid_civil d" and "c < d"
  shows "utc_minutes c < utc_minutes d"
proof -
  have b: "hr c < 24" "mi c < 60" "hr d < 24" "mi d < 60" using c d by (auto simp: valid_civil_def)
  consider "utc_days c < utc_days d"
    | "yr c = yr d" "mo c = mo d" "dy c = dy d" "hr c < hr d \<or> (hr c = hr d \<and> mi c < mi d)"
    using assms utc_days_less [OF c d] unfolding civil_less_iff by blast
  then show ?thesis
  proof cases
    case 1
    with b show ?thesis by (simp add: utc_minutes_def)
  next
    case 2
    then have "utc_days c = utc_days d" by (simp add: utc_days_def)
    with 2 b show ?thesis by (auto simp: utc_minutes_def)
  qed
qed

lemma utc_minutes_less_iff:
  "valid_civil c \<Longrightarrow> valid_civil d \<Longrightarrow> utc_minutes c < utc_minutes d \<longleftrightarrow> c < d"
  by (metis less_asym linorder_cases utc_minutes_less)

lemma fixed_instant_less_iff:
  "valid_civil c \<Longrightarrow> valid_civil d \<Longrightarrow> fixed_instant off c < fixed_instant off d \<longleftrightarrow> c < d"
  by (simp add: fixed_instant_def nanos_per_minute_def utc_minutes_less_iff)

section \<open>Stamps\<close>

lemma stamp_decompose:
  assumes "stamp_shape s"
  shows "s = take 4 s @ take 2 (drop 4 s) @ take 2 (drop 6 s) @ ''-'' @ take 2 (drop 9 s) @ drop 11 s"
proof -
  have "s = take 4 s @ take 2 (drop 4 s) @ take 2 (drop 6 s) @ drop 8 s"
    using append_take_drop_id [of 4 s] append_take_drop_id [of 2 "drop 4 s"]
      append_take_drop_id [of 2 "drop 6 s"] by simp
  moreover have "drop 8 s = ''-'' @ drop 9 s"
    using assms by (simp add: stamp_shape_def Cons_nth_drop_Suc [symmetric])
  moreover have "drop 9 s = take 2 (drop 9 s) @ drop 11 s"
    using append_take_drop_id [of 2 "drop 9 s"] by simp
  ultimately show ?thesis by simp
qed

lemma stamp_parts_digits:
  assumes "stamp_shape s"
  shows "list_all is_digit (take 4 s)" "list_all is_digit (take 2 (drop 4 s))"
    "list_all is_digit (take 2 (drop 6 s))" "list_all is_digit (take 2 (drop 9 s))"
    "list_all is_digit (drop 11 s)"
proof -
  have a: "list_all is_digit (take 8 s)" and b: "list_all is_digit (drop 9 s)"
    using assms by (auto simp: stamp_shape_def)
  show "list_all is_digit (take 4 s)" using list_all_take [OF a, of 4] by simp
  show "list_all is_digit (take 2 (drop 4 s))"
    using list_all_take [OF list_all_drop [OF a, of 4], of 2] by (simp add: drop_take)
  show "list_all is_digit (take 2 (drop 6 s))"
    using list_all_drop [OF a, of 6] by (simp add: drop_take)
  show "list_all is_digit (take 2 (drop 9 s))" using list_all_take [OF b] by simp
  show "list_all is_digit (drop 11 s)" using list_all_drop [OF b, of 2] by simp
qed

lemma stamp_parts_length:
  "stamp_shape s \<Longrightarrow> length (take 4 s) = 4 \<and> length (take 2 (drop 4 s)) = 2
     \<and> length (take 2 (drop 6 s)) = 2 \<and> length (take 2 (drop 9 s)) = 2 \<and> length (drop 11 s) = 2"
  by (simp add: stamp_shape_def)

lemma stamp_less_iff:
  assumes s: "stamp_shape s" and t: "stamp_shape t"
  shows "s < t \<longleftrightarrow> stamp_civil s < stamp_civil t"
proof -
  have lt: "digits_val a < digits_val b \<longleftrightarrow> a < b" "digits_val a = digits_val b \<longleftrightarrow> a = b"
    if "length a = length b" "list_all is_digit a" "list_all is_digit b" for a b
    using digits_val_mono [OF that] digits_val_mono [of b a] that
    by (cases a b rule: linorder_cases; simp)+
  note ds = stamp_parts_digits [OF s] stamp_parts_digits [OF t]
  note ls = stamp_parts_length [OF s] stamp_parts_length [OF t]
  have "s < t \<longleftrightarrow>
    take 4 s @ take 2 (drop 4 s) @ take 2 (drop 6 s) @ ''-'' @ take 2 (drop 9 s) @ drop 11 s <
    take 4 t @ take 2 (drop 4 t) @ take 2 (drop 6 t) @ ''-'' @ take 2 (drop 9 t) @ drop 11 t"
    using stamp_decompose [OF s] stamp_decompose [OF t] by simp
  also have "\<dots> \<longleftrightarrow> stamp_civil s < stamp_civil t"
    using ds ls
    by (simp only: lex_append_same_length civil_less_iff stamp_civil_def civil.sel lt) auto
  finally show ?thesis .
qed

lemma stamp_civil_inj: "stamp_shape s \<Longrightarrow> stamp_shape t \<Longrightarrow> stamp_civil s = stamp_civil t \<Longrightarrow> s = t"
  by (metis less_irrefl linorder_cases stamp_less_iff)

lemma parse_stamp_Some: "parse_stamp s = Some c \<longleftrightarrow>
    stamp_shape s \<and> valid_civil c \<and> c = stamp_civil s"
  by (auto simp: parse_stamp_def)

lemma length_show_nat: "n < 10 ^ w \<Longrightarrow> 0 < w \<Longrightarrow> length (show_nat n) \<le> w"
proof (induction w arbitrary: n)
  case 0
  then show ?case by simp
next
  case (Suc w)
  show ?case
  proof (cases "n < 10")
    case True
    then show ?thesis by (simp add: show_nat.simps [of n])
  next
    case False
    with Suc.prems have "n div 10 < 10 ^ w" by (simp add: less_mult_imp_div_less mult.commute)
    moreover from False Suc.prems have "0 < w" by (cases w) auto
    ultimately have "length (show_nat (n div 10)) \<le> w" by (rule Suc.IH)
    with False show ?thesis by (simp add: show_nat.simps [of n])
  qed
qed

lemma length_show_padded: "n < 10 ^ w \<Longrightarrow> 0 < w \<Longrightarrow> length (show_padded w n) = w"
  using length_show_nat [of n w] by (simp add: show_padded_def)

lemma show_padded_digits: "list_all is_digit (show_padded w n)"
  using show_nat_digits [of n] by (auto simp: show_padded_def list_all_iff is_digit_def)

lemma digits_val_zeros: "digits_val (replicate k (CHR ''0'') @ s) = digits_val s"
  by (induction k) (simp_all add: digits_val_Cons digit_val_def)

lemma digits_val_show_padded [simp]: "digits_val (show_padded w n) = n"
  by (simp add: show_padded_def digits_val_zeros)

lemma valid_civil_bounds:
  "valid_civil c \<Longrightarrow> mo c < 100 \<and> dy c < 100 \<and> hr c < 100 \<and> mi c < 100"
  by (auto simp: valid_civil_def days_in_def split: if_splits)

lemma format_stamp_shape:
  assumes "valid_civil c" and "yr c < 10000"
  shows "stamp_shape (format_stamp c)" and "stamp_civil (format_stamp c) = c"
proof -
  have len: "length (show_padded 4 (yr c)) = 4" "length (show_padded 2 (mo c)) = 2"
    "length (show_padded 2 (dy c)) = 2" "length (show_padded 2 (hr c)) = 2"
    "length (show_padded 2 (mi c)) = 2"
    using assms valid_civil_bounds [OF assms(1)] by (simp_all add: length_show_padded)
  show "stamp_shape (format_stamp c)"
    using len by (simp add: stamp_shape_def format_stamp_def nth_append show_padded_digits)
  show "stamp_civil (format_stamp c) = c"
    using len by (cases c) (simp add: stamp_civil_def format_stamp_def)
qed

lemma parse_format_stamp:
  "valid_civil c \<Longrightarrow> yr c < 10000 \<Longrightarrow> parse_stamp (format_stamp c) = Some c"
  by (simp add: parse_stamp_def format_stamp_shape)

interpretation stamps: codec format_stamp parse_stamp "\<lambda>c. valid_civil c \<and> yr c < 10000"
  by unfold_locales (auto intro: parse_format_stamp)

end
