(* ===== verification/Os_World.thy ===== *)
theory Os_World
  imports Go_Time
begin

text \<open>
  The outside world of the program: the local file system, the commands it runs
  (\<open>docker\<close>, \<open>ssh\<close>, \<open>rsync\<close>, \<open>sync\<close>, \<open>sudo\<close>), the contexts and the clock.

  The file system is an association list from paths to nodes. A system call of Go's
  \<open>os\<close> package is a function on the world; the environment record says which calls
  fail (\<open>io_fault\<close>), what survives a failed \<open>RemoveAll\<close>, which random suffix
  \<open>os.CreateTemp\<close> takes, how each command ends and what it prints, what it does to
  local files, whether a context is done, what the clock shows, the local time zone and the
  environment variables. The first of these are
  indexed by the step counter \<open>w_tick\<close>, so they may change from call to call, and every
  theorem holds for all of them. The trace lists the commands run so far, oldest first.
  Log lines (\<open>log/slog\<close>) leave no trace.
\<close>

section \<open>The world\<close>

datatype node = DirNode | FileNode string nat

type_synonym fs = "(string \<times> node) list"

text \<open>The contexts: that of the running cycle or daemon, one detached from it with a
  time-out of its own, and \<open>context.Background()\<close>.\<close>

datatype ctx = CycleCtx | DetachedCtx | BackgroundCtx

datatype event = Exec ctx "string list" "string list" bool

record os_env =
  io_fault :: "nat \<Rightarrow> bool"
  rm_survives :: "nat \<Rightarrow> string \<Rightarrow> bool"
  temp_suffix :: "nat \<Rightarrow> string"
  cmd_ok :: "nat \<Rightarrow> string list \<Rightarrow> bool"
  cmd_out :: "nat \<Rightarrow> string list \<Rightarrow> string"
  cmd_fs :: "nat \<Rightarrow> string list \<Rightarrow> fs \<Rightarrow> fs"
  ctx_done :: "nat \<Rightarrow> ctx \<Rightarrow> bool"
  now_ns :: "nat \<Rightarrow> int"
  loc :: location
  env_vars :: "string list"

record world =
  w_fs :: fs
  w_trace :: "event list"
  w_tick :: nat
  w_env :: os_env

definition tick :: "world \<Rightarrow> world" where
  "tick w = w\<lparr>w_tick := Suc (w_tick w)\<rparr>"

definition faulty :: "world \<Rightarrow> bool" where
  "faulty w = io_fault (w_env w) (w_tick w)"

definition now :: "world \<Rightarrow> int \<times> world" where
  "now w = (now_ns (w_env w) (w_tick w), tick w)"

text \<open>\<open>time.Now().Format("20060102-1504")\<close>\<close>

definition now_stamp :: "world \<Rightarrow> string \<times> world" where
  "now_stamp w = (let (t, w) = now w in (format_stamp (to_civil (loc (w_env w)) t), w))"

section \<open>Commands\<close>

text \<open>Running a command to its end: \<open>cmd.Run()\<close>, \<open>Output()\<close> and \<open>CombinedOutput()\<close>
  with the environment entries given to \<open>SetEnv\<close>. The result is the error (if the
  command failed or was killed with its context) and the output.\<close>

definition run_cmd :: "ctx \<Rightarrow> string list \<Rightarrow> string list \<Rightarrow> world \<Rightarrow> (bool \<times> string) \<times> world" where
  "run_cmd c argv envv w =
     (let k = w_tick w; e = w_env w; ok = cmd_ok e k argv
      in ((ok, cmd_out e k argv),
          (tick w)\<lparr>w_fs := cmd_fs e k argv (w_fs w), w_trace := w_trace w @ [Exec c argv envv ok]\<rparr>))"

text \<open>\<open>select { case <-ctx.Done(): ... case <-time.After(d): ... }\<close>: true when the
  context's branch is taken.\<close>

definition wait_or_done :: "ctx \<Rightarrow> world \<Rightarrow> bool \<times> world" where
  "wait_or_done c w = (ctx_done (w_env w) (w_tick w) c, tick w)"

section \<open>Paths in the file system\<close>

definition dir_prefix :: "string \<Rightarrow> string" where
  "dir_prefix p = (if p = ''/'' then p else p @ ''/'')"

text \<open>\<open>q\<close> is \<open>p\<close> or lies below it.\<close>

definition under :: "string \<Rightarrow> string \<Rightarrow> bool" where
  "under p q \<longleftrightarrow> q = p \<or> HasPrefix q (dir_prefix p)"

definition child_name :: "string \<Rightarrow> string \<Rightarrow> string option" where
  "child_name p q =
     (let n = drop (length (dir_prefix p)) q
      in if HasPrefix q (dir_prefix p) \<and> n \<noteq> [] \<and> CHR ''/'' \<notin> set n then Some n else None)"

definition is_dir :: "fs \<Rightarrow> string \<Rightarrow> bool" where
  "is_dir f p \<longleftrightarrow> p = ''/'' \<or> map_of f p = Some DirNode"

definition is_file :: "fs \<Rightarrow> string \<Rightarrow> bool" where
  "is_file f p \<longleftrightarrow> (\<exists>c m. map_of f p = Some (FileNode c m))"

lemma is_file_code [code]:
  "is_file f p = (case map_of f p of Some (FileNode c m) \<Rightarrow> True | _ \<Rightarrow> False)"
  by (auto simp: is_file_def split: option.splits node.splits)

text \<open>The directories \<open>os.MkdirAll\<close> walks through: every proper prefix that ends before a
  slash, then the path itself.\<close>

definition ancestors :: "string \<Rightarrow> string list" where
  "ancestors p = List.map (\<lambda>i. take i p) (filter (\<lambda>i. 0 < i \<and> p ! i = CHR ''/'') [0..<length p]) @ [p]"

section \<open>System calls\<close>

text \<open>The entries of a directory, sorted by name, each with \<open>IsDir()\<close>.\<close>

definition dir_entries :: "fs \<Rightarrow> string \<Rightarrow> (string \<times> bool) list" where
  "dir_entries f p = List.map (\<lambda>n. (n, is_dir f (dir_prefix p @ n)))
     (sort (List.map_filter (\<lambda>(q, _). child_name p q) f))"

definition os_ReadDir :: "string \<Rightarrow> world \<Rightarrow> (string \<times> bool) list result \<times> world" where
  "os_ReadDir p w =
     (if faulty w then Inl (OsError p)
      else if \<not> is_dir (w_fs w) p then Inl (NotExist p)
      else Inr (dir_entries (w_fs w) p), tick w)"

definition os_Stat :: "string \<Rightarrow> world \<Rightarrow> node result \<times> world" where
  "os_Stat p w =
     (if faulty w then Inl (OsError p)
      else if p = ''/'' then Inr DirNode
      else (case map_of (w_fs w) p of None \<Rightarrow> Inl (NotExist p) | Some n \<Rightarrow> Inr n), tick w)"

definition os_ReadFile :: "string \<Rightarrow> world \<Rightarrow> string result \<times> world" where
  "os_ReadFile p w =
     (if faulty w then Inl (OsError p)
      else (case map_of (w_fs w) p of
              None \<Rightarrow> Inl (NotExist p)
            | Some DirNode \<Rightarrow> Inl (OsError p)
            | Some (FileNode c m) \<Rightarrow> Inr c), tick w)"

definition mkdir_fs :: "string \<Rightarrow> fs \<Rightarrow> fs" where
  "mkdir_fs p f = fold (\<lambda>d f. if is_dir f d then f else AList.update d DirNode f) (ancestors p) f"

definition os_MkdirAll :: "string \<Rightarrow> world \<Rightarrow> unit result \<times> world" where
  "os_MkdirAll p w =
     (if faulty w \<or> list_ex (is_file (w_fs w)) (ancestors p) then (Inl (OsError p), tick w)
      else (Inr (), (tick w)\<lparr>w_fs := mkdir_fs p (w_fs w)\<rparr>))"

text \<open>A failed \<open>os.RemoveAll\<close> may have removed part of the tree.\<close>

definition os_RemoveAll :: "string \<Rightarrow> world \<Rightarrow> unit result \<times> world" where
  "os_RemoveAll p w =
     (if faulty w
      then (Inl (OsError p),
            (tick w)\<lparr>w_fs := filter (\<lambda>(q, _). \<not> under p q \<or> rm_survives (w_env w) (w_tick w) q) (w_fs w)\<rparr>)
      else (Inr (), (tick w)\<lparr>w_fs := filter (\<lambda>(q, _). \<not> under p q) (w_fs w)\<rparr>))"

text \<open>\<open>os.Remove\<close> of a file or an empty directory.\<close>

definition os_Remove :: "string \<Rightarrow> world \<Rightarrow> unit result \<times> world" where
  "os_Remove p w =
     (if faulty w then (Inl (OsError p), tick w)
      else if map_of (w_fs w) p = None then (Inl (NotExist p), tick w)
      else if dir_entries (w_fs w) p \<noteq> [] then (Inl (OsError p), tick w)
      else (Inr (), (tick w)\<lparr>w_fs := AList.delete p (w_fs w)\<rparr>))"

text \<open>\<open>os.Rename\<close> moves a file over an absent path or a file, and a directory with all
  that is below it over an absent path; an existing directory is never replaced, and the
  new parent must exist.\<close>

definition rename_fs :: "string \<Rightarrow> string \<Rightarrow> fs \<Rightarrow> fs" where
  "rename_fs a b f =
     List.map (\<lambda>(q, n). if under a q then (b @ drop (length a) q, n) else (q, n))
       (filter (\<lambda>(q, _). \<not> under b q) f)"

definition can_rename :: "fs \<Rightarrow> string \<Rightarrow> string \<Rightarrow> bool" where
  "can_rename f a b \<longleftrightarrow>
     map_of f a \<noteq> None \<and> is_dir f (Dir_of b) \<and> \<not> under a b \<and> \<not> under b a \<and>
     (map_of f b = None \<or> (is_file f a \<and> is_file f b))"

definition os_Rename :: "string \<Rightarrow> string \<Rightarrow> world \<Rightarrow> unit result \<times> world" where
  "os_Rename a b w =
     (if faulty w \<or> \<not> can_rename (w_fs w) a b then (Inl (OsError a), tick w)
      else (Inr (), (tick w)\<lparr>w_fs := rename_fs a b (w_fs w)\<rparr>))"

text \<open>\<open>os.CreateTemp(dir, prefix + "*" + suffix)\<close>: an empty file of mode 0600 that did not
  exist. The call fails when no name is free.\<close>

definition os_CreateTemp :: "string \<Rightarrow> string \<Rightarrow> string \<Rightarrow> world \<Rightarrow> string result \<times> world" where
  "os_CreateTemp d pre suf w =
     (let p = dir_prefix d @ pre @ temp_suffix (w_env w) (w_tick w) @ suf
      in if faulty w \<or> \<not> is_dir (w_fs w) d \<or> map_of (w_fs w) p \<noteq> None
         then (Inl (OsError d), tick w)
         else (Inr p, (tick w)\<lparr>w_fs := AList.update p (FileNode [] 384) (w_fs w)\<rparr>))"

text \<open>\<open>os.Create\<close>: an empty file, made or truncated; a new one has mode 0644 (0666 less the umask 022).\<close>

definition os_Create :: "string \<Rightarrow> world \<Rightarrow> unit result \<times> world" where
  "os_Create p w =
     (case map_of (w_fs w) p of
        Some (FileNode c m) \<Rightarrow>
          if faulty w then (Inl (OsError p), tick w)
          else (Inr (), (tick w)\<lparr>w_fs := AList.update p (FileNode [] m) (w_fs w)\<rparr>)
      | Some DirNode \<Rightarrow> (Inl (OsError p), tick w)
      | None \<Rightarrow>
          if faulty w \<or> \<not> is_dir (w_fs w) (Dir_of p) then (Inl (OsError p), tick w)
          else (Inr (), (tick w)\<lparr>w_fs := AList.update p (FileNode [] 420) (w_fs w)\<rparr>))"

text \<open>Writing text to an open file (one or several \<open>Write\<close> calls), \<open>Sync\<close> and \<open>Close\<close>,
  and changing the mode.\<close>

definition os_Write :: "string \<Rightarrow> string \<Rightarrow> world \<Rightarrow> unit result \<times> world" where
  "os_Write p c w =
     (case map_of (w_fs w) p of
        Some (FileNode c0 m) \<Rightarrow>
          if faulty w then (Inl (OsError p), tick w)
          else (Inr (), (tick w)\<lparr>w_fs := AList.update p (FileNode (c0 @ c) m) (w_fs w)\<rparr>)
      | _ \<Rightarrow> (Inl (OsError p), tick w))"

definition os_Sync :: "string \<Rightarrow> world \<Rightarrow> unit result \<times> world" where
  "os_Sync p w = (if faulty w then Inl (OsError p) else Inr (), tick w)"

definition os_Close :: "string \<Rightarrow> world \<Rightarrow> unit result \<times> world" where
  "os_Close p w = (if faulty w then Inl (OsError p) else Inr (), tick w)"

definition os_Chmod :: "string \<Rightarrow> nat \<Rightarrow> world \<Rightarrow> unit result \<times> world" where
  "os_Chmod p mode w =
     (case map_of (w_fs w) p of
        Some (FileNode c m) \<Rightarrow>
          if faulty w then (Inl (OsError p), tick w)
          else (Inr (), (tick w)\<lparr>w_fs := AList.update p (FileNode c mode) (w_fs w)\<rparr>)
      | Some DirNode \<Rightarrow> (if faulty w then Inl (OsError p) else Inr (), tick w)
      | None \<Rightarrow> (Inl (NotExist p), tick w))"

end
