(* ===== verification/Config.thy ===== *)
theory Config
  imports Os_World
begin

text \<open>
  \<open>internal/engine/config.go\<close>, first part: the configuration structures, the defaults,
  the exclude lists, the backup targets and \<open>Validate\<close>. A pointer to a slice is an
  \<open>option\<close> of a list; a \<open>float64\<close> is a dyadic number or one of the special values;
  \<open>Servers\<close> is an association list in one of the iteration orders of the Go map.

  Conversions of the standard library that depend on floating-point rounding, on the
  duration syntax or on address parsing are the functions of the record \<open>golib\<close>, an
  argument of the definitions that use them.
\<close>

section \<open>Data\<close>

datatype float64 = NaN | PosInf | NegInf | Finite int int

text \<open>\<open>Finite m e\<close> is \<open>m * 2 ^ e\<close>.\<close>

record golib =
  ParseDuration :: "string \<Rightarrow> int option"
  DurationString :: "int \<Rightarrow> string"
  ParseFloat :: "string \<Rightarrow> float64 option"
  FormatFloat1 :: "float64 \<Rightarrow> string"
  LoopbackIP :: "string \<Rightarrow> bool"

record GlobalConfig =
  ListenAddr :: string
  BackupInterval :: int
  InitialDelay :: int
  TransferDelay :: int
  MaxMBps :: float64
  APIToken :: string
  GlobalExcludes :: "string list option"

record NASConfig =
  SSHUser :: string
  SSHHost :: string
  SSHPort :: int
  SSHKey :: string
  NASDestRoot :: string

record LocalConfig =
  LocalDestRoot :: string
  HotRoot :: string

record RetentionConfig =
  PruneDays :: int
  PruneCount :: int
  HotPruneDays :: int
  HotPruneCount :: int

record WatchConfig =
  Path :: string
  Namespace :: string

record ServerConfig =
  Enabled :: bool
  Target :: string
  ContainerName :: string
  RconPassword :: string
  DataDir :: string
  PauseIfNoPlayers :: bool
  ServerExcludes :: "string list option"

record Config =
  Global :: GlobalConfig
  Local :: LocalConfig
  NAS :: NASConfig
  Retention :: RetentionConfig
  Watch :: "WatchConfig list"
  Servers :: "(string \<times> ServerConfig) list"

definition zero_ServerConfig :: ServerConfig where
  "zero_ServerConfig = \<lparr>Enabled = False, Target = [], ContainerName = [], RconPassword = [],
     DataDir = [], PauseIfNoPlayers = False, ServerExcludes = None\<rparr>"

definition backupDir :: "WatchConfig \<Rightarrow> string \<Rightarrow> string" where
  "backupDir w serverName = path_join [Path w, serverName, ''backups'']"

section \<open>Defaults\<close>

definition DefaultExcludes :: "string list" where
  "DefaultExcludes = [''*.jar'', ''cache'', ''logs'', ''*.tmp'']"

definition DefaultConfig :: Config where
  "DefaultConfig = \<lparr>
     Global = \<lparr>ListenAddr = ''127.0.0.1:47990'', BackupInterval = 24 * nanos_per_hour,
       InitialDelay = 2 * nanos_per_minute, TransferDelay = 0, MaxMBps = Finite 40 0,
       APIToken = [], GlobalExcludes = None\<rparr>,
     Local = \<lparr>LocalDestRoot = [], HotRoot = []\<rparr>,
     NAS = \<lparr>SSHUser = [], SSHHost = [], SSHPort = 22,
       SSHKey = ''/etc/mc-backup/ssh/keys/id_ed25519'', NASDestRoot = []\<rparr>,
     Retention = \<lparr>PruneDays = 7, PruneCount = 0, HotPruneDays = 0, HotPruneCount = 2\<rparr>,
     Watch = [],
     Servers = []\<rparr>"

section \<open>Exclude lists\<close>

definition ResolveGlobalExcludes :: "Config \<Rightarrow> string list" where
  "ResolveGlobalExcludes c =
     (case GlobalExcludes (Global c) of Some ex \<Rightarrow> ex | None \<Rightarrow> DefaultExcludes)"

definition is_additive :: "string \<Rightarrow> bool" where
  "is_additive item = (let trimmed = TrimSpace item in trimmed = ''+'' \<or> HasPrefix trimmed ''+'')"

definition strip_additive :: "string \<Rightarrow> string" where
  "strip_additive item = TrimSpace (TrimPrefix (TrimSpace item) ''+'')"

definition ResolveServerExcludes :: "Config \<Rightarrow> ServerConfig \<Rightarrow> string list" where
  "ResolveServerExcludes c server =
     (case ServerExcludes server of
        Some ex \<Rightarrow>
          if list_ex is_additive ex
          then ResolveGlobalExcludes c @ filter (\<lambda>t. t \<noteq> []) (List.map strip_additive ex)
          else ex
      | None \<Rightarrow> ResolveGlobalExcludes c)"

definition parseExcludesValue :: "string \<Rightarrow> string list option" where
  "parseExcludesValue val =
     (let trimmed = TrimSpace val
      in if EqualFold trimmed ''inherit'' \<or> EqualFold trimmed ''default'' then None
         else if trimmed = [] \<or> EqualFold trimmed ''none'' then Some []
         else Some (filter (\<lambda>p. p \<noteq> []) (List.map TrimSpace (Split val (CHR '','')))))"

section \<open>Backup targets\<close>

definition normalizeTarget :: "string \<Rightarrow> string" where
  "normalizeTarget t =
     (let trimmed = ToLower (TrimSpace t)
      in if trimmed = ''tiered'' \<or> trimmed = ''two-tier'' then ''tiered-nas'' else trimmed)"

definition normalizeDestRoot :: "string \<Rightarrow> string" where
  "normalizeDestRoot root =
     (let trimmed = TrimRightBy (\<lambda>c. c = CHR ''/'') root
      in if trimmed = [] \<and> root \<noteq> [] then ''/'' else trimmed)"

text \<open>The settings a target needs, in the order the code checks them: each with its key.\<close>

definition target_requirements :: "string \<Rightarrow> LocalConfig \<Rightarrow> NASConfig \<Rightarrow> (string \<times> string) list" where
  "target_requirements target l n =
     (if target = ''local'' then [(''local.dest_root'', LocalDestRoot l)]
      else if target = ''nas'' then
        [(''nas.ssh_host'', SSHHost n), (''nas.ssh_user'', SSHUser n), (''nas.dest_root'', NASDestRoot n)]
      else if target = ''tiered-local'' then
        [(''local.hot_root'', HotRoot l), (''local.dest_root'', LocalDestRoot l)]
      else if target = ''tiered-nas'' then
        [(''local.hot_root'', HotRoot l), (''nas.ssh_host'', SSHHost n),
         (''nas.ssh_user'', SSHUser n), (''nas.dest_root'', NASDestRoot n)]
      else [])"

definition valid_targets :: "string list" where
  "valid_targets = [''local'', ''nas'', ''tiered-local'', ''tiered-nas'']"

definition resolveBackupTarget :: "string \<Rightarrow> ServerConfig \<Rightarrow> LocalConfig \<Rightarrow> NASConfig \<Rightarrow> string result" where
  "resolveBackupTarget serverName server l n =
     (let t0 = normalizeTarget (Target server); target = (if t0 = [] then ''nas'' else t0)
      in if target \<notin> set valid_targets
         then Inl (Errorf ''server %q has invalid backup target %q'' [serverName, Target server])
         else (let missing = List.map fst (filter (\<lambda>(_, v). TrimSpace v = [])
                                             (target_requirements target l n))
               in if missing \<noteq> []
                  then Inl (Errorf ''server %q target %q requires %s''
                              [serverName, target, Join missing '', ''])
                  else Inr target))"

section \<open>Validation\<close>

text \<open>\<open>net.SplitHostPort\<close>; \<^term>\<open>None\<close> is any of its errors.\<close>

definition SplitHostPort :: "string \<Rightarrow> (string \<times> string) option" where
  "SplitHostPort hp =
     (if CHR '':'' \<notin> set hp then None
      else
        (let port = rev (takeWhile (\<lambda>c. c \<noteq> CHR '':'') (rev hp));
             i = length hp - length port - 1
         in if hd hp = CHR ''['' then
              (let host = takeWhile (\<lambda>c. c \<noteq> CHR '']'') (tl hp); e = Suc (length host)
               in if CHR '']'' \<notin> set hp \<or> e + 1 \<noteq> i then None
                  else if CHR ''['' \<in> set (tl hp) \<or> CHR '']'' \<in> set (drop (e + 1) hp) then None
                  else Some (host, port))
            else
              (let host = take i hp
               in if CHR '':'' \<in> set host \<or> CHR ''['' \<in> set hp \<or> CHR '']'' \<in> set hp then None
                  else Some (host, port))))"

definition isLoopbackHost :: "golib \<Rightarrow> string \<Rightarrow> bool" where
  "isLoopbackHost gl host \<longleftrightarrow> EqualFold host ''localhost'' \<or> LoopbackIP gl host"

fun float_negative :: "float64 \<Rightarrow> bool" where
  "float_negative NaN = False"
| "float_negative PosInf = False"
| "float_negative NegInf = True"
| "float_negative (Finite m e) = (m < 0)"

definition bad_rate :: "float64 \<Rightarrow> bool" where
  "bad_rate f \<longleftrightarrow> f = NaN \<or> f = PosInf \<or> f = NegInf \<or> float_negative f"

fun validate_servers :: "(string \<times> ServerConfig) list \<Rightarrow> LocalConfig \<Rightarrow> NASConfig \<Rightarrow> unit result" where
  "validate_servers [] l n = Inr ()"
| "validate_servers ((name, s) # rest) l n =
     (if \<not> Enabled s then validate_servers rest l n
      else (case resolveBackupTarget name s l n of
              Inl e \<Rightarrow> Inl (Wrapf ''invalid config'' e)
            | Inr _ \<Rightarrow> validate_servers rest l n))"

definition Validate :: "golib \<Rightarrow> Config \<Rightarrow> unit result" where
  "Validate gl c =
     (let g = Global c; r = Retention c
      in if ListenAddr g = [] then Inl (Errorf ''invalid config: global.listen_addr is required'' [])
         else if bad_rate (MaxMBps g)
         then Inl (Errorf ''invalid config: global.max_mbps must be a non-negative finite number'' [])
         else if BackupInterval g \<le> 0
         then Inl (Errorf ''invalid config: global.backup_interval must be greater than 0'' [])
         else if InitialDelay g < 0
         then Inl (Errorf ''invalid config: global.initial_delay must be non-negative'' [])
         else if TransferDelay g < 0
         then Inl (Errorf ''invalid config: global.transfer_delay must be non-negative'' [])
         else if HotPruneCount r < 0
         then Inl (Errorf ''invalid config: retention.hot_prune_count must be non-negative'' [])
         else if HotPruneDays r < 0
         then Inl (Errorf ''invalid config: retention.hot_prune_days must be non-negative'' [])
         else (case SplitHostPort (ListenAddr g) of
             None \<Rightarrow> Inl (Errorf ''invalid config: malformed global.listen_addr %q'' [ListenAddr g])
           | Some (host, portStr) \<Rightarrow>
               (case Atoi portStr of
                  None \<Rightarrow> Inl (Errorf ''invalid config: invalid port in global.listen_addr %q'' [ListenAddr g])
                | Some port \<Rightarrow>
                    if port \<le> 0 \<or> 65535 < port
                    then Inl (Errorf ''invalid config: invalid port in global.listen_addr %q'' [ListenAddr g])
                    else if \<not> isLoopbackHost gl host \<and> APIToken g = []
                    then Inl (Errorf ''invalid config: non-loopback global.listen_addr %q requires global.api_token to be set'' [ListenAddr g])
                    else validate_servers (Servers c) (Local c) (NAS c))))"

section \<open>What the targets and \<open>Validate\<close> promise\<close>

text \<open>A setting is present when it holds something else than white space.\<close>

definition present :: "string \<Rightarrow> bool" where
  "present v \<longleftrightarrow> \<not> list_all is_space v"

definition effective_target :: "string \<Rightarrow> string" where
  "effective_target raw = (let t = normalizeTarget raw in if t = [] then ''nas'' else t)"

definition needs_hot :: "string \<Rightarrow> bool" where
  "needs_hot t \<longleftrightarrow> t = ''tiered-local'' \<or> t = ''tiered-nas''"

definition needs_local :: "string \<Rightarrow> bool" where
  "needs_local t \<longleftrightarrow> t = ''local'' \<or> t = ''tiered-local''"

definition needs_nas :: "string \<Rightarrow> bool" where
  "needs_nas t \<longleftrightarrow> t = ''nas'' \<or> t = ''tiered-nas''"

definition target_ready :: "string \<Rightarrow> LocalConfig \<Rightarrow> NASConfig \<Rightarrow> bool" where
  "target_ready t l n \<longleftrightarrow>
     (needs_hot t \<longrightarrow> present (HotRoot l)) \<and>
     (needs_local t \<longrightarrow> present (LocalDestRoot l)) \<and>
     (needs_nas t \<longrightarrow> present (SSHHost n) \<and> present (SSHUser n) \<and> present (NASDestRoot n))"

text \<open>The listen address is a host and a port in range, and a token protects a host that is
  not the loopback interface.\<close>

definition address_ok :: "golib \<Rightarrow> GlobalConfig \<Rightarrow> bool" where
  "address_ok gl g \<longleftrightarrow>
     (\<exists>host port p. SplitHostPort (ListenAddr g) = Some (host, port) \<and> Atoi port = Some p \<and>
        1 \<le> p \<and> p \<le> 65535 \<and> (isLoopbackHost gl host \<or> APIToken g \<noteq> []))"

definition valid_config :: "golib \<Rightarrow> Config \<Rightarrow> bool" where
  "valid_config gl c \<longleftrightarrow>
     \<not> bad_rate (MaxMBps (Global c)) \<and> 0 < BackupInterval (Global c) \<and>
     0 \<le> InitialDelay (Global c) \<and> 0 \<le> TransferDelay (Global c) \<and>
     0 \<le> HotPruneCount (Retention c) \<and> 0 \<le> HotPruneDays (Retention c) \<and>
     address_ok gl (Global c) \<and>
     (\<forall>(name, s) \<in> set (Servers c). Enabled s \<longrightarrow>
        effective_target (Target s) \<in> set valid_targets \<and>
        target_ready (effective_target (Target s)) (Local c) (NAS c))"

lemma TrimSpace_eq_Nil [simp]: "TrimSpace v = [] \<longleftrightarrow> \<not> present v"
proof -
  let ?d = "dropWhile is_space v"
  have "TrimSpace v = [] \<longleftrightarrow> (\<forall>c \<in> set ?d. is_space c)"
    unfolding TrimSpace_def TrimRightBy_def TrimLeftSpace_def rev_is_Nil_conv
      dropWhile_eq_Nil_conv set_rev ..
  also have "\<dots> \<longleftrightarrow> ?d = []"
  proof
    assume all: "\<forall>c \<in> set ?d. is_space c"
    show "?d = []"
    proof (rule ccontr)
      assume ne: "?d \<noteq> []"
      then have "is_space (hd ?d)" using all list.set_sel(1) by blast
      with hd_dropWhile [OF ne] show False ..
    qed
  qed simp
  also have "\<dots> \<longleftrightarrow> \<not> present v"
    by (simp only: present_def list_all_iff dropWhile_eq_Nil_conv not_not)
  finally show ?thesis .
qed

lemma missing_Nil_iff:
  assumes "t \<in> set valid_targets"
  shows "filter (\<lambda>(_, v). TrimSpace v = []) (target_requirements t l n) = [] \<longleftrightarrow> target_ready t l n"
proof -
  consider "t = ''local''" | "t = ''nas''" | "t = ''tiered-local''" | "t = ''tiered-nas''"
    using assms by (auto simp: valid_targets_def)
  then show ?thesis
    by cases (simp_all add: target_requirements_def target_ready_def needs_hot_def needs_local_def
        needs_nas_def)
qed

lemma two_guards_Inr:
  "(if a then Inl e else if b then Inl f else Inr x) = Inr t \<longleftrightarrow> \<not> a \<and> \<not> b \<and> t = x"
  by auto

lemma resolveBackupTarget_Inr:
  "resolveBackupTarget name s l n = Inr t \<longleftrightarrow>
     t = effective_target (Target s) \<and> t \<in> set valid_targets \<and> target_ready t l n"
proof -
  define t1 where "t1 = effective_target (Target s)"
  have "resolveBackupTarget name s l n = Inr t \<longleftrightarrow> t1 \<in> set valid_targets \<and>
      filter (\<lambda>(_, v). TrimSpace v = []) (target_requirements t1 l n) = [] \<and> t = t1"
    unfolding resolveBackupTarget_def Let_def t1_def effective_target_def two_guards_Inr by simp
  then show ?thesis using missing_Nil_iff [of t1 l n] unfolding t1_def by blast
qed

lemma resolveBackupTarget_ok:
  "is_ok (resolveBackupTarget name s l n) \<longleftrightarrow>
     effective_target (Target s) \<in> set valid_targets \<and> target_ready (effective_target (Target s)) l n"
  by (auto simp: is_ok_iff resolveBackupTarget_Inr)

lemma validate_servers_iff:
  "validate_servers ss l n = Inr () \<longleftrightarrow>
     (\<forall>(name, s) \<in> set ss. Enabled s \<longrightarrow> is_ok (resolveBackupTarget name s l n))"
  by (induction ss l n rule: validate_servers.induct) (auto simp: is_ok_def split: sum.splits)

lemma guard_Inr: "(if a then Inl e else r) = Inr x \<longleftrightarrow> \<not> a \<and> r = Inr x"
  by simp

section \<open>Properties\<close>

text \<open>C12: the resolved target is the normalised one (\<open>nas\<close> when none is given); it is resolved
  exactly if it is one of the four targets and every destination setting that target needs is
  present: the hot root for the tiered ones, the local root for those that end locally, and host,
  user and root of the NAS for those that end there.\<close>

theorem resolveBackupTarget_iff:
  "resolveBackupTarget name s l n = Inr t \<longleftrightarrow>
     t = effective_target (Target s) \<and> t \<in> {''local'', ''nas'', ''tiered-local'', ''tiered-nas''} \<and>
     target_ready t l n"
  using resolveBackupTarget_Inr [of name s l n t] by (simp add: valid_targets_def)

lemma Validate_spec: "Validate gl c = Inr () \<longleftrightarrow> valid_config gl c"
proof -
  have sp: "SplitHostPort [] = None" by (simp add: SplitHostPort_def)
  have addr: "(case SplitHostPort (ListenAddr (Global c)) of None \<Rightarrow> Inl e1
      | Some (host, portStr) \<Rightarrow> (case Atoi portStr of None \<Rightarrow> Inl e2
        | Some port \<Rightarrow> if port \<le> 0 \<or> 65535 < port then Inl e3
            else if \<not> isLoopbackHost gl host \<and> APIToken (Global c) = [] then Inl e4 else r)) = Inr ()
     \<longleftrightarrow> address_ok gl (Global c) \<and> r = Inr ()" for e1 e2 e3 e4 and r :: "unit result"
    unfolding address_ok_def by (auto split: option.splits if_splits)
  have "Validate gl c = Inr () \<longleftrightarrow>
     ListenAddr (Global c) \<noteq> [] \<and>
     \<not> bad_rate (MaxMBps (Global c)) \<and> 0 < BackupInterval (Global c) \<and>
     0 \<le> InitialDelay (Global c) \<and> 0 \<le> TransferDelay (Global c) \<and>
     0 \<le> HotPruneCount (Retention c) \<and> 0 \<le> HotPruneDays (Retention c) \<and>
     address_ok gl (Global c) \<and> validate_servers (Servers c) (Local c) (NAS c) = Inr ()"
    unfolding Validate_def Let_def guard_Inr addr by (simp only: not_less not_le)
  moreover have "address_ok gl (Global c) \<Longrightarrow> ListenAddr (Global c) \<noteq> []"
    by (auto simp: address_ok_def sp)
  ultimately show ?thesis
    unfolding valid_config_def validate_servers_iff resolveBackupTarget_ok by blast
qed

text \<open>C13: \<open>Validate\<close> accepts exactly the configurations in which the rate is a finite
  non-negative number, the interval is positive, the delays and the hot retention are not
  negative, the listen address is well formed and protected by a token unless it is a loopback
  address, and every enabled server has a usable target. In particular the verdict does not
  depend on the iteration order of the server map, and disabled servers play no part.\<close>

theorem Validate_iff: "Validate gl c = Inr () \<longleftrightarrow> valid_config gl c"
  by (rule Validate_spec)

text \<open>The built-in default configuration, written when no file exists, is accepted on any
  system that takes 127.0.0.1 for a loopback address.\<close>

lemma DefaultConfig_valid:
  assumes "LoopbackIP gl ''127.0.0.1''"
  shows "Validate gl DefaultConfig = Inr ()"
proof -
  have sp: "SplitHostPort ''127.0.0.1:47990'' = Some (''127.0.0.1'', ''47990'')"
    by (simp add: SplitHostPort_def)
  have port: "Atoi ''47990'' = Some 47990"
    by (simp add: ParseInt_eval)
  have l: "ListenAddr (Global DefaultConfig) = ''127.0.0.1:47990''"
    by (simp only: DefaultConfig_def Config.simps GlobalConfig.simps)
  have "isLoopbackHost gl ''127.0.0.1''" using assms by (simp add: isLoopbackHost_def)
  then have "address_ok gl (Global DefaultConfig)"
    unfolding address_ok_def l using sp port
    by (intro exI [of _ "''127.0.0.1''"] exI [of _ "''47990''"] exI [of _ 47990] conjI disjI1) simp_all
  moreover have "\<not> bad_rate (MaxMBps (Global DefaultConfig))"
    "0 < BackupInterval (Global DefaultConfig)" "0 \<le> InitialDelay (Global DefaultConfig)"
    "0 \<le> TransferDelay (Global DefaultConfig)" "0 \<le> HotPruneCount (Retention DefaultConfig)"
    "0 \<le> HotPruneDays (Retention DefaultConfig)" "Servers DefaultConfig = []"
    by (simp_all add: DefaultConfig_def bad_rate_def nanos_per_hour_def nanos_per_minute_def)
  ultimately show ?thesis
    unfolding Validate_spec valid_config_def by simp
qed

text \<open>A stand-in for the library on which the witnesses run: it takes no string for a number
  and only 127.0.0.1 for a loopback address.\<close>

definition small_golib :: golib where
  "small_golib = \<lparr>ParseDuration = (\<lambda>_. None), DurationString = show_int,
     ParseFloat = (\<lambda>_. None), FormatFloat1 = (\<lambda>_. ''0.0''),
     LoopbackIP = (\<lambda>h. h = ''127.0.0.1'')\<rparr>"

end
