(* ===== verification/Shell_Quote.thy ===== *)
theory Shell_Quote
  imports Config
begin

text \<open>
  \<open>internal/engine/shell.go\<close> and the command lines built from it: \<open>shellQuote\<close> and the
  remote commands of \<open>backup.go\<close>, \<open>prune.go\<close> and \<open>daemon.go\<close> that are sent to the NAS
  by \<open>ssh\<close>. Their correctness is stated against a reader of POSIX shell words: the way
  the shell of the NAS splits a simple command, with single quotes and backslashes.
\<close>

section \<open>The commands\<close>

definition squote :: char where "squote = CHR 0x27"
definition bslash :: char where "bslash = CHR 0x5C"

text \<open>Every single quote is replaced by: close the quote, an escaped quote, reopen.\<close>

definition shellQuote :: "string \<Rightarrow> string" where
  "shellQuote s = [squote] @ ReplaceAll s squote [squote, bslash, squote, squote] @ [squote]"

definition nasReadyCommand :: "NASConfig \<Rightarrow> string" where
  "nasReadyCommand nas = ''test -f '' @ shellQuote (NASDestRoot nas @ ''/.nas-ready'')"

definition nasMkdirCommand :: "string \<Rightarrow> string" where
  "nasMkdirCommand path = ''mkdir -p '' @ shellQuote path"

definition nasRemoveDirCommand :: "string \<Rightarrow> string" where
  "nasRemoveDirCommand path = ''rm -rf -- '' @ shellQuote path"

definition nasRenameCommand :: "string \<Rightarrow> string \<Rightarrow> string" where
  "nasRenameCommand a b = ''mv -- '' @ shellQuote a @ '' '' @ shellQuote b"

definition stamp_glob :: string where
  "stamp_glob = ''[0-9][0-9][0-9][0-9][0-9][0-9][0-9][0-9]-[0-9][0-9][0-9][0-9]''"

definition server_dir :: "string \<Rightarrow> string \<Rightarrow> string \<Rightarrow> string" where
  "server_dir destRoot namespace serverName = destRoot @ ''/'' @ namespace @ ''/'' @ serverName"

definition pruneNASByDaysCommand :: "string \<Rightarrow> string \<Rightarrow> string \<Rightarrow> int \<Rightarrow> string" where
  "pruneNASByDaysCommand destRoot namespace serverName days =
     ''find '' @ shellQuote (server_dir destRoot namespace serverName)
       @ '' -mindepth 1 -maxdepth 1 -type d -name '' @ [squote] @ stamp_glob @ [squote]
       @ '' -mtime +'' @ show_int days @ '' -exec rm -rf {} +''"

definition count_glob :: string where
  "count_glob = ''[0-9]*-[0-9]*''"

definition pruneNASByCountCommand :: "string \<Rightarrow> string \<Rightarrow> string \<Rightarrow> int \<Rightarrow> string" where
  "pruneNASByCountCommand destRoot namespace serverName keep =
     ''ls -dt '' @ shellQuote (server_dir destRoot namespace serverName) @ ''/'' @ count_glob
       @ '' 2>/dev/null | tail -n +'' @ show_int (wrap64 (keep + 1)) @ '' | tr ''
       @ [squote, bslash, CHR ''n'', squote] @ '' '' @ [squote, bslash, CHR ''0'', squote]
       @ '' | xargs -0 -r rm -rf --''"

definition latestNASSnapshotCommand :: "string \<Rightarrow> string" where
  "latestNASSnapshotCommand nasDir =
     ''ls -dt '' @ shellQuote nasDir @ ''/'' @ stamp_glob @ '' 2>/dev/null | head -1''"

section \<open>Shell words\<close>

text \<open>
  The reader: outside quotes a blank ends a word, a backslash takes the next byte
  literally, and an operator or expansion character is not part of a simple command
  (\<^term>\<open>None\<close>); inside single quotes every byte up to the next quote is literal. The
  arguments are the word read so far (\<^term>\<open>None\<close> between words) and the rest.
\<close>

definition shell_meta :: "char \<Rightarrow> bool" where
  "shell_meta c \<longleftrightarrow> c \<in> set ''|&;<>()$*?[#~=%!'' \<or> c = CHR 0x60 \<or> c = CHR 0x22 \<or> c = CHR 0x0A"

definition shell_blank :: "char \<Rightarrow> bool" where
  "shell_blank c \<longleftrightarrow> c = CHR '' '' \<or> c = CHR 0x09"

definition add_char :: "string option \<Rightarrow> char \<Rightarrow> string option" where
  "add_char w c = Some ((case w of None \<Rightarrow> [] | Some u \<Rightarrow> u) @ [c])"

definition open_word :: "string option \<Rightarrow> string option" where
  "open_word w = Some (case w of None \<Rightarrow> [] | Some u \<Rightarrow> u)"

definition end_word :: "string option \<Rightarrow> string list \<Rightarrow> string list" where
  "end_word w ws = (case w of None \<Rightarrow> ws | Some u \<Rightarrow> u # ws)"

fun sh_plain :: "string option \<Rightarrow> string \<Rightarrow> string list option"
  and sh_quoted :: "string option \<Rightarrow> string \<Rightarrow> string list option" where
  "sh_plain w [] = Some (end_word w [])"
| "sh_plain w (c # cs) =
     (if c = squote then sh_quoted (open_word w) cs
      else if c = bslash then
        (case cs of [] \<Rightarrow> None | d # ds \<Rightarrow> sh_plain (add_char w d) ds)
      else if shell_blank c then map_option (end_word w) (sh_plain None cs)
      else if shell_meta c then None
      else sh_plain (add_char w c) cs)"
| "sh_quoted w [] = None"
| "sh_quoted w (c # cs) =
     (if c = squote then sh_plain w cs else sh_quoted (add_char w c) cs)"

definition sh_words :: "string \<Rightarrow> string list option" where
  "sh_words s = sh_plain None s"

definition plain_char :: "char \<Rightarrow> bool" where
  "plain_char c \<longleftrightarrow> c \<noteq> squote \<and> c \<noteq> bslash \<and> \<not> shell_blank c \<and> \<not> shell_meta c"

lemma squote_neq_bslash [simp]: "squote \<noteq> bslash" "bslash \<noteq> squote"
  by (simp_all add: squote_def bslash_def)

lemma blank_facts [simp]: "CHR '' '' \<noteq> squote" "CHR '' '' \<noteq> bslash" "shell_blank (CHR '' '')"
  by (simp_all add: squote_def bslash_def shell_blank_def)

lemma sh_quoted_escaped:
  "sh_quoted (Some u) (ReplaceAll s squote [squote, bslash, squote, squote] @ squote # rest)
     = sh_plain (Some (u @ s)) rest"
  by (induction s arbitrary: u) (simp_all add: ReplaceAll_def add_char_def open_word_def)

lemma sh_plain_shellQuote:
  "sh_plain w (shellQuote s @ rest) = sh_plain (Some ((case w of None \<Rightarrow> [] | Some u \<Rightarrow> u) @ s)) rest"
  by (simp add: shellQuote_def open_word_def sh_quoted_escaped)

lemma sh_plain_chars:
  "list_all plain_char s \<Longrightarrow>
     sh_plain (Some u) (s @ rest) = sh_plain (Some (u @ s)) rest"
  by (induction s arbitrary: u) (simp_all add: plain_char_def add_char_def)

lemma sh_plain_word:
  "list_all plain_char s \<Longrightarrow> s \<noteq> [] \<Longrightarrow> sh_plain None (s @ rest) = sh_plain (Some s) rest"
  using sh_plain_chars [of "tl s" "[hd s]" rest]
  by (cases s) (simp_all add: plain_char_def add_char_def)

lemma sh_plain_blank: "sh_plain w (CHR '' '' # rest) = map_option (end_word w) (sh_plain None rest)"
  by (simp add: squote_def bslash_def shell_blank_def)

lemma plain_show_int: "list_all plain_char (show_int i)"
proof -
  have "plain_char c" if "is_digit c \<or> c = CHR ''-''" for c
    using that
    by (auto simp: plain_char_def squote_def bslash_def shell_blank_def shell_meta_def is_digit_def)
  then show ?thesis using show_int_chars by (auto simp: list_all_iff)
qed

text \<open>A whole command: plain words and quoted arguments separated by single blanks.\<close>

datatype sh_arg = PlainArg string | QuotedArg string

fun arg_text :: "sh_arg \<Rightarrow> string" where
  "arg_text (PlainArg s) = s"
| "arg_text (QuotedArg s) = shellQuote s"

fun arg_word :: "sh_arg \<Rightarrow> string" where
  "arg_word (PlainArg s) = s"
| "arg_word (QuotedArg s) = s"

fun arg_ok :: "sh_arg \<Rightarrow> bool" where
  "arg_ok (PlainArg s) = (s \<noteq> [] \<and> list_all plain_char s)"
| "arg_ok (QuotedArg s) = True"

lemma sh_plain_arg:
  "arg_ok a \<Longrightarrow> sh_plain None (arg_text a @ rest) = sh_plain (Some (arg_word a)) rest"
  by (cases a) (simp_all add: sh_plain_word sh_plain_shellQuote)

lemma sh_words_args:
  "list_all arg_ok as \<Longrightarrow> sh_words (Join (List.map arg_text as) '' '') = Some (List.map arg_word as)"
proof -
  have "list_all arg_ok as \<Longrightarrow> as \<noteq> [] \<Longrightarrow>
      sh_plain None (Join (List.map arg_text as) '' '') = Some (List.map arg_word as)"
  proof (induction as)
    case Nil
    then show ?case by simp
  next
    case (Cons a as)
    show ?case
    proof (cases "as = []")
      case True
      with Cons.prems sh_plain_arg [of a "[]"] show ?thesis by (simp add: end_word_def)
    next
      case False
      with Cons have "sh_plain None (Join (List.map arg_text as) '' '') = Some (List.map arg_word as)"
        by simp
      then show ?thesis
        using Cons.prems False sh_plain_arg [of a "CHR '' '' # Join (List.map arg_text as) '' ''"]
        by (simp add: Join_Cons sh_plain_blank end_word_def)
    qed
  qed
  then show "list_all arg_ok as \<Longrightarrow> sh_words (Join (List.map arg_text as) '' '') = Some (List.map arg_word as)"
    by (cases "as = []") (simp_all add: sh_words_def end_word_def)
qed

interpretation quoting: codec shellQuote
    "\<lambda>t. case sh_words t of Some [w] \<Rightarrow> Some w | _ \<Rightarrow> None" "\<lambda>_. True"
proof
  fix x
  show "(case sh_words (shellQuote x) of Some [w] \<Rightarrow> Some w | _ \<Rightarrow> None) = Some x"
    using sh_words_args [of "[QuotedArg x]"] by simp
qed

lemma find_args:
  "pruneNASByDaysCommand d n s days = Join (List.map arg_text
     [PlainArg ''find'', QuotedArg (server_dir d n s), PlainArg ''-mindepth'', PlainArg ''1'',
      PlainArg ''-maxdepth'', PlainArg ''1'', PlainArg ''-type'', PlainArg ''d'', PlainArg ''-name'',
      QuotedArg stamp_glob, PlainArg ''-mtime'', PlainArg (CHR ''+'' # show_int days),
      PlainArg ''-exec'', PlainArg ''rm'', PlainArg ''-rf'', PlainArg ''{}'', PlainArg ''+'']) '' ''"
  by (simp add: pruneNASByDaysCommand_def shellQuote_def stamp_glob_def ReplaceAll_def squote_def)

section \<open>Properties\<close>


end
