(* ===== verification/Snapshot.thy ===== *)
theory Snapshot
  imports Shell_Quote
begin

text \<open>
  Snapshot directories: \<open>isBackupDir\<close> of \<open>backup.go\<close>, \<open>snapshotTime\<close> of \<open>daemon.go\<close>, the
  search for the newest snapshot that \<open>daemon.go\<close> repeats in \<open>discoverSnapshots\<close> and in
  \<open>processOffloadJob\<close>, and what the patterns of the remote commands select. The program
  compares snapshot names as strings; the order of the names is the order of the times.
\<close>

section \<open>Names\<close>

text \<open>\<open>range name\<close> walks over runes; a name with a byte outside ASCII is refused either way.\<close>

definition isBackupDir :: "string \<Rightarrow> bool" where
  "isBackupDir name \<longleftrightarrow>
     length name = 13 \<and> name ! 8 = CHR ''-'' \<and>
     list_all (\<lambda>i. i = 8 \<or> is_digit (name ! i)) [0..<13]"

text \<open>\<open>snapshotTime\<close>; \<^term>\<open>None\<close> is the zero time.\<close>

definition snapshotTime :: "location \<Rightarrow> string \<Rightarrow> int option" where
  "snapshotTime l path =
     (let name = Base path
      in if length name \<noteq> 13 \<or> name ! 8 \<noteq> CHR ''-'' then None
         else map_option (of_civil l) (parse_stamp name))"

text \<open>The loop \<open>if e.IsDir() && isBackupDir(e.Name()) && e.Name() > latest\<close>.\<close>

fun latest_from :: "string \<Rightarrow> (string \<times> bool) list \<Rightarrow> string" where
  "latest_from latest [] = latest"
| "latest_from latest ((n, d) # es) =
     latest_from (if d \<and> isBackupDir n \<and> latest < n then n else latest) es"

definition latest_snapshot :: "(string \<times> bool) list \<Rightarrow> string" where
  "latest_snapshot es = latest_from [] es"

definition snapshot_names :: "(string \<times> bool) list \<Rightarrow> string list" where
  "snapshot_names es = List.map fst (filter (\<lambda>(n, d). d \<and> isBackupDir n) es)"

section \<open>Patterns\<close>

text \<open>File name patterns as the shell and \<open>find -name\<close> read them: a bracket with a range, a
  star, and literal bytes.\<close>

fun glob :: "string \<Rightarrow> string \<Rightarrow> bool" where
  "glob [] s = (s = [])"
| "glob (c # p) s =
     (if c = CHR ''*'' then glob p s \<or> (case s of [] \<Rightarrow> False | _ # t \<Rightarrow> glob (c # p) t)
      else (case s of
          [] \<Rightarrow> False
        | x # t \<Rightarrow>
            if c = CHR ''['' \<and> 4 \<le> length p \<and> p ! 1 = CHR ''-'' \<and> p ! 3 = CHR '']''
            then p ! 0 \<le> x \<and> x \<le> p ! 2 \<and> glob (drop 4 p) t
            else c = x \<and> glob p t))"

declare glob.simps [simp del]

lemma glob_Nil [simp]: "glob [] s \<longleftrightarrow> s = []"
  by (simp add: glob.simps)

lemma char_digit_range: "CHR ''0'' \<le> x \<and> x \<le> CHR ''9'' \<longleftrightarrow> is_digit x"
  by (simp add: less_eq_char_def is_digit_def)

lemma glob_digit [simp]:
  "glob (''[0-9]'' @ p) s \<longleftrightarrow> (\<exists>x t. s = x # t \<and> is_digit x \<and> glob p t)"
  using char_digit_range by (cases s) (auto simp: glob.simps)

lemma glob_star: "glob (CHR ''*'' # p) s \<longleftrightarrow> (\<exists>a b. s = a @ b \<and> glob p b)"
proof (induction s)
  case Nil
  show ?case by (simp add: glob.simps)
next
  case (Cons x s)
  have "glob (CHR ''*'' # p) (x # s) \<longleftrightarrow> glob p (x # s) \<or> (\<exists>a b. s = a @ b \<and> glob p b)"
    by (subst glob.simps) (simp add: Cons.IH)
  also have "\<dots> \<longleftrightarrow> (\<exists>a b. x # s = a @ b \<and> glob p b)"
    by (metis Cons_eq_append_conv append_Nil)
  finally show ?case .
qed

lemma glob_dash [simp]: "glob (CHR ''-'' # p) s \<longleftrightarrow> (\<exists>t. s = CHR ''-'' # t \<and> glob p t)"
  by (cases s) (auto simp: glob.simps)

lemma isBackupDir_stamp_shape: "isBackupDir s \<longleftrightarrow> stamp_shape s"
proof (cases "length s = 13")
  case False
  then show ?thesis by (simp add: isBackupDir_def stamp_shape_def)
next
  case True
  then obtain a b c d e f g h i j k l m where "s = [a, b, c, d, e, f, g, h, i, j, k, l, m]"
    by (auto simp: numeral_eq_Suc length_Suc_conv)
  then show ?thesis
    by (auto simp: isBackupDir_def stamp_shape_def upt_rec nth_Cons' drop_Cons' take_Cons')
qed

lemma glob_stamp: "glob stamp_glob s \<longleftrightarrow> isBackupDir s"
proof -
  have eq: "stamp_glob = ''[0-9]'' @ ''[0-9]'' @ ''[0-9]'' @ ''[0-9]'' @ ''[0-9]'' @ ''[0-9]''
      @ ''[0-9]'' @ ''[0-9]'' @ CHR ''-'' # ''[0-9]'' @ ''[0-9]'' @ ''[0-9]'' @ ''[0-9]'' @ []"
    by (simp add: stamp_glob_def)
  have "glob stamp_glob s \<longleftrightarrow> (\<exists>a b c d e f g h i j k l.
      s = [a, b, c, d, e, f, g, h, CHR ''-'', i, j, k, l] \<and> list_all is_digit [a, b, c, d, e, f, g, h, i, j, k, l])"
    unfolding eq by (simp only: glob_digit glob_dash glob_Nil) auto
  also have "\<dots> \<longleftrightarrow> stamp_shape s"
  proof
    assume "stamp_shape s"
    then obtain a b c d e f g h n i j k l where "s = [a, b, c, d, e, f, g, h, n, i, j, k, l]"
      by (auto simp: stamp_shape_def numeral_eq_Suc length_Suc_conv)
    with \<open>stamp_shape s\<close> show "\<exists>a b c d e f g h i j k l.
      s = [a, b, c, d, e, f, g, h, CHR ''-'', i, j, k, l] \<and> list_all is_digit [a, b, c, d, e, f, g, h, i, j, k, l]"
      by (auto simp: stamp_shape_def nth_Cons' take_Cons' drop_Cons')
  qed (auto simp: stamp_shape_def)
  finally show ?thesis by (simp add: isBackupDir_stamp_shape)
qed

lemma glob_count:
  "glob count_glob s \<longleftrightarrow>
     (\<exists>x a y b. s = x # a @ CHR ''-'' # y # b \<and> is_digit x \<and> is_digit y)"
proof -
  have eq: "count_glob = ''[0-9]'' @ CHR ''*'' # CHR ''-'' # ''[0-9]'' @ CHR ''*'' # []"
    by (simp add: count_glob_def)
  have all: "glob (CHR ''*'' # []) b" for b by (simp add: glob_star)
  show ?thesis
    unfolding eq glob_digit glob_star glob_dash by (auto simp: all) blast+
qed

section \<open>Names in order of time\<close>

text \<open>
  What the retention and the search for the newest snapshot rely on: names of the kept
  kind can be compared instead of times.
\<close>

locale time_ordered_names =
  fixes is_name :: "string \<Rightarrow> bool"
    and time_of :: "string \<Rightarrow> int"
  assumes order: "is_name s \<Longrightarrow> is_name t \<Longrightarrow> s < t \<longleftrightarrow> time_of s < time_of t"
begin

lemma order_le: "is_name s \<Longrightarrow> is_name t \<Longrightarrow> s \<le> t \<longleftrightarrow> time_of s \<le> time_of t"
  using order [of t s] by (simp add: not_less [symmetric])

lemma newest_by_name:
  "n \<in> N \<Longrightarrow> (\<And>m. m \<in> N \<Longrightarrow> m \<le> n) \<Longrightarrow> (\<And>m. m \<in> N \<Longrightarrow> is_name m) \<Longrightarrow>
     m \<in> N \<Longrightarrow> time_of m \<le> time_of n"
  using order_le by blast

lemma split_by_name:
  "(\<And>a b. a \<in> A \<Longrightarrow> b \<in> B \<Longrightarrow> a < b) \<Longrightarrow> (\<And>m. m \<in> A \<union> B \<Longrightarrow> is_name m) \<Longrightarrow>
     a \<in> A \<Longrightarrow> b \<in> B \<Longrightarrow> time_of a < time_of b"
  using order [of a b] by blast

end

text \<open>A snapshot name that is a real date: its minute can be parsed.\<close>

definition dated_name :: "string \<Rightarrow> bool" where
  "dated_name s \<longleftrightarrow> parse_stamp s \<noteq> None"

definition stamp_instant :: "int \<Rightarrow> string \<Rightarrow> int" where
  "stamp_instant off s = fixed_instant off (stamp_civil s)"

interpretation dated: time_ordered_names dated_name "stamp_instant off" for off
proof
  fix s t
  assume "dated_name s" "dated_name t"
  then have s: "stamp_shape s" "valid_civil (stamp_civil s)" and t: "stamp_shape t" "valid_civil (stamp_civil t)"
    by (auto simp: dated_name_def parse_stamp_def split: if_splits)
  show "s < t \<longleftrightarrow> stamp_instant off s < stamp_instant off t"
    using stamp_less_iff [OF s(1) t(1)] fixed_instant_less_iff [OF s(2) t(2)]
    by (simp add: stamp_instant_def)
qed

lemma dated_isBackupDir: "dated_name s \<Longrightarrow> isBackupDir s"
  by (auto simp: dated_name_def parse_stamp_def isBackupDir_stamp_shape split: if_splits)

lemma isBackupDir_ne: "isBackupDir s \<Longrightarrow> [] < s"
  by (cases s) (auto simp: isBackupDir_def)

lemma set_snapshot_names: "n \<in> set (snapshot_names es) \<longleftrightarrow> (n, True) \<in> set es \<and> isBackupDir n"
  by (force simp: snapshot_names_def)

lemma latest_from_Max: "latest_from m es = Max (insert m (set (snapshot_names es)))"
proof (induction es arbitrary: m)
  case Nil
  show ?case by (simp add: snapshot_names_def)
next
  case (Cons e es)
  obtain n d where e: "e = (n, d)" by (cases e)
  let ?S = "set (snapshot_names es)"
  have fin: "finite ?S" by simp
  show ?case
  proof (cases "d \<and> isBackupDir n")
    case True
    then have names: "set (snapshot_names (e # es)) = insert n ?S"
      by (simp add: e snapshot_names_def)
    have "Max (insert (if m < n then n else m) ?S) = Max (insert m (insert n ?S))"
      using fin by (cases "?S = {}") (auto simp: max_def)
    with True Cons.IH show ?thesis unfolding names by (simp add: e)
  next
    case False
    then have "set (snapshot_names (e # es)) = ?S" by (auto simp: e snapshot_names_def)
    with False Cons.IH show ?thesis by (auto simp: e)
  qed
qed

lemma latest_snapshot_Nil: "latest_snapshot es = [] \<longleftrightarrow> snapshot_names es = []"
proof
  assume "latest_snapshot es = []"
  then have "Max (insert [] (set (snapshot_names es))) = []" by (simp add: latest_snapshot_def latest_from_Max)
  then have "n \<le> []" if "n \<in> set (snapshot_names es)" for n
    using that Max_ge [of "insert [] (set (snapshot_names es))" n] by auto
  then show "snapshot_names es = []"
    using isBackupDir_ne set_snapshot_names by (metis last_in_set not_less)
qed (simp add: latest_snapshot_def latest_from_Max)

lemma latest_snapshot_iff:
  "n \<noteq> [] \<Longrightarrow> latest_snapshot es = n \<longleftrightarrow>
     n \<in> set (snapshot_names es) \<and> (\<forall>m \<in> set (snapshot_names es). m \<le> n)"
  unfolding latest_snapshot_def latest_from_Max
  by (subst eq_commute, subst Max_eq_iff) (auto simp: eq_commute)

section \<open>Properties\<close>





text \<open>C22: on the NAS, the pattern used to prune by age and to find the newest snapshot selects
  exactly the names \<open>isBackupDir\<close> accepts, but the pattern used to prune by count also selects
  the in-progress directory of an unfinished offload, which is no snapshot.\<close>

theorem nas_patterns:
  "(glob stamp_glob s \<longleftrightarrow> isBackupDir s) \<and>
   (isBackupDir s \<longrightarrow>
      glob count_glob s \<and> glob count_glob (s @ ''.inprogress'') \<and> \<not> isBackupDir (s @ ''.inprogress''))"
proof (intro conjI impI)
  show "glob stamp_glob s \<longleftrightarrow> isBackupDir s" by (rule glob_stamp)
next
  assume "isBackupDir s"
  then have s: "stamp_shape s" by (simp add: isBackupDir_stamp_shape)
  then obtain a b c d e f g h n i j k l where x: "s = [a, b, c, d, e, f, g, h, n, i, j, k, l]"
    by (auto simp: stamp_shape_def numeral_eq_Suc length_Suc_conv)
  have dg: "is_digit a" "is_digit i" "n = CHR ''-''"
    using s unfolding x by (auto simp: stamp_shape_def)
  have eq: "s @ t = a # [b, c, d, e, f, g, h] @ CHR ''-'' # i # ([j, k, l] @ t)" for t
    using x dg by simp
  have g: "glob count_glob (s @ t)" for t
    unfolding glob_count eq using dg by blast
  show "glob count_glob s" using g [of "[]"] by simp
  show "glob count_glob (s @ ''.inprogress'')" by (rule g)
  show "\<not> isBackupDir (s @ ''.inprogress'')"
    using \<open>isBackupDir s\<close> by (simp add: isBackupDir_def)
qed

theorem nas_patterns_witness:
  "glob count_glob ''20260101-0000.inprogress'' \<and> \<not> glob stamp_glob ''20260101-0000.inprogress''"
proof -
  have "isBackupDir ''20260101-0000''" by code_simp
  then have "glob count_glob (''20260101-0000'' @ ''.inprogress'') \<and>
      \<not> isBackupDir (''20260101-0000'' @ ''.inprogress'')"
    using nas_patterns [of "''20260101-0000''"] by blast
  then show ?thesis using nas_patterns [of "''20260101-0000.inprogress''"] by simp
qed

end
