(* ===== verification/Os_Laws.thy ===== *)
theory Os_Laws
  imports Os_World Snapshot
begin

text \<open>
  Laws of the outside world: which operations run no command, how the file system looks
  after a removal or a rename, and what a directory lists afterwards. Two interfaces are
  stated: a system call runs no command and leaves the environment alone; a step of the
  program only appends to the trace.
\<close>

section \<open>Steps and system calls\<close>

text \<open>A run from one world to another that executed the given commands.\<close>

definition runs :: "world \<Rightarrow> event list \<Rightarrow> world \<Rightarrow> bool" where
  "runs w ev w' \<longleftrightarrow> w_trace w' = w_trace w @ ev \<and> w_env w' = w_env w"

lemma runs_refl [simp]: "runs w [] w"
  by (simp add: runs_def)

lemma runs_trans: "runs w ev w1 \<Longrightarrow> runs w1 ev' w2 \<Longrightarrow> runs w (ev @ ev') w2"
  by (simp add: runs_def)

lemma runs_quiet: "runs w ev w1 \<Longrightarrow> runs w1 [] w2 \<Longrightarrow> runs w ev w2"
  using runs_trans by fastforce

locale program_step =
  fixes step :: "world \<Rightarrow> 'a \<times> world"
  assumes env_kept: "w_env (snd (step w)) = w_env w"
    and trace_grows: "prefix (w_trace w) (w_trace (snd (step w)))"
begin

lemma same_env [simp]: "w_env (snd (step w)) = w_env w"
  by (rule env_kept)

lemma event_kept: "e \<in> set (w_trace w) \<Longrightarrow> e \<in> set (w_trace (snd (step w)))"
  using trace_grows [of w] by (auto elim: prefixE)

end

locale system_call =
  fixes call :: "world \<Rightarrow> 'a \<times> world"
  assumes env_unchanged: "w_env (snd (call w)) = w_env w"
    and no_command: "w_trace (snd (call w)) = w_trace w"
begin

lemma quiet [simp]: "w_trace (snd (call w)) = w_trace w"
  by (rule no_command)

lemma silent: "call w = (r, w') \<Longrightarrow> runs w [] w'"
  using no_command [of w] env_unchanged [of w] by (simp add: runs_def)

lemma silent_snd [simp]: "runs w [] (snd (call w))"
  by (simp add: runs_def no_command env_unchanged)

end

sublocale system_call \<subseteq> program_step call
  by unfold_locales (simp_all add: env_unchanged no_command)

lemma tick_simps [simp]:
  "w_fs (tick w) = w_fs w" "w_trace (tick w) = w_trace w" "w_env (tick w) = w_env w"
  by (simp_all add: tick_def)

interpretation readdir: system_call "os_ReadDir p" for p
  by unfold_locales (simp_all add: os_ReadDir_def)

interpretation stat: system_call "os_Stat p" for p
  by unfold_locales (simp_all add: os_Stat_def)

interpretation readfile: system_call "os_ReadFile p" for p
  by unfold_locales (simp_all add: os_ReadFile_def)

interpretation mkdirall: system_call "os_MkdirAll p" for p
  by unfold_locales (simp_all add: os_MkdirAll_def)

interpretation removeall: system_call "os_RemoveAll p" for p
  by unfold_locales (simp_all add: os_RemoveAll_def)

interpretation remove: system_call "os_Remove p" for p
  by unfold_locales (simp_all add: os_Remove_def)

interpretation rename: system_call "os_Rename a b" for a b
  by unfold_locales (simp_all add: os_Rename_def)

interpretation createtemp: system_call "os_CreateTemp d a b" for d a b
  by unfold_locales (simp_all add: os_CreateTemp_def Let_def)

interpretation create: system_call "os_Create p" for p
  by unfold_locales (simp_all add: os_Create_def split: option.split node.split)

interpretation writefile: system_call "os_Write p c" for p c
  by unfold_locales (simp_all add: os_Write_def split: option.split node.split)

interpretation sync: system_call "os_Sync p" for p
  by unfold_locales (simp_all add: os_Sync_def)

interpretation close: system_call "os_Close p" for p
  by unfold_locales (simp_all add: os_Close_def)

interpretation chmod: system_call "os_Chmod p m" for p m
  by unfold_locales (simp_all add: os_Chmod_def split: option.split node.split)

interpretation clock: system_call now
  by unfold_locales (simp_all add: now_def)

interpretation stamp: system_call now_stamp
  by unfold_locales (simp_all add: now_stamp_def now_def Let_def)

interpretation pause: system_call "wait_or_done c" for c
  by unfold_locales (simp_all add: wait_or_done_def)

interpretation command: program_step "run_cmd c argv envv" for c argv envv
  by unfold_locales (simp_all add: run_cmd_def Let_def)

lemma run_cmd_trace [simp]:
  "w_trace (snd (run_cmd c argv envv w)) =
     w_trace w @ [Exec c argv envv (fst (fst (run_cmd c argv envv w)))]"
  by (simp add: run_cmd_def Let_def)

lemma run_cmd_runs: "run_cmd c argv envv w = ((ok, out), w') \<Longrightarrow> runs w [Exec c argv envv ok] w'"
  by (auto simp: runs_def run_cmd_def Let_def)

text \<open>The calls that only read.\<close>

lemma reads_keep_fs [simp]:
  "w_fs (snd (os_ReadDir p w)) = w_fs w" "w_fs (snd (os_Stat p w)) = w_fs w"
  "w_fs (snd (os_ReadFile p w)) = w_fs w" "w_fs (snd (os_Sync p w)) = w_fs w"
  "w_fs (snd (os_Close p w)) = w_fs w" "w_fs (snd (now w)) = w_fs w"
  "w_fs (snd (now_stamp w)) = w_fs w" "w_fs (snd (wait_or_done c w)) = w_fs w"
  by (simp_all add: os_ReadDir_def os_Stat_def os_ReadFile_def os_Sync_def os_Close_def
      now_def now_stamp_def wait_or_done_def Let_def)

section \<open>Paths\<close>

lemma dir_prefix_ne [simp]: "dir_prefix p \<noteq> []"
  by (simp add: dir_prefix_def)

lemma child_name_iff:
  "child_name p q = Some n \<longleftrightarrow> q = dir_prefix p @ n \<and> n \<noteq> [] \<and> CHR ''/'' \<notin> set n"
  by (auto simp: child_name_def HasPrefix_iff Let_def)

definition entry_name :: "string \<Rightarrow> bool" where
  "entry_name n \<longleftrightarrow> n \<noteq> [] \<and> CHR ''/'' \<notin> set n"

lemma dir_prefix_child:
  "entry_name n \<Longrightarrow> dir_prefix (dir_prefix p @ n) = dir_prefix p @ n @ ''/''"
  by (cases "dir_prefix p") (auto simp: dir_prefix_def entry_name_def)

lemma under_refl [simp]: "under p p"
  by (simp add: under_def)

lemma under_child_iff:
  assumes "entry_name n" and "entry_name m"
  shows "under (dir_prefix p @ n) (dir_prefix p @ m) \<longleftrightarrow> n = m"
proof
  assume "under (dir_prefix p @ n) (dir_prefix p @ m)"
  then have "m = n \<or> (\<exists>t. m = n @ CHR ''/'' # t)"
    unfolding under_def dir_prefix_child [OF assms(1)] HasPrefix_iff by auto
  with assms(2) show "n = m" by (auto simp: entry_name_def)
qed simp

lemma under_trans_child:
  "entry_name n \<Longrightarrow> under (dir_prefix p @ n) q \<longleftrightarrow>
     q = dir_prefix p @ n \<or> (\<exists>t. q = dir_prefix p @ n @ CHR ''/'' # t)"
  unfolding under_def dir_prefix_child HasPrefix_iff by auto

section \<open>Removing a tree\<close>

definition cut_fs :: "(string \<Rightarrow> bool) \<Rightarrow> fs \<Rightarrow> fs" where
  "cut_fs gone f = filter (\<lambda>(q, _). \<not> gone q) f"

lemma map_of_cut_fs [simp]: "map_of (cut_fs gone f) q = (if gone q then None else map_of f q)"
  by (induction f) (auto simp: cut_fs_def)

lemma map_ok_cut_fs [simp]: "map_ok f \<Longrightarrow> map_ok (cut_fs gone f)"
  by (simp add: map_ok_def cut_fs_def distinct_map_filter)

lemma cut_cut_fs [simp]: "cut_fs g (cut_fs h f) = cut_fs (\<lambda>q. h q \<or> g q) f"
  by (auto simp: cut_fs_def intro: filter_cong)

lemma cut_fs_False [simp]: "cut_fs (\<lambda>q. False) f = f"
  by (simp add: cut_fs_def)

lemma os_RemoveAll_fs:
  "w_fs (snd (os_RemoveAll p w)) =
     cut_fs (\<lambda>q. under p q \<and> \<not> (faulty w \<and> rm_survives (w_env w) (w_tick w) q)) (w_fs w)"
  by (auto simp: os_RemoveAll_def cut_fs_def intro: filter_cong)

definition no_faults :: "world \<Rightarrow> bool" where
  "no_faults w \<longleftrightarrow> (\<forall>k. \<not> io_fault (w_env w) k)"

lemma no_faults_faulty [simp]: "no_faults w \<Longrightarrow> \<not> faulty w"
  by (simp add: no_faults_def faulty_def)

lemma no_faults_env: "w_env w' = w_env w \<Longrightarrow> no_faults w \<Longrightarrow> no_faults w'"
  by (simp add: no_faults_def)

section \<open>Directory listings\<close>

lemma is_dir_cut_fs:
  "\<not> gone q \<Longrightarrow> is_dir (cut_fs gone f) q = is_dir f q"
  by (simp add: is_dir_def)

lemma child_name_child: "entry_name m \<Longrightarrow> child_name p (dir_prefix p @ m) = Some m"
  by (simp add: child_name_iff entry_name_def)

lemma map_filter_cut_fs:
  assumes N: "\<And>m. entry_name m \<Longrightarrow> gone (dir_prefix p @ m) \<longleftrightarrow> m \<in> N"
  shows "List.map_filter (\<lambda>(q, _). child_name p q) (cut_fs gone f) =
    filter (\<lambda>m. m \<notin> N) (List.map_filter (\<lambda>(q, _). child_name p q) f)"
proof (induction f)
  case Nil
  show ?case by (simp add: cut_fs_def List.map_filter_def)
next
  case (Cons e f)
  obtain q n where e: "e = (q, n)" by (cases e)
  show ?case
  proof (cases "child_name p q")
    case None
    then have "List.map_filter (\<lambda>(q, _). child_name p q) (cut_fs gone (e # f)) =
        List.map_filter (\<lambda>(q, _). child_name p q) (cut_fs gone f)"
      by (simp add: e cut_fs_def List.map_filter_simps)
    with None Cons.IH show ?thesis by (simp add: e List.map_filter_simps)
  next
    case (Some m)
    then have "gone q \<longleftrightarrow> m \<in> N" using N [of m] by (simp add: child_name_iff entry_name_def)
    with Some have "List.map_filter (\<lambda>(q, _). child_name p q) (cut_fs gone (e # f)) =
        (if m \<in> N then [] else [m]) @ List.map_filter (\<lambda>(q, _). child_name p q) (cut_fs gone f)"
      by (simp add: e cut_fs_def List.map_filter_simps)
    with Some Cons.IH show ?thesis by (simp add: e List.map_filter_simps)
  qed
qed

lemma set_child_names:
  "set (List.map_filter (\<lambda>(q, _). child_name p q) f) =
     {m. entry_name m \<and> dir_prefix p @ m \<in> fst ` set f}"
proof (induction f)
  case Nil
  show ?case by (simp add: List.map_filter_simps)
next
  case (Cons e f)
  obtain q n where e: "e = (q, n)" by (cases e)
  show ?case
  proof (cases "child_name p q")
    case None
    then have "dir_prefix p @ m \<noteq> q" if "entry_name m" for m using child_name_child [OF that] by auto
    with None Cons.IH show ?thesis by (auto simp: e List.map_filter_simps)
  next
    case (Some m)
    then have "entry_name m" "q = dir_prefix p @ m" by (auto simp: child_name_iff entry_name_def)
    with Some Cons.IH show ?thesis by (auto simp: e List.map_filter_simps)
  qed
qed

lemma dir_entries_names:
  "(m, d) \<in> set (dir_entries f p) \<longleftrightarrow>
     entry_name m \<and> dir_prefix p @ m \<in> fst ` set f \<and> d = is_dir f (dir_prefix p @ m)"
  by (auto simp: dir_entries_def set_child_names)

lemma dir_entries_cut:
  assumes "\<And>m. entry_name m \<Longrightarrow> gone (dir_prefix p @ m) \<longleftrightarrow> m \<in> N"
  shows "dir_entries (cut_fs gone f) p = filter (\<lambda>(m, _). m \<notin> N) (dir_entries f p)"
proof -
  let ?ms = "List.map_filter (\<lambda>(q, _). child_name p q) f"
  have ent: "entry_name m" if "m \<in> set ?ms" for m
    using that by (simp add: set_child_names)
  have "dir_entries (cut_fs gone f) p =
      List.map (\<lambda>n. (n, is_dir (cut_fs gone f) (dir_prefix p @ n))) (filter (\<lambda>m. m \<notin> N) (sort ?ms))"
    unfolding dir_entries_def filter_sort
    using map_filter_cut_fs [where gone = gone and p = p and N = N and f = f, OF assms] by simp
  also have "\<dots> = List.map (\<lambda>n. (n, is_dir f (dir_prefix p @ n))) (filter (\<lambda>m. m \<notin> N) (sort ?ms))"
    using assms ent by (intro map_cong) (auto intro!: is_dir_cut_fs)
  also have "\<dots> = filter (\<lambda>(m, _). m \<notin> N) (dir_entries f p)"
    by (simp add: dir_entries_def filter_map o_def)
  finally show ?thesis .
qed

lemma snapshot_names_filter:
  "snapshot_names (filter (\<lambda>(m, _). m \<notin> N) es) = filter (\<lambda>m. m \<notin> N) (snapshot_names es)"
  by (induction es) (auto simp: snapshot_names_def)

lemma snapshot_names_sorted [simp]: "sorted (snapshot_names (dir_entries f p))"
proof -
  have "sorted (List.map fst (dir_entries f p))" by (simp add: dir_entries_def o_def)
  then show ?thesis unfolding snapshot_names_def by (rule sorted_filter)
qed

lemma dir_entries_distinct:
  assumes "map_ok f"
  shows "distinct (List.map fst (dir_entries f p))"
proof -
  have "distinct (List.map_filter (\<lambda>(q, _). child_name p q) f)"
    using assms
  proof (induction f)
    case (Cons e f)
    obtain q n where e: "e = (q, n)" by (cases e)
    have "m \<notin> set (List.map_filter (\<lambda>(q, _). child_name p q) f)" if "child_name p q = Some m" for m
      using that Cons.prems by (auto simp: e map_ok_def set_child_names child_name_iff)
    with Cons show ?case
      by (cases "child_name p q") (auto simp: e map_ok_def List.map_filter_simps)
  qed (simp add: List.map_filter_simps)
  then show ?thesis by (simp add: dir_entries_def o_def)
qed

lemma snapshot_names_distinct [simp]: "map_ok f \<Longrightarrow> distinct (snapshot_names (dir_entries f p))"
  using dir_entries_distinct [of f p] by (simp add: snapshot_names_def distinct_map_filter)

lemma isBackupDir_chars:
  assumes "isBackupDir n" and "c \<in> set n"
  shows "c = CHR ''-'' \<or> is_digit c"
proof -
  obtain i where i: "i < 13" "n ! i = c"
    using assms by (auto simp: isBackupDir_def in_set_conv_nth)
  then have "i = 8 \<or> is_digit (n ! i)"
    using assms(1) by (auto simp: isBackupDir_def list_all_iff)
  with i assms(1) show ?thesis by (auto simp: isBackupDir_def)
qed

lemma isBackupDir_ok_comp: "isBackupDir n \<Longrightarrow> ok_comp n"
  using isBackupDir_chars [of n "CHR ''/''"]
  by (auto simp: ok_comp_def isBackupDir_def is_digit_def)

lemma ok_comp_entry_name: "ok_comp n \<Longrightarrow> entry_name n"
  by (simp add: ok_comp_def entry_name_def)

lemma dir_prefix_abs: "cs \<noteq> [] \<Longrightarrow> list_all ok_comp cs \<Longrightarrow> dir_prefix (abs_path cs) = abs_path cs @ ''/''"
  by (cases cs; cases "tl cs") (auto simp: dir_prefix_def ok_comp_def)

lemma path_join_child [path_simps]:
  "cs \<noteq> [] \<Longrightarrow> list_all ok_comp cs \<Longrightarrow> ok_comp n \<Longrightarrow>
     path_join [abs_path cs, n] = dir_prefix (abs_path cs) @ n"
  by (simp add: path_join_abs dir_prefix_abs abs_path_snoc)

section \<open>What an operation leaves alone\<close>

definition spares :: "(string \<Rightarrow> bool) \<Rightarrow> world \<Rightarrow> world \<Rightarrow> bool" where
  "spares P w w' \<longleftrightarrow> (\<forall>q. P q \<longrightarrow> map_of (w_fs w') q = map_of (w_fs w) q)"

text \<open>What is relied on of the commands: they leave the paths of a set alone.\<close>

definition commands_spare :: "(string \<Rightarrow> bool) \<Rightarrow> os_env \<Rightarrow> bool" where
  "commands_spare P e \<longleftrightarrow> (\<forall>k argv f q. P q \<longrightarrow> map_of (cmd_fs e k argv f) q = map_of f q)"

lemma spares_refl [simp]: "spares P w w"
  by (simp add: spares_def)

lemma spares_trans: "spares P w w1 \<Longrightarrow> spares P w1 w2 \<Longrightarrow> spares P w w2"
  by (simp add: spares_def)

lemma spares_same_fs: "w_fs w' = w_fs w \<Longrightarrow> spares P w w'"
  by (simp add: spares_def)

lemma spares_run_cmd:
  "commands_spare P (w_env w) \<Longrightarrow> run_cmd c argv envv w = (r, w') \<Longrightarrow> spares P w w'"
  by (auto simp: spares_def commands_spare_def run_cmd_def Let_def)

lemma spares_RemoveAll:
  "(\<And>q. P q \<Longrightarrow> \<not> under a q) \<Longrightarrow> os_RemoveAll a w = (r, w') \<Longrightarrow> spares P w w'"
  using os_RemoveAll_fs [of a w] by (auto simp: spares_def)

lemma ancestors_under: "q \<in> set (ancestors p) \<Longrightarrow> under q p"
proof -
  assume "q \<in> set (ancestors p)"
  then consider "q = p" | i where "0 < i" "i < length p" "p ! i = CHR ''/''" "q = take i p"
    by (auto simp: ancestors_def)
  then show "under q p"
  proof cases
    case 2
    then have "p = take i p @ CHR ''/'' # drop (Suc i) p"
      by (metis Cons_nth_drop_Suc append_take_drop_id)
    then have p: "p = q @ CHR ''/'' # drop (Suc i) p" using 2(4) by simp
    show ?thesis
    proof (cases "q = ''/''")
      case True
      then show ?thesis using p by (metis HasPrefix_append dir_prefix_def under_def)
    next
      case False
      then have "p = dir_prefix q @ drop (Suc i) p" using p by (simp add: dir_prefix_def)
      then show ?thesis by (metis HasPrefix_append under_def)
    qed
  qed simp
qed

lemma map_of_mkdir_fold:
  "map_of (fold (\<lambda>d f. if is_dir f d then f else AList.update d DirNode f) ds f) q =
     (if q \<in> set ds \<and> \<not> is_dir f q then Some DirNode else map_of f q)"
proof (induction ds arbitrary: f)
  case Nil
  show ?case by simp
next
  case (Cons d ds)
  then show ?case by (auto simp: is_dir_def)
qed

lemma map_of_mkdir_fs:
  "map_of (mkdir_fs p f) q = (if q \<in> set (ancestors p) \<and> \<not> is_dir f q then Some DirNode else map_of f q)"
  by (simp add: mkdir_fs_def map_of_mkdir_fold)

lemma spares_MkdirAll:
  "(\<And>q. P q \<Longrightarrow> \<not> under q a) \<Longrightarrow> os_MkdirAll a w = (r, w') \<Longrightarrow> spares P w w'"
proof -
  assume P: "\<And>q. P q \<Longrightarrow> \<not> under q a" and mk: "os_MkdirAll a w = (r, w')"
  from P have "P q \<Longrightarrow> q \<notin> set (ancestors a)" for q using ancestors_under by blast
  with mk show ?thesis by (auto simp: spares_def os_MkdirAll_def map_of_mkdir_fs split: if_splits)
qed

lemma MkdirAll_is_dir: "os_MkdirAll a w = (Inr u, w') \<Longrightarrow> is_dir (w_fs w') a"
proof -
  assume "os_MkdirAll a w = (Inr u, w')"
  then have fs: "w_fs w' = mkdir_fs a (w_fs w)" by (auto simp: os_MkdirAll_def split: if_splits)
  have "a \<in> set (ancestors a)" by (simp add: ancestors_def)
  then show ?thesis unfolding is_dir_def fs map_of_mkdir_fs by (auto simp: is_dir_def)
qed

lemma under_trans: "under a b \<Longrightarrow> under b c \<Longrightarrow> under a c"
proof -
  assume ab: "under a b" and bc: "under b c"
  show "under a c"
  proof (cases "b = a \<or> c = b")
    case True
    then show ?thesis using ab bc by auto
  next
    case False
    then obtain s t where b: "b = dir_prefix a @ s" and c: "c = dir_prefix b @ t"
      using ab bc by (auto simp: under_def HasPrefix_iff)
    have "\<exists>t. dir_prefix b = dir_prefix a @ t"
    proof (cases "b = ''/''")
      case True
      then have "dir_prefix b = b" by (simp add: dir_prefix_def)
      with b show ?thesis by metis
    next
      case False
      then have "dir_prefix b = b @ ''/''" by (simp add: dir_prefix_def)
      with b show ?thesis by simp
    qed
    then show ?thesis unfolding under_def c by (auto simp: HasPrefix_iff)
  qed
qed

text \<open>Two entries of one directory have nothing in common.\<close>

lemma under_disjoint:
  assumes "entry_name n" "entry_name m" "n \<noteq> m" "under (dir_prefix p @ n) q"
  shows "\<not> under (dir_prefix p @ m) q"
proof
  assume "under (dir_prefix p @ m) q"
  then consider (here) "q = dir_prefix p @ m" | (below) t where "q = dir_prefix p @ m @ CHR ''/'' # t"
    using under_trans_child [OF assms(2)] by blast
  then show False
  proof cases
    case here
    then show False using assms under_child_iff [OF assms(1,2)] by simp
  next
    case (below t)
    from assms(4) consider (here') "q = dir_prefix p @ n" | (below') s where "q = dir_prefix p @ n @ CHR ''/'' # s"
      using under_trans_child [OF assms(1)] by blast
    then show False
    proof cases
      case here'
      then have "under (dir_prefix p @ m) (dir_prefix p @ n)"
        using \<open>under (dir_prefix p @ m) q\<close> by simp
      then show False using assms(3) under_child_iff [OF assms(2,1)] by simp
    next
      case (below' s)
      with below have "n @ CHR ''/'' # s = m @ CHR ''/'' # t" by simp
      then have "takeWhile (\<lambda>c. c \<noteq> CHR ''/'') (n @ CHR ''/'' # s) = takeWhile (\<lambda>c. c \<noteq> CHR ''/'') (m @ CHR ''/'' # t)"
        by simp
      moreover have "takeWhile (\<lambda>c. c \<noteq> CHR ''/'') (n @ CHR ''/'' # s) = n"
        "takeWhile (\<lambda>c. c \<noteq> CHR ''/'') (m @ CHR ''/'' # t) = m"
        using assms(1,2) by (auto simp: entry_name_def intro!: takeWhile_append_stop)
      ultimately show False using assms(3) by simp
    qed
  qed
qed

section \<open>Renaming\<close>

text \<open>A rename moves the tree of \<open>a\<close> to \<open>b\<close> and leaves nothing of it behind.\<close>

lemma under_proper: "a \<noteq> ''/'' \<Longrightarrow> under a q \<longleftrightarrow> (\<exists>s. q = a @ s \<and> (s = [] \<or> hd s = CHR ''/''))"
proof
  assume "a \<noteq> ''/''" "under a q"
  then show "\<exists>s. q = a @ s \<and> (s = [] \<or> hd s = CHR ''/'')"
    by (auto simp: under_def dir_prefix_def HasPrefix_iff)
next
  assume a: "a \<noteq> ''/''" and "\<exists>s. q = a @ s \<and> (s = [] \<or> hd s = CHR ''/'')"
  then obtain s where "q = a @ s" "s = [] \<or> hd s = CHR ''/''" by blast
  with a show "under a q" by (cases s) (auto simp: under_def dir_prefix_def HasPrefix_iff)
qed

lemma rename_fs_gone:
  assumes ab: "a \<noteq> ''/''" "b \<noteq> ''/''" and disj: "\<And>q. under b q \<Longrightarrow> \<not> under a q" and q: "under a q"
  shows "map_of (rename_fs a b f) q = None"
proof -
  have moved: "b @ drop (length a) x \<noteq> q" if "under a x" for x
  proof -
    have "under b (b @ drop (length a) x)" using ab that by (auto simp: under_proper)
    then show ?thesis using disj q by auto
  qed
  have kept: "x \<noteq> q" if "\<not> under a x" for x using that q by auto
  show ?thesis
  proof (induction f)
    case Nil
    show ?case by (simp add: rename_fs_def)
  next
    case (Cons e f)
    obtain x n where e: "e = (x, n)" by (cases e)
    show ?case using Cons moved [of x] kept [of x] by (auto simp: e rename_fs_def)
  qed
qed

lemma rename_fs_moved:
  assumes ab: "a \<noteq> ''/''" "b \<noteq> ''/''" and disj: "\<And>q. under b q \<Longrightarrow> \<not> under a q"
    and s: "s = [] \<or> hd s = CHR ''/''"
  shows "map_of (rename_fs a b f) (b @ s) = map_of f (a @ s)"
proof (induction f)
  case Nil
  show ?case by (simp add: rename_fs_def)
next
  case (Cons e f)
  obtain q n where e: "e = (q, n)" by (cases e)
  have bs: "under b (b @ s)" "under a (a @ s)" using ab s by (auto simp: under_proper)
  consider "under b q" | "\<not> under b q" "under a q" | "\<not> under b q" "\<not> under a q" by blast
  then show ?case
  proof cases
    case 1
    then have "q \<noteq> a @ s" using disj bs by blast
    with 1 Cons show ?thesis by (simp add: e rename_fs_def)
  next
    case 2
    then obtain t where t: "q = a @ t" using ab by (auto simp: under_proper)
    with 2 Cons show ?thesis by (simp add: e rename_fs_def)
  next
    case 3
    then have "q \<noteq> b @ s" "q \<noteq> a @ s" using bs by auto
    with 3 Cons show ?thesis by (simp add: e rename_fs_def)
  qed
qed

lemma MkdirAll_fails_keeps: "os_MkdirAll d w = (Inl e, w') \<Longrightarrow> w_fs w' = w_fs w"
  by (auto simp: os_MkdirAll_def split: if_splits)

lemma RemoveAll_clears: "no_faults w \<Longrightarrow> under a q \<Longrightarrow> map_of (w_fs (snd (os_RemoveAll a w))) q = None"
  by (simp add: os_RemoveAll_fs)

section \<open>A world in which nothing fails\<close>

text \<open>It is where the witnesses of the properties live.\<close>

definition quiet_env :: os_env where
  "quiet_env = \<lparr>io_fault = (\<lambda>_. False), rm_survives = (\<lambda>_ _. False), temp_suffix = (\<lambda>_. ''1''),
     cmd_ok = (\<lambda>_ _. True), cmd_out = (\<lambda>_ _. []), cmd_fs = (\<lambda>_ _ f. f), ctx_done = (\<lambda>_ _. False),
     now_ns = (\<lambda>_. 0), loc = \<lparr>to_civil = (\<lambda>_. Civil 2026 1 1 0 0), of_civil = fixed_instant 0\<rparr>,
     env_vars = []\<rparr>"

definition quiet_world :: "fs \<Rightarrow> world" where
  "quiet_world f = \<lparr>w_fs = f, w_trace = [], w_tick = 0, w_env = quiet_env\<rparr>"

lemma quiet_world_simps [simp]:
  "w_fs (quiet_world f) = f" "w_env (quiet_world f) = quiet_env" "no_faults (quiet_world f)"
  "w_trace (quiet_world f) = []"
  by (simp_all add: quiet_world_def no_faults_def quiet_env_def)

end
