(* ===== verification/Remote.thy ===== *)
theory Remote
  imports Os_Laws
begin

text \<open>
  Remote commands and transfers: \<open>sshBaseArgs\<close>, the argument lists of \<open>rsync\<close>,
  \<open>runRsync\<close> and the reading of its progress output, \<open>runSync\<close>, \<open>checkNASReady\<close> and
  \<open>ensureNASDir\<close> of \<open>backup.go\<close>, and \<open>runSSH\<close> of \<open>prune.go\<close>.

  The interface \<open>commandRunner\<close> of \<open>command.go\<close> has one implementation outside the tests,
  \<open>execCommandRunner\<close>, which starts a process; \<^const>\<open>run_cmd\<close> stands for it.
\<close>

section \<open>os.ExpandEnv\<close>

definition env_name :: "string \<Rightarrow> string" where
  "env_name e = takeWhile (\<lambda>c. c \<noteq> CHR ''='') e"

text \<open>The first entry of the environment with the name counts.\<close>

fun getenv :: "string list \<Rightarrow> string \<Rightarrow> string" where
  "getenv [] k = []"
| "getenv (e # es) k =
     (if CHR ''='' \<in> set e \<and> env_name e = k then drop (Suc (length k)) e else getenv es k)"

definition shell_special :: "char \<Rightarrow> bool" where
  "shell_special c \<longleftrightarrow> c \<in> set ''*#$@!?-'' \<or> is_digit c"

definition alnum :: "char \<Rightarrow> bool" where
  "alnum c \<longleftrightarrow> c = CHR ''_'' \<or> is_digit c \<or>
     (CHR ''a'' \<le> c \<and> c \<le> CHR ''z'') \<or> (CHR ''A'' \<le> c \<and> c \<le> CHR ''Z'')"

text \<open>\<open>getShellName\<close>: the name after the dollar sign and how many bytes it takes.\<close>

definition shell_name :: "string \<Rightarrow> string \<times> nat" where
  "shell_name s =
     (if s \<noteq> [] \<and> hd s = CHR ''{'' then
        (let body = takeWhile (\<lambda>c. c \<noteq> CHR ''}'') (tl s)
         in if 2 < length s \<and> shell_special (s ! 1) \<and> s ! 2 = CHR ''}'' then ([s ! 1], 3)
            else if CHR ''}'' \<notin> set (tl s) then ([], 1)
            else if body = [] then ([], 2)
            else (body, length body + 2))
      else if s \<noteq> [] \<and> shell_special (hd s) then ([hd s], 1)
      else (takeWhile alnum s, length (takeWhile alnum s)))"

function expand_env :: "string list \<Rightarrow> string \<Rightarrow> string" where
  "expand_env envv [] = []"
| "expand_env envv (c # s) =
     (if c = CHR ''$'' \<and> s \<noteq> [] then
        (case shell_name s of (name, k) \<Rightarrow>
           (if name \<noteq> [] then getenv envv name else if 0 < k then [] else [c])
             @ expand_env envv (drop k s))
      else c # expand_env envv s)"
  by pat_completeness auto
termination by (relation "measure (\<lambda>(_, s). length s)") auto

declare expand_env.simps [simp del]

section \<open>Argument lists\<close>

definition sshBaseArgs :: "string list \<Rightarrow> NASConfig \<Rightarrow> string list" where
  "sshBaseArgs envv nas =
     [''ssh'']
     @ (if SSHPort nas \<noteq> 0 \<and> SSHPort nas \<noteq> 22 then [''-p'', show_int (SSHPort nas)] else [])
     @ (if SSHKey nas \<noteq> [] then [''-i'', expand_env envv (SSHKey nas)] else [])
     @ [''-o'', ''BatchMode=yes'', ''-o'', ''ConnectTimeout=10'', ''-o'', ''ServerAliveInterval=15'',
        ''-o'', ''ServerAliveCountMax=3'']"

definition ssh_host :: "NASConfig \<Rightarrow> string" where
  "ssh_host nas = SSHUser nas @ ''@'' @ SSHHost nas"

definition link_dest :: "string \<Rightarrow> string list" where
  "link_dest prevBackup = (if prevBackup \<noteq> [] then [''--link-dest='' @ prevBackup] else [])"

definition exclude_args :: "string list \<Rightarrow> string list" where
  "exclude_args excludes = List.map (\<lambda>ex. ''--exclude='' @ ex) excludes"

definition localRsyncArgs :: "string \<Rightarrow> string \<Rightarrow> string \<Rightarrow> string list \<Rightarrow> string list" where
  "localRsyncArgs dataDir prevBackup destDir excludes =
     [''rsync'', ''-a'', ''--timeout=300''] @ link_dest prevBackup @ exclude_args excludes
       @ [dataDir, destDir @ ''/'']"

text \<open>\<open>int(f)\<close>: truncation towards zero; out of range the amd64 conversion gives the least
  integer. Multiplying by 1024 is exact.\<close>

fun float_times_1024 :: "float64 \<Rightarrow> float64" where
  "float_times_1024 (Finite m e) = Finite m (e + 10)"
| "float_times_1024 f = f"

fun float_to_int :: "float64 \<Rightarrow> int" where
  "float_to_int (Finite m e) =
     (let a = (if 0 \<le> e then \<bar>m\<bar> * 2 ^ nat e else \<bar>m\<bar> div 2 ^ nat (- e));
          i = (if m < 0 then - a else a)
      in if in_int64 i then i else min_int64)"
| "float_to_int f = min_int64"

fun float_positive :: "float64 \<Rightarrow> bool" where
  "float_positive (Finite m e) \<longleftrightarrow> 0 < m"
| "float_positive PosInf \<longleftrightarrow> True"
| "float_positive f \<longleftrightarrow> False"

definition nasRsyncArgs ::
  "string list \<Rightarrow> string \<Rightarrow> string \<Rightarrow> string \<Rightarrow> NASConfig \<Rightarrow> float64 \<Rightarrow> string list \<Rightarrow> string list" where
  "nasRsyncArgs envv dataDir prevBackup destDir nas maxMbps excludes =
     [''rsync'', ''-a'', ''--timeout=300'']
     @ (if float_positive maxMbps
        then [''--bwlimit='' @ show_int (float_to_int (float_times_1024 maxMbps))] else [])
     @ link_dest prevBackup @ exclude_args excludes
     @ [''-e'', Join (sshBaseArgs envv nas) '' '']
     @ [dataDir, ssh_host nas @ '':'' @ destDir @ ''/'']"

section \<open>Progress output\<close>

text \<open>One line of \<open>rsync --info=progress2\<close>: bytes moved and the total computed from the
  percentage, in \<open>int64\<close> arithmetic.\<close>

definition quot64 :: "int \<Rightarrow> int \<Rightarrow> int" where
  "quot64 a b = wrap64 (sgn a * sgn b * (\<bar>a\<bar> div \<bar>b\<bar>))"

definition parseRsyncProgress :: "string \<Rightarrow> (int \<times> int) option" where
  "parseRsyncProgress line =
     (let line = TrimSpace line
      in if line = [] then None
         else (let fields = Fields line
               in if length fields < 2 then None
                  else (case ParseInt (ReplaceAll (fields ! 0) (CHR '','') []) of
                          None \<Rightarrow> None
                        | Some bytes \<Rightarrow>
                            (case ParseInt (TrimSuffix (fields ! 1) ''%'') of
                               None \<Rightarrow> Some (bytes, 0)
                             | Some pct \<Rightarrow>
                                 if pct = 0 then Some (bytes, 0)
                                 else Some (bytes, quot64 (wrap64 (bytes * 100)) pct)))))"

text \<open>\<open>scanRsyncLines\<close>: how many bytes to advance, and the token if there is one. A line ends
  at a carriage return, a line feed, or both in this order.\<close>

definition line_end :: "char \<Rightarrow> bool" where
  "line_end c \<longleftrightarrow> c = CHR 0x0D \<or> c = CHR 0x0A"

definition scanRsyncLines :: "string \<Rightarrow> bool \<Rightarrow> nat \<times> string option" where
  "scanRsyncLines data atEOF =
     (let l = takeWhile (\<lambda>c. \<not> line_end c) data; i = length l
      in if i < length data then
           (if data ! i = CHR 0x0D \<and> i + 1 < length data \<and> data ! (i + 1) = CHR 0x0A
            then i + 2 else i + 1, Some l)
         else if atEOF \<and> data \<noteq> [] then (length data, Some data)
         else (0, None))"

text \<open>\<open>bufio.Scanner\<close> with this split function: the bytes held, and the chunks the reader will
  deliver before it ends. A full buffer without a token ends the scan (\<open>ErrTooLong\<close>); a
  read delivers at most what fits in the buffer. The result is the list of tokens.\<close>

definition max_token :: nat where "max_token = 65536"

lemma scan_advances: "scanRsyncLines data eof = (k, Some t) \<Longrightarrow> 0 < k \<and> k \<le> length data"
  by (auto simp: scanRsyncLines_def Let_def split: if_splits)

function scan_tokens :: "string \<Rightarrow> string list \<Rightarrow> string list" where
  "scan_tokens buf chunks =
     (case scanRsyncLines buf (chunks = []) of
        (k, Some t) \<Rightarrow> t # scan_tokens (drop k buf) chunks
      | (k, None) \<Rightarrow>
          (case chunks of
             [] \<Rightarrow> []
           | c # cs \<Rightarrow>
               if max_token \<le> length buf then []
               else if c = [] then scan_tokens buf cs
               else (let free = max_token - length buf
                     in scan_tokens (buf @ take free c)
                          (if length c \<le> free then cs else drop free c # cs))))"
  by pat_completeness auto
termination
  by (relation "measures [\<lambda>(buf, chunks). length buf + length (concat chunks),
      \<lambda>(buf, chunks). length (concat chunks), \<lambda>(buf, chunks). length chunks]")
    (auto dest!: scan_advances [OF sym] simp: max_token_def min_def)

declare scan_tokens.simps [simp del]

text \<open>\<open>streamRsyncProgress\<close>: the calls of \<open>onProgress\<close>, in order.\<close>

definition streamRsyncProgress :: "string list \<Rightarrow> (int \<times> int) list" where
  "streamRsyncProgress chunks = List.map_filter parseRsyncProgress (scan_tokens [] chunks)"

section \<open>Running\<close>

definition runSSH :: "ctx \<Rightarrow> NASConfig \<Rightarrow> string \<Rightarrow> world \<Rightarrow> unit result \<times> world" where
  "runSSH c nas remoteCmd w =
     (let ((ok, _), w) = run_cmd c (sshBaseArgs (env_vars (w_env w)) nas @ [ssh_host nas, remoteCmd]) [] w
      in (if ok then Inr () else Inl CmdFailed, w))"

text \<open>\<open>runRsync\<close> with a progress callback, as both callers use it: the result and the
  arguments of the calls of the callback. The chunks in which the pipe delivers the output
  are irrelevant (\<open>stream_chunking\<close> below), so it is read here as one.\<close>

definition runRsync :: "ctx \<Rightarrow> string list \<Rightarrow> world \<Rightarrow> (unit result \<times> (int \<times> int) list) \<times> world" where
  "runRsync c args w =
     (let ((ok, out), w) = run_cmd c (hd args # ''--info=progress2'' # tl args) [] w
      in ((if ok then Inr () else Inl CmdFailed, streamRsyncProgress [out]), w))"

definition runSync :: "ctx \<Rightarrow> world \<Rightarrow> world" where
  "runSync c w = snd (run_cmd c [''sync''] [] w)"

definition checkNASReady :: "ctx \<Rightarrow> NASConfig \<Rightarrow> world \<Rightarrow> unit result \<times> world" where
  "checkNASReady c nas w =
     (case runSSH c nas (nasReadyCommand nas) w of
        (Inr _, w) \<Rightarrow> (Inr (), w)
      | (Inl _, w) \<Rightarrow> (Inl (Errorf ''NAS sentinel %s not found'' [NASDestRoot nas @ ''/.nas-ready'']), w))"

definition ensureNASDir :: "ctx \<Rightarrow> NASConfig \<Rightarrow> string \<Rightarrow> world \<Rightarrow> unit result \<times> world" where
  "ensureNASDir c nas path w = runSSH c nas (nasMkdirCommand path) w"

lemma runSSH_runs:
  "runSSH c nas cmd w = (r, w') \<Longrightarrow>
     runs w [Exec c (sshBaseArgs (env_vars (w_env w)) nas @ [ssh_host nas, cmd]) [] (is_ok r)] w'"
  by (auto simp: runSSH_def dest!: run_cmd_runs split: prod.splits)

lemma runRsync_runs:
  "runRsync c args w = ((r, pg), w') \<Longrightarrow>
     runs w [Exec c (hd args # ''--info=progress2'' # tl args) [] (is_ok r)] w'"
  by (auto simp: runRsync_def dest!: run_cmd_runs split: prod.splits)

lemma runSync_runs: "\<exists>ok. runs w [Exec c [''sync''] [] ok] (runSync c w)"
proof -
  obtain ok out w' where "run_cmd c [''sync''] [] w = ((ok, out), w')" by (metis prod.exhaust)
  then show ?thesis using run_cmd_runs unfolding runSync_def by fastforce
qed

lemma checkNASReady_runs:
  "checkNASReady c nas w = (r, w') \<Longrightarrow>
     runs w [Exec c (sshBaseArgs (env_vars (w_env w)) nas @ [ssh_host nas, nasReadyCommand nas]) [] (is_ok r)] w'"
  by (auto simp: checkNASReady_def dest!: runSSH_runs split: prod.splits sum.splits)

lemma ensureNASDir_runs:
  "ensureNASDir c nas path w = (r, w') \<Longrightarrow>
     runs w [Exec c (sshBaseArgs (env_vars (w_env w)) nas @ [ssh_host nas, nasMkdirCommand path]) [] (is_ok r)] w'"
  by (simp add: ensureNASDir_def runSSH_runs)

section \<open>The scan does not depend on the chunks\<close>

text \<open>The specification: the text cut at every carriage return and line feed.\<close>

definition output_lines :: "string \<Rightarrow> string list" where
  "output_lines s = split_on line_end s"

definition progress_of :: "string list \<Rightarrow> (int \<times> int) list" where
  "progress_of ls = List.map_filter parseRsyncProgress ls"

lemma parse_empty [simp]: "parseRsyncProgress [] = None"
  by (simp add: parseRsyncProgress_def TrimSpace_def TrimLeftSpace_def TrimRightBy_def)

lemma progress_of_simps [simp]:
  "progress_of [] = []"
  "progress_of ([] # ls) = progress_of ls"
  by (simp_all add: progress_of_def List.map_filter_simps)

lemma progress_of_Cons: "progress_of (l # ls) = progress_of [l] @ progress_of ls"
  by (simp add: progress_of_def List.map_filter_simps split: option.split)

lemma split_on_cut: "p x \<Longrightarrow> split_on p (a @ x # b) = split_on p a @ split_on p b"
  by (induction a) auto

lemma output_lines_append: "line_end c \<Longrightarrow> output_lines (a @ c # b) = output_lines a @ output_lines b"
  by (simp add: output_lines_def split_on_cut)

lemma line_ends [simp]: "line_end (CHR 0x0D)" "line_end (CHR 0x0A)"
  by (simp_all add: line_end_def)

lemma output_lines_none: "list_all (\<lambda>c. \<not> line_end c) s \<Longrightarrow> output_lines s = [s]"
  by (simp add: output_lines_def split_on_none list_all_iff)

lemma scan_token_cases:
  assumes "scanRsyncLines data eof = (k, Some t)"
  obtains (line) e r where "data = t @ e # r" "line_end e" "list_all (\<lambda>c. \<not> line_end c) t" "drop k data = r"
  | (crlf) r where "data = t @ CHR 0x0D # CHR 0x0A # r" "list_all (\<lambda>c. \<not> line_end c) t" "drop k data = r"
  | (last) "t = data" "data \<noteq> []" "eof" "list_all (\<lambda>c. \<not> line_end c) data" "drop k data = []"
proof -
  let ?l = "takeWhile (\<lambda>c. \<not> line_end c) data"
  have no_end: "list_all (\<lambda>c. \<not> line_end c) ?l" by (auto simp: list_all_iff dest: set_takeWhileD)
  show ?thesis
  proof (cases "length ?l < length data")
    case False
    then have "?l = data" by (metis linorder_neqE_nat takeWhile_dropWhile_id append_Nil2 length_append
          length_0_conv not_add_less1 not_less_iff_gr_or_eq add_cancel_right_right)
    with False no_end assms show ?thesis
      by (intro last) (auto simp: scanRsyncLines_def Let_def split: if_splits)
  next
    case True
    define r where "r = drop (Suc (length ?l)) data"
    have nth: "data ! length ?l = data ! length ?l" and e: "line_end (data ! length ?l)"
      using nth_length_takeWhile [of "\<lambda>c. \<not> line_end c" data] True by auto
    have data: "data = ?l @ data ! length ?l # r"
      using True by (metis Cons_nth_drop_Suc append_take_drop_id r_def takeWhile_eq_take)
    show ?thesis
    proof (cases "data ! length ?l = CHR 0x0D \<and> length ?l + 1 < length data \<and> data ! (length ?l + 1) = CHR 0x0A")
      case True
      then have r: "r = CHR 0x0A # drop (length ?l + 2) data"
        by (metis Cons_nth_drop_Suc Suc_eq_plus1 add_2_eq_Suc' r_def)
      have kt: "t = ?l" "k = length ?l + 2"
        using assms True \<open>length ?l < length data\<close> by (auto simp: scanRsyncLines_def Let_def)
      show ?thesis using data r True no_end kt by (intro crlf [of "drop k data"]) simp_all
    next
      case False
      then have kt: "t = ?l" "k = length ?l + 1"
        using assms True by (auto simp: scanRsyncLines_def Let_def split: if_splits)
      show ?thesis
        using data e no_end kt r_def by (intro line [of "data ! length ?l" r]) simp_all
    qed
  qed
qed

lemma scan_no_token:
  assumes "scanRsyncLines data eof = (k, None)"
  shows "list_all (\<lambda>c. \<not> line_end c) data" and "eof \<Longrightarrow> data = []"
proof -
  let ?l = "takeWhile (\<lambda>c. \<not> line_end c) data"
  have "\<not> length ?l < length data" using assms by (auto simp: scanRsyncLines_def Let_def)
  then have "?l = data" by (metis takeWhile_eq_take take_all not_less)
  then show "list_all (\<lambda>c. \<not> line_end c) data" by (metis list_all_iff set_takeWhileD)
  show "eof \<Longrightarrow> data = []"
    using assms \<open>\<not> length ?l < length data\<close> by (auto simp: scanRsyncLines_def Let_def split: if_splits)
qed

lemma long_line:
  assumes "list_all (\<lambda>c. \<not> line_end c) buf"
  obtains l where "l \<in> set (output_lines (buf @ s))" "length buf \<le> length l"
proof -
  have "\<exists>l ls. output_lines (buf @ s) = (buf @ l) # ls"
    using assms
  proof (induction buf)
    case Nil
    show ?case using split_on_ne [of line_end s] by (cases "split_on line_end s") (auto simp: output_lines_def)
  next
    case (Cons c buf)
    then show ?case by (auto simp: output_lines_def)
  qed
  then show ?thesis using that by (metis length_append le_add1 list.set_intros(1))
qed

lemma token_progress:
  assumes st: "scanRsyncLines data eof = (k, Some t)" and X: "eof \<Longrightarrow> X = []"
  shows "progress_of (output_lines (data @ X)) = progress_of [t] @ progress_of (output_lines (drop k data @ X))"
    and "list_all (\<lambda>l. length l < max_token) (output_lines (data @ X)) \<Longrightarrow>
      list_all (\<lambda>l. length l < max_token) (output_lines (drop k data @ X))"
  using st
proof (atomize(full), cases rule: scan_token_cases)
  case (line e r)
  have "output_lines (data @ X) = t # output_lines (r @ X)"
    unfolding line(1) using output_lines_append [OF line(2), of t "r @ X"] output_lines_none [OF line(3)] by simp
  then show "progress_of (output_lines (data @ X)) = progress_of [t] @ progress_of (output_lines (drop k data @ X)) \<and>
      (list_all (\<lambda>l. length l < max_token) (output_lines (data @ X)) \<longrightarrow>
        list_all (\<lambda>l. length l < max_token) (output_lines (drop k data @ X)))"
    unfolding line(4) using progress_of_Cons [of t "output_lines (r @ X)"] by simp
next
  case (crlf r)
  have "output_lines (data @ X) = t # [] # output_lines (r @ X)"
    unfolding crlf(1)
    using output_lines_append [of "CHR 0x0D" t "CHR 0x0A # r @ X"] output_lines_none [OF crlf(2)]
      output_lines_append [of "CHR 0x0A" "[]" "r @ X"] output_lines_none [of "[]"]
    by (simp add: line_end_def)
  then show "progress_of (output_lines (data @ X)) = progress_of [t] @ progress_of (output_lines (drop k data @ X)) \<and>
      (list_all (\<lambda>l. length l < max_token) (output_lines (data @ X)) \<longrightarrow>
        list_all (\<lambda>l. length l < max_token) (output_lines (drop k data @ X)))"
    unfolding crlf(3) using progress_of_Cons [of t "[] # output_lines (r @ X)"] by simp
next
  case last
  then show "progress_of (output_lines (data @ X)) = progress_of [t] @ progress_of (output_lines (drop k data @ X)) \<and>
      (list_all (\<lambda>l. length l < max_token) (output_lines (data @ X)) \<longrightarrow>
        list_all (\<lambda>l. length l < max_token) (output_lines (drop k data @ X)))"
    using X output_lines_none [of "[]"] output_lines_none [of data] by (simp add: max_token_def)
qed

lemma scan_tokens_token:
  "scanRsyncLines buf (chunks = []) = (k, Some t) \<Longrightarrow>
     scan_tokens buf chunks = t # scan_tokens (drop k buf) chunks"
  by (subst scan_tokens.simps) simp

lemma scan_tokens_end: "scanRsyncLines buf True = (k, None) \<Longrightarrow> scan_tokens buf [] = []"
  by (subst scan_tokens.simps) simp

lemma scan_tokens_read:
  assumes "scanRsyncLines buf False = (k, None)" and "length buf < max_token"
  shows "scan_tokens buf ([] # cs) = scan_tokens buf cs"
    and "c \<noteq> [] \<Longrightarrow> scan_tokens buf (c # cs) =
      scan_tokens (buf @ take (max_token - length buf) c)
        (if length c \<le> max_token - length buf then cs else drop (max_token - length buf) c # cs)"
  using assms by (subst scan_tokens.simps, simp add: Let_def)+

lemma scan_tokens_progress:
  assumes "list_all (\<lambda>l. length l < max_token) (output_lines (buf @ concat chunks))"
  shows "progress_of (scan_tokens buf chunks) = progress_of (output_lines (buf @ concat chunks))"
  using assms
proof (induction buf chunks rule: scan_tokens.induct)
  case (1 buf chunks)
  note short_lines = 1(4)
  obtain k tok where scan: "scanRsyncLines buf (chunks = []) = (k, tok)" by (cases "scanRsyncLines buf (chunks = [])")
  show ?case
  proof (cases tok)
    case (Some t)
    with scan have st: "scanRsyncLines buf (chunks = []) = (k, Some t)" by simp
    note tp = token_progress [OF st, of "concat chunks"]
    have "progress_of (scan_tokens (drop k buf) chunks) = progress_of (output_lines (drop k buf @ concat chunks))"
      by (rule 1(3) [OF st [symmetric] refl], rule tp(2) [OF _ short_lines]) simp
    then show ?thesis
      unfolding scan_tokens_token [OF st] progress_of_Cons [of t "scan_tokens (drop k buf) chunks"]
      using tp(1) by simp
  next
    case None
    with scan have st: "scanRsyncLines buf (chunks = []) = (k, None)" by simp
    note plain = scan_no_token [OF st]
    show ?thesis
    proof (cases chunks)
      case Nil
      with st plain(2) scan_tokens_end [of buf k] output_lines_none [of "[]"] show ?thesis by simp
    next
      case (Cons c cs)
      obtain l where "l \<in> set (output_lines (buf @ concat chunks))" "length buf \<le> length l"
        by (rule long_line [OF plain(1)])
      with short_lines have short: "\<not> max_token \<le> length buf" by (auto simp: list_all_iff)
      have st': "(k, None) = scanRsyncLines buf (chunks = [])" using st by simp
      have st2: "scanRsyncLines buf False = (k, None)" using st Cons by simp
      note read = scan_tokens_read [OF st2 short [unfolded not_le]]
      show ?thesis
      proof (cases "c = []")
        case True
        with 1(1) [OF st' refl Cons short True] short_lines read(1) [of cs] Cons show ?thesis by simp
      next
        case False
        let ?free = "max_token - length buf"
        let ?rest = "if length c \<le> ?free then cs else drop ?free c # cs"
        have all: "(buf @ take ?free c) @ concat ?rest = buf @ concat chunks"
          using Cons by simp
        have "progress_of (scan_tokens (buf @ take ?free c) ?rest) =
            progress_of (output_lines ((buf @ take ?free c) @ concat ?rest))"
          by (rule 1(2) [OF st' refl Cons short False refl]) (simp only: all short_lines)
        then show ?thesis unfolding all using read(2) [OF False, of cs] Cons by simp
      qed
    qed
  qed
qed

section \<open>Progress lines\<close>

text \<open>The way \<open>rsync --info=progress2\<close> prints a line: the bytes with thousands separated by
  commas, the percentage, and more columns.\<close>

fun with_commas :: "nat \<Rightarrow> string" where
  "with_commas n = (if n < 1000 then show_nat n
     else with_commas (n div 1000) @ '','' @ show_padded 3 (n mod 1000))"

declare with_commas.simps [simp del]

definition progress_line :: "nat \<Rightarrow> nat \<Rightarrow> nat \<Rightarrow> nat \<Rightarrow> string \<Rightarrow> string" where
  "progress_line pad bytes gap pct rest =
     replicate pad (CHR '' '') @ with_commas bytes @ CHR '' '' # replicate gap (CHR '' '')
       @ (show_nat pct @ ''%'') @ CHR '' '' # rest"

lemma ReplaceAll_append [simp]: "ReplaceAll (a @ b) c r = ReplaceAll a c r @ ReplaceAll b c r"
  by (simp add: ReplaceAll_def)

lemma ReplaceAll_none: "c \<notin> set s \<Longrightarrow> ReplaceAll s c r = s"
  by (induction s) (auto simp: ReplaceAll_def)

lemma ReplaceAll_drop [simp]: "ReplaceAll (c # s) c [] = ReplaceAll s c []"
  by (simp add: ReplaceAll_def)

lemma show_padded_no_comma: "CHR '','' \<notin> set (show_padded w n)"
  using show_padded_digits [of w n] by (auto simp: list_all_iff is_digit_def)

lemma show_nat_no_comma: "CHR '','' \<notin> set (show_nat n)"
  using show_nat_chars [of "CHR '',''" n] by (auto simp: is_digit_def)

lemma digits_val_append: "digits_val (s @ t) = digits_val s * 10 ^ length t + digits_val t"
proof (induction t rule: rev_induct)
  case Nil
  show ?case by simp
next
  case (snoc x t)
  have "digits_val (s @ t @ [x]) = 10 * digits_val (s @ t) + digit_val x"
    using digits_val_snoc [of "s @ t" x] by simp
  with snoc show ?case by (simp add: algebra_simps)
qed

lemma commas_removed:
  "list_all is_digit (ReplaceAll (with_commas n) (CHR '','') []) \<and>
   ReplaceAll (with_commas n) (CHR '','') [] \<noteq> [] \<and>
   digits_val (ReplaceAll (with_commas n) (CHR '','') []) = n"
proof (induction n rule: less_induct)
  case (less n)
  show ?case
  proof (cases "n < 1000")
    case True
    then show ?thesis
      by (simp add: with_commas.simps [of n] ReplaceAll_none show_nat_no_comma show_nat_digits)
  next
    case False
    let ?a = "ReplaceAll (with_commas (n div 1000)) (CHR '','') []" and ?b = "show_padded 3 (n mod 1000)"
    have eq: "ReplaceAll (with_commas n) (CHR '','') [] = ?a @ ?b"
      using False by (subst with_commas.simps) (simp add: ReplaceAll_none show_padded_no_comma)
    have len: "length ?b = 3" by (rule length_show_padded) simp_all
    have "n div 1000 < n" using False by simp
    note IH = less.IH [OF this]
    have "digits_val (?a @ ?b) = n div 1000 * 1000 + n mod 1000"
      using IH by (simp add: digits_val_append len)
    with IH show ?thesis unfolding eq using show_padded_digits by (simp add: div_mult_mod_eq)
  qed
qed

lemma ParseInt_digits:
  "list_all is_digit s \<Longrightarrow> s \<noteq> [] \<Longrightarrow> in_int64 (int (digits_val s)) \<Longrightarrow>
     ParseInt s = Some (int (digits_val s))"
  using is_digit_not_sign [of "hd s"]
  by (cases s) (simp_all add: ParseInt_def parse_nat_def)

lemma with_commas_chars: "c \<in> set (with_commas n) \<Longrightarrow> c = CHR '','' \<or> is_digit c"
proof (induction n rule: with_commas.induct)
  case (1 n)
  show ?case
  proof (cases "n < 1000")
    case True
    with 1(2) show ?thesis using show_nat_chars by (auto simp: with_commas.simps [of n])
  next
    case False
    with 1(2) have "c \<in> set (with_commas (n div 1000)) \<or> c = CHR '','' \<or> c \<in> set (show_padded 3 (n mod 1000))"
      by (subst (asm) with_commas.simps) auto
    with 1(1) [OF False] show ?thesis
      using show_padded_digits [of 3 "n mod 1000"] by (auto simp: list_all_iff)
  qed
qed

lemma space_not_digit: "is_space c \<Longrightarrow> \<not> is_digit c \<and> c \<noteq> CHR '','' \<and> c \<noteq> CHR ''%''"
  by (auto simp: is_space_def is_digit_def)

lemma Fields_cut: "is_space c \<Longrightarrow> Fields (a @ c # b) = Fields a @ Fields b"
  by (simp add: Fields_def split_on_cut)

lemma Fields_word: "w \<noteq> [] \<Longrightarrow> list_all (\<lambda>c. \<not> is_space c) w \<Longrightarrow> Fields w = [w]"
  by (simp add: Fields_def split_on_none list_all_iff)

lemma Fields_Nil [simp]: "Fields [] = []"
  by (simp add: Fields_def)

lemma Fields_skip [simp]: "is_space c \<Longrightarrow> Fields (c # s) = Fields s"
  using Fields_cut [of c "[]" s] by simp

lemma Fields_skip_right: "is_space c \<Longrightarrow> Fields (s @ [c]) = Fields s"
  using Fields_cut [of c s "[]"] by simp

lemma Fields_blanks [simp]: "Fields (replicate k (CHR '' '') @ s) = Fields s"
  by (induction k) (simp_all add: is_space_def)

lemma Fields_TrimSpace: "Fields (TrimSpace s) = Fields s"
proof -
  have left: "Fields (dropWhile is_space s) = Fields s" for s by (induction s) simp_all
  have "Fields (rev (dropWhile is_space (rev s))) = Fields s" for s
    by (induction s rule: rev_induct) (simp_all add: Fields_skip_right)
  with left show ?thesis by (simp add: TrimSpace_def TrimLeftSpace_def TrimRightBy_def)
qed

lemma progress_line_fields:
  "Fields (progress_line pad bytes gap pct rest) = with_commas bytes # (show_nat pct @ ''%'') # Fields rest"
proof -
  have ne: "with_commas bytes \<noteq> []" using commas_removed [of bytes] by (auto simp: ReplaceAll_def)
  have sp: "is_space (CHR '' '')" by (simp add: is_space_def)
  have "list_all (\<lambda>c. \<not> is_space c) (with_commas bytes)"
    using with_commas_chars space_not_digit unfolding list_all_iff by blast
  moreover have "list_all (\<lambda>c. \<not> is_space c) (show_nat pct @ ''%'')"
    using show_nat_chars space_not_digit by (fastforce simp: list_all_iff)
  ultimately show ?thesis
    using Fields_word [OF ne] Fields_word [of "show_nat pct @ ''%''"]
      Fields_cut [OF sp, of "with_commas bytes"] Fields_cut [OF sp, of "show_nat pct @ ''%''" rest]
    by (simp add: progress_line_def)
qed

section \<open>Properties\<close>

text \<open>C23: the calls of the progress callback do not depend on how the pipe cuts the output of
  \<open>rsync\<close> into chunks, not even inside a carriage return and line feed pair: for every way to
  cut it, as long as no line fills the scanner's buffer, they are the lines of the output
  that parse, in order.\<close>

theorem stream_chunking:
  assumes "list_all (\<lambda>l. length l < 65536) (output_lines (concat chunks))"
  shows "streamRsyncProgress chunks = progress_of (output_lines (concat chunks))"
  using scan_tokens_progress [of "[]" chunks] assms
  by (simp add: streamRsyncProgress_def progress_of_def max_token_def)

theorem stream_chunking_witness:
  "streamRsyncProgress [''  1,024  50%'' @ [CHR 0x0D], CHR 0x0A # ''2048 1'', ''00%'' @ [CHR 0x0D]] =
     [(1024, 2048), (2048, 2048)]"
proof -
  let ?cs = "[''  1,024  50%'' @ [CHR 0x0D], CHR 0x0A # ''2048 1'', ''00%'' @ [CHR 0x0D]]"
  have "concat ?cs = ''  1,024  50%'' @ CHR 0x0D # [] @ CHR 0x0A # ''2048 100%'' @ CHR 0x0D # []"
    by simp
  moreover have "output_lines \<dots> = output_lines ''  1,024  50%'' @ output_lines [] @ output_lines ''2048 100%''
      @ output_lines []"
    by (simp only: output_lines_append line_ends append.assoc)
  moreover have "output_lines ''  1,024  50%'' = [''  1,024  50%'']" "output_lines [] = [[]]"
    "output_lines ''2048 100%'' = [''2048 100%'']"
    by (rule output_lines_none, simp add: line_end_def)+
  ultimately have lines: "output_lines (concat ?cs) = [''  1,024  50%'', [], ''2048 100%'', []]" by simp
  have "streamRsyncProgress ?cs = progress_of [''  1,024  50%'', [], ''2048 100%'', []]"
    using stream_chunking [of ?cs] unfolding lines by simp
  moreover have t: "TrimSpace ''  1,024  50%'' = ''1,024  50%''" "TrimSpace ''2048 100%'' = ''2048 100%''"
    by code_simp+
  have f: "Fields ''1,024  50%'' = [''1,024'', ''50%'']" "Fields ''2048 100%'' = [''2048'', ''100%'']"
    by code_simp+
  have r: "ReplaceAll ''1,024'' (CHR '','') [] = ''1024''" "ReplaceAll ''2048'' (CHR '','') [] = ''2048''"
    "TrimSuffix ''50%'' ''%'' = ''50''" "TrimSuffix ''100%'' ''%'' = ''100''"
    by code_simp+
  have n: "ParseInt ''1024'' = Some 1024" "ParseInt ''2048'' = Some 2048" "ParseInt ''50'' = Some 50"
    "ParseInt ''100'' = Some 100"
    by (simp_all add: ParseInt_eval)
  have q: "quot64 (wrap64 102400) 50 = 2048" "quot64 (wrap64 204800) 100 = 2048"
    by (simp_all add: quot64_def wrap64_def)
  have "parseRsyncProgress ''  1,024  50%'' = Some (1024, 2048)"
    by (simp only: parseRsyncProgress_def Let_def t f) (simp add: r n q)
  moreover have "parseRsyncProgress ''2048 100%'' = Some (2048, 2048)"
    by (simp only: parseRsyncProgress_def Let_def t f) (simp add: r n q)
  ultimately show ?thesis by (simp add: progress_of_def List.map_filter_simps)
qed

text \<open>C24: a progress line of \<open>rsync\<close> is read back as the number of bytes it shows and a total
  which is that number divided by the percentage, rounded down; at 0% the total is unknown
  (0). The product with 100 must fit in \<open>int64\<close>.\<close>

theorem progress_line_read:
  assumes "int bytes * 100 \<le> 2 ^ 63 - 1" and "pct \<le> 100"
  shows "parseRsyncProgress (progress_line pad bytes gap pct rest) =
    Some (int bytes, if pct = 0 then 0 else int (bytes * 100 div pct))"
proof -
  let ?l = "progress_line pad bytes gap pct rest"
  have f: "Fields (TrimSpace ?l) = with_commas bytes # (show_nat pct @ ''%'') # Fields rest"
    by (simp add: Fields_TrimSpace progress_line_fields)
  then have ne: "TrimSpace ?l \<noteq> []" by (metis Fields_Nil list.distinct(1))
  have b64: "in_int64 (int bytes)" "in_int64 (int bytes * 100)" "in_int64 (int pct)"
    using assms by (simp_all add: in_int64_def min_int64_def max_int64_def)
  then have bytes: "ParseInt (ReplaceAll (with_commas bytes) (CHR '','') []) = Some (int bytes)"
    using commas_removed [of bytes] ParseInt_digits by simp
  have pct: "ParseInt (show_nat pct) = Some (int pct)"
    using ParseInt_digits [of "show_nat pct"] show_nat_digits b64 by simp
  have "quot64 (int bytes * 100) (int pct) = wrap64 (int bytes * 100 div int pct)"
    by (cases "bytes = 0"; cases "pct = 0") (simp_all add: quot64_def sgn_if)
  moreover have "in_int64 (int bytes * 100 div int pct)"
  proof -
    have "bytes * 100 div pct \<le> bytes * 100" by simp
    then have "int (bytes * 100 div pct) \<le> int bytes * 100" by linarith
    with assms(1) have "in_int64 (int (bytes * 100 div pct))"
      by (simp add: in_int64_def min_int64_def max_int64_def del: of_nat_div zdiv_int)
    then show ?thesis by (simp add: zdiv_int)
  qed
  ultimately have total: "quot64 (wrap64 (int bytes * 100)) (int pct) = int (bytes * 100 div pct)"
    using b64(2) by (simp add: zdiv_int)
  show ?thesis
    unfolding parseRsyncProgress_def Let_def f
    using ne bytes pct total by simp
qed

theorem progress_line_read_witness:
  "parseRsyncProgress (progress_line 4 1234567 2 42 ''10.00MB/s    0:00:01'') = Some (1234567, 2939445)"
  using progress_line_read [of 1234567 42 4 2 "''10.00MB/s    0:00:01''"] by simp

text \<open>C25: for a positive rate given as a binary fraction \<open>m / 2 ^ (k + 10)\<close> of MB/s, the
  argument \<open>--bwlimit\<close> passed to \<open>rsync\<close> is the rate in KiB/s rounded down; for every rate
  below one KiB/s this is 0, which \<open>rsync\<close> takes for no limit.\<close>

theorem bwlimit_rounds_down:
  assumes "0 < m" and "m < 2 ^ 53"
  shows "(''--bwlimit='' @ show_int (m div 2 ^ k)) \<in>
      set (nasRsyncArgs envv dataDir prev destDir nas (Finite m (- int k - 10)) excludes) \<and>
    (m < 2 ^ k \<longrightarrow> m div 2 ^ k = 0)"
proof -
  have "m div 2 ^ k \<le> m" using assms zdiv_mono2 [of m 1 "2 ^ k"] by simp
  moreover have "0 \<le> m div 2 ^ k" using assms by (simp add: pos_imp_zdiv_nonneg_iff)
  ultimately have "in_int64 (m div 2 ^ k)"
    using assms by (simp add: in_int64_def min_int64_def max_int64_def)
  moreover have "float_to_int (Finite m (- int k)) = (let i = m div 2 ^ k in if in_int64 i then i else min_int64)"
    using assms by (cases "k = 0") simp_all
  ultimately show ?thesis using assms by (simp add: nasRsyncArgs_def)
qed

theorem bwlimit_rounds_down_witness:
  "''--bwlimit=0'' \<in> set (nasRsyncArgs [] ''/data'' [] ''/nas'' (NAS DefaultConfig) (Finite 1 (- 11)) [])"
proof -
  have "''--bwlimit='' @ show_int (1 div 2 ^ 1) = ''--bwlimit=0''" by code_simp
  then show ?thesis
    using bwlimit_rounds_down [of 1 1 "[]" "''/data''" "[]" "''/nas''" "NAS DefaultConfig" "[]"] by simp
qed

end
