(* ===== verification/Rcon.thy ===== *)
theory Rcon
  imports Remote
begin

text \<open>
  \<open>internal/engine/rcon.go\<close>: commands to the Minecraft server through \<open>docker exec\<close>, with
  retries, the player count, and the password from the configuration or from
  \<open>server.properties\<close>.
\<close>

section \<open>Commands\<close>

definition rconCommand :: "string \<Rightarrow> string \<Rightarrow> string list" where
  "rconCommand container cmd = [''docker'', ''exec'', ''-e'', ''RCON_PASSWORD'', container, ''rcon-cli'', cmd]"

definition rcon_env :: "string \<Rightarrow> string list" where
  "rcon_env password = [''RCON_PASSWORD='' @ password]"

text \<open>The loop over the attempts left; \<open>ctx.Err()\<close> is \<^const>\<open>CtxCanceled\<close>.\<close>

fun rcon_attempts :: "ctx \<Rightarrow> string list \<Rightarrow> string list \<Rightarrow> error \<Rightarrow> nat \<Rightarrow> world \<Rightarrow> unit result \<times> world" where
  "rcon_attempts c args envv failed 0 w = (Inl failed, w)"
| "rcon_attempts c args envv failed (Suc k) w =
     (let ((ok, out), w) = run_cmd c args envv w
      in if ok then (Inr (), w)
         else (let (canceled, w) = wait_or_done c w
               in if canceled then (Inl CtxCanceled, w)
                  else rcon_attempts c args envv failed k w))"

definition rcon_failed :: "string \<Rightarrow> nat \<Rightarrow> error" where
  "rcon_failed command retries = Errorf ''rcon %q failed after %d retries'' [command, show_nat retries]"

definition runRcon :: "ctx \<Rightarrow> string \<Rightarrow> string \<Rightarrow> string \<Rightarrow> nat \<Rightarrow> world \<Rightarrow> unit result \<times> world" where
  "runRcon c container password command retries w =
     rcon_attempts c (rconCommand container command) (rcon_env password) (rcon_failed command retries) retries w"

definition rconRetries :: nat where "rconRetries = 5"

definition rconOutput :: "ctx \<Rightarrow> string \<Rightarrow> string \<Rightarrow> string \<Rightarrow> world \<Rightarrow> string result \<times> world" where
  "rconOutput c container password command w =
     (let ((ok, out), w) = run_cmd c (rconCommand container command) (rcon_env password) w
      in (if ok then Inr out else Inl CmdFailed, w))"

definition countPlayers :: "string \<Rightarrow> int" where
  "countPlayers out =
     (case Index out ''There are '' of
        None \<Rightarrow> - 1
      | Some i \<Rightarrow>
          (let rest = drop (i + length ''There are '') out
           in case Index rest '' of a max of '' of
                None \<Rightarrow> - 1
              | Some j \<Rightarrow> (case Atoi (TrimSpace (take j rest)) of None \<Rightarrow> - 1 | Some n \<Rightarrow> n)))"

section \<open>The password\<close>

text \<open>The lines \<open>bufio.Scanner\<close> delivers: the text after the last line feed counts if it is
  not empty, and a line that fills the buffer ends the scan. A carriage return before the line
  feed is white space to \<open>TrimSpace\<close>.\<close>

definition scan_lines :: "string \<Rightarrow> string list" where
  "scan_lines s =
     (let ls = Split s (CHR 0x0A)
      in takeWhile (\<lambda>l. length l < 65536) (if last ls = [] then butlast ls else ls))"

fun find_password :: "string list \<Rightarrow> string" where
  "find_password [] = []"
| "find_password (l # ls) =
     (let line = TrimSpace l
      in if line = [] \<or> HasPrefix line ''#'' \<or> HasPrefix line ''!'' then find_password ls
         else (let parts = SplitN line (CHR ''='') 2
               in if length parts = 2 \<and> TrimSpace (parts ! 0) = ''rcon.password''
                  then TrimSpace (parts ! 1) else find_password ls))"

definition readServerPropertiesPassword :: "string \<Rightarrow> world \<Rightarrow> string \<times> world" where
  "readServerPropertiesPassword dataDir w =
     (case os_ReadFile (path_join [dataDir, ''server.properties'']) w of
        (Inl _, w) \<Rightarrow> ([], w)
      | (Inr content, w) \<Rightarrow> (find_password (scan_lines content), w))"

definition data_dir :: "ServerConfig \<Rightarrow> WatchConfig \<Rightarrow> string \<Rightarrow> string" where
  "data_dir s w serverName =
     (if DataDir s = [] then path_join [Path w, serverName, ''mc-data''] else DataDir s)"

definition resolveRconPassword :: "ServerConfig \<Rightarrow> WatchConfig \<Rightarrow> string \<Rightarrow> world \<Rightarrow> string \<times> world" where
  "resolveRconPassword s wc serverName w =
     (if RconPassword s \<noteq> [] then (RconPassword s, w)
      else readServerPropertiesPassword (data_dir s wc serverName) w)"

interpretation password: system_call "resolveRconPassword s wc n" for s wc n
  by unfold_locales
    (simp_all add: resolveRconPassword_def readServerPropertiesPassword_def os_ReadFile_def split: option.split node.split)

lemma resolveRconPassword_fs [simp]: "w_fs (snd (resolveRconPassword s wc n w)) = w_fs w"
  by (simp add: resolveRconPassword_def readServerPropertiesPassword_def os_ReadFile_def split: option.split node.split)

section \<open>What a sequence of attempts leaves in the trace\<close>

definition rcon_events :: "ctx \<Rightarrow> string list \<Rightarrow> string list \<Rightarrow> nat \<Rightarrow> bool \<Rightarrow> event list" where
  "rcon_events c args envv j ok =
     replicate j (Exec c args envv False) @ (if ok then [Exec c args envv True] else [])"

lemma rcon_attempts_trace:
  "\<exists>j \<le> k. w_trace (snd (rcon_attempts c args envv failed k w)) =
      w_trace w @ rcon_events c args envv j (is_ok (fst (rcon_attempts c args envv failed k w))) \<and>
    w_env (snd (rcon_attempts c args envv failed k w)) = w_env w \<and>
    (case fst (rcon_attempts c args envv failed k w) of
       Inr _ \<Rightarrow> j < k
     | Inl e \<Rightarrow> e = CtxCanceled \<and> 0 < j \<or> e = failed \<and> j = k)"
proof (induction k arbitrary: w)
  case 0
  show ?case by (simp add: rcon_events_def)
next
  case (Suc k)
  obtain ok out w1 where run: "run_cmd c args envv w = ((ok, out), w1)"
    by (metis prod.exhaust)
  have w1: "w_trace w1 = w_trace w @ [Exec c args envv ok]" "w_env w1 = w_env w"
    using run_cmd_trace [of c args envv w] command.same_env [of c args envv w] run by simp_all
  show ?case
  proof (cases ok)
    case True
    then show ?thesis using run w1 by (intro exI [of _ 0]) (simp add: rcon_events_def)
  next
    case False
    obtain canceled w2 where wait: "wait_or_done c w1 = (canceled, w2)" by (metis prod.exhaust)
    have w2: "w_trace w2 = w_trace w1" "w_env w2 = w_env w1"
      using pause.quiet [of c w1] pause.same_env [of c w1] wait by simp_all
    show ?thesis
    proof (cases canceled)
      case True
      then show ?thesis using False run wait w1 w2 by (intro exI [of _ 1]) (simp add: rcon_events_def)
    next
      case go: False
      have eq: "rcon_attempts c args envv failed (Suc k) w = rcon_attempts c args envv failed k w2"
        using False go run wait by simp
      obtain j where j: "j \<le> k" "w_trace (snd (rcon_attempts c args envv failed k w2)) =
          w_trace w2 @ rcon_events c args envv j (is_ok (fst (rcon_attempts c args envv failed k w2)))"
        "w_env (snd (rcon_attempts c args envv failed k w2)) = w_env w2"
        "case fst (rcon_attempts c args envv failed k w2) of Inr _ \<Rightarrow> j < k
          | Inl e \<Rightarrow> e = CtxCanceled \<and> 0 < j \<or> e = failed \<and> j = k"
        using Suc.IH [of w2] by blast
      then show ?thesis
        unfolding eq using w1 w2 False
        by (intro exI [of _ "Suc j"]) (auto simp: rcon_events_def split: sum.splits)
    qed
  qed
qed

lemma runRcon_runs:
  assumes "runRcon c container password command retries w = (r, w')"
  shows "\<exists>j \<le> retries. runs w (rcon_events c (rconCommand container command) (rcon_env password) j (is_ok r)) w' \<and>
    (case r of Inr _ \<Rightarrow> j < retries
     | Inl e \<Rightarrow> e = CtxCanceled \<and> 0 < j \<or> e = rcon_failed command retries \<and> j = retries)"
  using rcon_attempts_trace [of retries c "rconCommand container command" "rcon_env password"
      "rcon_failed command retries" w] assms
  by (simp add: runRcon_def runs_def conj_assoc)

interpretation rcon: program_step "runRcon c container password command retries"
  for c container password command retries
proof
  fix w
  obtain j where "w_trace (snd (runRcon c container password command retries w)) = w_trace w @ j"
      "w_env (snd (runRcon c container password command retries w)) = w_env w"
    using rcon_attempts_trace [of retries c "rconCommand container command" "rcon_env password"
        "rcon_failed command retries" w]
    unfolding runRcon_def by blast
  then show "w_env (snd (runRcon c container password command retries w)) = w_env w"
    "prefix (w_trace w) (w_trace (snd (runRcon c container password command retries w)))" by auto
qed

section \<open>Properties\<close>

text \<open>C10: \<open>runRcon\<close> ends after at most the given number of attempts. What it runs is that command
  and nothing else, with the password in the environment: some failed attempts, and one last
  successful attempt exactly if it returns no error. It gives up either because its context
  is done, after at least one attempt, or because every attempt failed.\<close>

theorem runRcon_attempts:
  "\<exists>j \<le> retries.
     w_trace (snd (runRcon c container password command retries w)) =
       w_trace w @ replicate j (Exec c (rconCommand container command) [''RCON_PASSWORD='' @ password] False) @
       (case fst (runRcon c container password command retries w) of
          Inr _ \<Rightarrow> [Exec c (rconCommand container command) [''RCON_PASSWORD='' @ password] True] | Inl _ \<Rightarrow> []) \<and>
     (case fst (runRcon c container password command retries w) of
        Inr _ \<Rightarrow> j < retries
      | Inl e \<Rightarrow> e = CtxCanceled \<and> 0 < j \<or> e = rcon_failed command retries \<and> j = retries)"
  using rcon_attempts_trace [of retries c "rconCommand container command" "rcon_env password"
      "rcon_failed command retries" w]
  by (auto simp: runRcon_def rcon_events_def rcon_env_def split: sum.splits)

lemma Index_prefix: "Index (p @ s) p = Some 0"
  using HasPrefix_append [of p s] by (cases "p @ s") simp_all

lemma Index_skip:
  assumes "p \<noteq> []" and "hd p \<notin> set a"
  shows "Index (a @ p @ s) p = Some (length a)"
  using assms(2)
proof (induction a)
  case Nil
  show ?case using Index_prefix by simp
next
  case (Cons x a)
  then have "\<not> HasPrefix (x # a @ p @ s) p" using assms(1) by (cases p) (auto simp: HasPrefix_def)
  with Cons show ?case by simp
qed



end
