(* ===== verification/Prune.thy ===== *)
theory Prune
  imports Remote
begin

text \<open>
  \<open>internal/engine/prune.go\<close>: the retention of snapshots, in a local directory by count and
  by age, and on the NAS by remote commands. Removing goes through a list of names; what is
  left of the directory is stated for every choice of failing calls.
\<close>

section \<open>Definitions\<close>

text \<open>The loop \<open>for _, d := range dirs[keep:]\<close>; an error of \<open>RemoveAll\<close> is only logged.\<close>

fun remove_dirs :: "string \<Rightarrow> string list \<Rightarrow> world \<Rightarrow> world" where
  "remove_dirs localPath [] w = w"
| "remove_dirs localPath (d # ds) w =
     remove_dirs localPath ds (snd (os_RemoveAll (path_join [localPath, d]) w))"

definition pruneLocalByCount :: "string \<Rightarrow> int \<Rightarrow> world \<Rightarrow> world" where
  "pruneLocalByCount localPath keep w =
     (if keep \<le> 0 then w
      else (case os_ReadDir localPath w of
          (Inl _, w) \<Rightarrow> w
        | (Inr entries, w) \<Rightarrow>
            (let dirs = snapshot_names entries
             in if int (length dirs) \<le> keep then w
                else remove_dirs localPath (drop (nat keep) (rev (sort dirs))) w)))"

text \<open>The loop of \<open>pruneLocalByDays\<close>: \<open>entry.Info()\<close> looks the entry up again.\<close>

fun prune_before :: "location \<Rightarrow> string \<Rightarrow> int \<Rightarrow> (string \<times> bool) list \<Rightarrow> world \<Rightarrow> world" where
  "prune_before l localPath cutoff [] w = w"
| "prune_before l localPath cutoff ((n, d) # es) w =
     (if \<not> d \<or> \<not> isBackupDir n then prune_before l localPath cutoff es w
      else (case parse_stamp n of
          None \<Rightarrow> prune_before l localPath cutoff es w
        | Some c \<Rightarrow>
            (case os_Stat (path_join [localPath, n]) w of
               (Inl _, w) \<Rightarrow> prune_before l localPath cutoff es w
             | (Inr _, w) \<Rightarrow>
                 if \<not> of_civil l c < cutoff then prune_before l localPath cutoff es w
                 else prune_before l localPath cutoff es
                        (snd (os_RemoveAll (path_join [localPath, n]) w)))))"

definition pruneLocalByDays :: "string \<Rightarrow> int \<Rightarrow> int \<Rightarrow> world \<Rightarrow> world" where
  "pruneLocalByDays localPath days t w =
     (if days \<le> 0 then w
      else (case os_ReadDir localPath w of
          (Inl _, w) \<Rightarrow> w
        | (Inr entries, w) \<Rightarrow> prune_before (loc (w_env w)) localPath (days_cutoff t days) entries w))"

definition pruneNASByDays ::
  "ctx \<Rightarrow> NASConfig \<Rightarrow> string \<Rightarrow> string \<Rightarrow> string \<Rightarrow> int \<Rightarrow> world \<Rightarrow> unit result \<times> world" where
  "pruneNASByDays c nas destRoot namespace serverName days w =
     (if days \<le> 0 then (Inr (), w)
      else runSSH c nas (pruneNASByDaysCommand destRoot namespace serverName days) w)"

definition pruneNASByCount ::
  "ctx \<Rightarrow> NASConfig \<Rightarrow> string \<Rightarrow> string \<Rightarrow> string \<Rightarrow> int \<Rightarrow> world \<Rightarrow> unit result \<times> world" where
  "pruneNASByCount c nas destRoot namespace serverName keep w =
     (if keep \<le> 0 then (Inr (), w)
      else runSSH c nas (pruneNASByCountCommand destRoot namespace serverName keep) w)"

section \<open>Removing a list of directories\<close>

text \<open>A directory whose path is clean and absolute, so that the entries are its extensions.\<close>

definition proper_dir :: "string \<Rightarrow> bool" where
  "proper_dir p \<longleftrightarrow> (\<exists>cs. cs \<noteq> [] \<and> list_all ok_comp cs \<and> p = abs_path cs)"

lemma proper_dir_join:
  "proper_dir p \<Longrightarrow> ok_comp n \<Longrightarrow> path_join [p, n] = dir_prefix p @ n"
  by (auto simp: proper_dir_def path_join_child)

text \<open>How the file system may have changed: only below the given names, and completely if
  nothing failed.\<close>

definition removed_below :: "string \<Rightarrow> string set \<Rightarrow> string \<Rightarrow> bool" where
  "removed_below p N q \<longleftrightarrow> (\<exists>n\<in>N. under (dir_prefix p @ n) q)"

definition cut_below :: "string \<Rightarrow> string set \<Rightarrow> world \<Rightarrow> world \<Rightarrow> bool" where
  "cut_below p N w w' \<longleftrightarrow>
     w_env w' = w_env w \<and> w_trace w' = w_trace w \<and>
     (\<exists>gone. w_fs w' = cut_fs gone (w_fs w) \<and> (\<forall>q. gone q \<longrightarrow> removed_below p N q) \<and>
        (no_faults w \<longrightarrow> (\<forall>q. removed_below p N q \<longrightarrow> gone q)))"

lemma cut_below_fs:
  "w_env w' = w_env w \<Longrightarrow> w_trace w' = w_trace w \<Longrightarrow> w_fs w' = w_fs w \<Longrightarrow> cut_below p {} w w'"
  unfolding cut_below_def by (intro conjI exI [of _ "\<lambda>q. False"]) (auto simp: removed_below_def)

lemma cut_below_RemoveAll: "cut_below p {n} w (snd (os_RemoveAll (dir_prefix p @ n) w))"
proof -
  let ?gone = "\<lambda>q. under (dir_prefix p @ n) q \<and> \<not> (faulty w \<and> rm_survives (w_env w) (w_tick w) q)"
  have "w_fs (snd (os_RemoveAll (dir_prefix p @ n) w)) = cut_fs ?gone (w_fs w)" by (rule os_RemoveAll_fs)
  then show ?thesis
    unfolding cut_below_def by (intro conjI exI [of _ ?gone]) (auto simp: removed_below_def)
qed

lemma removed_below_Un: "removed_below p (N \<union> M) q \<longleftrightarrow> removed_below p N q \<or> removed_below p M q"
  by (auto simp: removed_below_def)

lemma cut_below_trans:
  assumes "cut_below p N w w'" and "cut_below p M w' w''"
  shows "cut_below p (N \<union> M) w w''"
proof -
  obtain g where g: "w_fs w' = cut_fs g (w_fs w)" "\<And>q. g q \<Longrightarrow> removed_below p N q"
      "\<And>q. no_faults w \<Longrightarrow> removed_below p N q \<Longrightarrow> g q"
    using assms(1) unfolding cut_below_def by blast
  obtain h where h: "w_fs w'' = cut_fs h (w_fs w')" "\<And>q. h q \<Longrightarrow> removed_below p M q"
      "\<And>q. no_faults w' \<Longrightarrow> removed_below p M q \<Longrightarrow> h q"
    using assms(2) unfolding cut_below_def by blast
  have env: "w_env w' = w_env w" "w_env w'' = w_env w" "w_trace w'' = w_trace w"
    using assms by (simp_all add: cut_below_def)
  then have nf: "no_faults w \<Longrightarrow> no_faults w'" by (simp add: no_faults_env)
  have "w_fs w'' = cut_fs (\<lambda>q. g q \<or> h q) (w_fs w)" by (simp add: g(1) h(1))
  moreover have "\<forall>q. (g q \<or> h q) \<longrightarrow> removed_below p (N \<union> M) q"
    using g(2) h(2) removed_below_Un by blast
  moreover have "no_faults w \<longrightarrow> (\<forall>q. removed_below p (N \<union> M) q \<longrightarrow> g q \<or> h q)"
    using g(3) h(3) nf removed_below_Un by blast
  ultimately show ?thesis unfolding cut_below_def using env by blast
qed

lemma cut_below_remove_dirs:
  assumes "proper_dir p" and "list_all ok_comp ds"
  shows "cut_below p (set ds) w (remove_dirs p ds w)"
  using assms(2)
proof (induction ds arbitrary: w)
  case Nil
  show ?case by (simp add: cut_below_fs)
next
  case (Cons d ds)
  then have "path_join [p, d] = dir_prefix p @ d" using assms(1) by (simp add: proper_dir_join)
  then have "cut_below p {d} w (snd (os_RemoveAll (path_join [p, d]) w))"
    using cut_below_RemoveAll [of p d w] by simp
  from cut_below_trans [OF this Cons.IH] Cons.prems show ?case by simp
qed

text \<open>What is listed afterwards.\<close>

lemma removed_below_child:
  assumes "entry_name m" and "\<forall>n\<in>N. entry_name n"
  shows "removed_below p N (dir_prefix p @ m) \<longleftrightarrow> m \<in> N"
  using assms under_child_iff by (auto simp: removed_below_def)

lemma cut_below_listing:
  assumes "cut_below p N w w'" and "no_faults w" and "\<forall>n\<in>N. entry_name n"
  shows "snapshot_names (dir_entries (w_fs w') p) =
    filter (\<lambda>m. m \<notin> N) (snapshot_names (dir_entries (w_fs w) p))"
proof -
  obtain gone where fs: "w_fs w' = cut_fs gone (w_fs w)" and g: "gone = removed_below p N"
    using assms(1,2) unfolding cut_below_def by fast
  have "gone (dir_prefix p @ m) \<longleftrightarrow> m \<in> N" if "entry_name m" for m
    unfolding g using removed_below_child [OF that assms(3)] .
  then have "dir_entries (cut_fs gone (w_fs w)) p = filter (\<lambda>(m, _). m \<notin> N) (dir_entries (w_fs w) p)"
    by (rule dir_entries_cut)
  then show ?thesis by (simp add: fs snapshot_names_filter)
qed

lemma cut_below_kept:
  "cut_below p N w w' \<Longrightarrow> \<not> removed_below p N q \<Longrightarrow> map_of (w_fs w') q = map_of (w_fs w) q"
  by (auto simp: cut_below_def)

lemma cut_below_gone:
  "cut_below p N w w' \<Longrightarrow> no_faults w \<Longrightarrow> removed_below p N q \<Longrightarrow> map_of (w_fs w') q = None"
  by (auto simp: cut_below_def)

section \<open>By count\<close>

lemma snapshot_names_ok: "list_all ok_comp (snapshot_names es)"
  by (auto simp: list_all_iff set_snapshot_names intro: isBackupDir_ok_comp)

lemma rev_sort_drop: "sorted xs \<Longrightarrow> drop k (rev (sort xs)) = rev (take (length xs - k) xs)"
  by (simp add: sorted_sort_id drop_rev)

definition old_snapshots :: "string \<Rightarrow> int \<Rightarrow> fs \<Rightarrow> string list" where
  "old_snapshots p keep f =
     (let ns = snapshot_names (dir_entries f p) in take (length ns - nat keep) ns)"

lemma pruneLocalByCount_cuts:
  assumes "proper_dir p" and "0 < keep" and "no_faults w \<longrightarrow> is_dir (w_fs w) p"
  shows "\<exists>N. N \<subseteq> set (old_snapshots p keep (w_fs w)) \<and>
    (no_faults w \<longrightarrow> N = set (old_snapshots p keep (w_fs w))) \<and>
    cut_below p N w (pruneLocalByCount p keep w)"
proof -
  let ?es = "dir_entries (w_fs w) p"
  obtain r w1 where read: "os_ReadDir p w = (r, w1)" by (cases "os_ReadDir p w")
  have same: "cut_below p {} w w1"
    using cut_below_fs [of "snd (os_ReadDir p w)" w p] by (simp only: readdir.same_env readdir.quiet reads_keep_fs) (simp add: read)
  show ?thesis
  proof (cases r)
    case (Inl e)
    then have "\<not> no_faults w"
      using read assms(3) by (auto simp: os_ReadDir_def split: if_splits)
    moreover have "pruneLocalByCount p keep w = w1"
      using assms(2) read Inl by (simp add: pruneLocalByCount_def)
    ultimately show ?thesis using same by (intro exI [of _ "{}"]) simp
  next
    case (Inr es)
    then have es: "es = ?es" using read by (auto simp: os_ReadDir_def split: if_splits)
    have run: "pruneLocalByCount p keep w = remove_dirs p (rev (old_snapshots p keep (w_fs w))) w1"
      using assms(2) read
      by (simp add: pruneLocalByCount_def Inr es old_snapshots_def rev_sort_drop Let_def)
    have "list_all ok_comp (rev (old_snapshots p keep (w_fs w)))"
      using snapshot_names_ok [of ?es] by (auto simp: old_snapshots_def Let_def list_all_iff dest: in_set_takeD)
    from cut_below_trans [OF same cut_below_remove_dirs [OF assms(1) this, of w1]]
    show ?thesis unfolding run by (intro exI [of _ "set (old_snapshots p keep (w_fs w))"]) simp
  qed
qed

lemma filter_not_take:
  "distinct xs \<Longrightarrow> filter (\<lambda>m. m \<notin> set (take k xs)) xs = drop k xs"
proof -
  assume d: "distinct xs"
  have "filter (\<lambda>m. m \<notin> set (take k xs)) (take k xs @ drop k xs) = drop k xs"
    using set_take_disj_set_drop_if_distinct [OF d, of k k]
    by (subst filter_append) (auto intro!: filter_True)
  then show ?thesis by simp
qed

section \<open>By age\<close>

definition expired_name :: "location \<Rightarrow> int \<Rightarrow> string \<Rightarrow> bool" where
  "expired_name l cutoff n = (case parse_stamp n of None \<Rightarrow> False | Some c \<Rightarrow> of_civil l c < cutoff)"

definition expired :: "location \<Rightarrow> int \<Rightarrow> (string \<times> bool) list \<Rightarrow> string list" where
  "expired l cutoff es = filter (expired_name l cutoff) (snapshot_names es)"

definition listed :: "fs \<Rightarrow> string \<Rightarrow> (string \<times> bool) list \<Rightarrow> bool" where
  "listed f p es \<longleftrightarrow> distinct (List.map fst es) \<and>
     (\<forall>(n, d) \<in> set es. entry_name n \<and> map_of f (dir_prefix p @ n) \<noteq> None)"

lemma expired_simps [simp]:
  "expired l cutoff [] = []"
  "expired l cutoff ((n, d) # es) =
     (if d \<and> isBackupDir n \<and> expired_name l cutoff n then [n] else []) @ expired l cutoff es"
  by (simp_all add: expired_def snapshot_names_def)

lemma listed_Cons: "listed f p (e # es) \<Longrightarrow> listed f p es"
  by (simp add: listed_def)

lemma listed_same_fs: "listed f p es \<Longrightarrow> f' = f \<Longrightarrow> listed f' p es"
  by simp

lemma listed_removed:
  assumes "listed (w_fs w) p ((n, d) # es)" and "cut_below p {n} w w'"
  shows "listed (w_fs w') p es"
proof -
  have "\<not> removed_below p {n} (dir_prefix p @ m)" if "(m, e) \<in> set es" for m e
    using assms(1) that removed_below_child [of m "{n}" p] by (force simp: listed_def)
  then have "map_of (w_fs w') (dir_prefix p @ m) = map_of (w_fs w) (dir_prefix p @ m)"
    if "(m, e) \<in> set es" for m e
    using that cut_below_kept [OF assms(2)] by blast
  with assms(1) show ?thesis by (fastforce simp: listed_def)
qed

lemma cut_below_Stat: "cut_below p {} w (snd (os_Stat q w))"
  by (rule cut_below_fs) simp_all

definition cuts_within :: "string \<Rightarrow> string list \<Rightarrow> world \<Rightarrow> world \<Rightarrow> bool" where
  "cuts_within p ns w w' \<longleftrightarrow>
     (\<exists>N. N \<subseteq> set ns \<and> (no_faults w \<longrightarrow> N = set ns) \<and> cut_below p N w w')"

lemma cuts_withinI: "cut_below p (set ns) w w' \<Longrightarrow> cuts_within p ns w w'"
  by (auto simp: cuts_within_def)

lemma cuts_within_step:
  assumes "cut_below p N w w1" and "N \<subseteq> set ms" and "no_faults w \<longrightarrow> N = set ms"
    and "cuts_within p ns w1 w2"
  shows "cuts_within p (ms @ ns) w w2"
proof -
  obtain M where M: "M \<subseteq> set ns" "no_faults w1 \<longrightarrow> M = set ns" "cut_below p M w1 w2"
    using assms(4) by (auto simp: cuts_within_def)
  moreover have "no_faults w \<longrightarrow> no_faults w1"
    using assms(1) no_faults_env by (auto simp: cut_below_def)
  ultimately show ?thesis
    using cut_below_trans [OF assms(1) M(3)] assms(2,3)
    unfolding cuts_within_def by (intro exI [of _ "N \<union> M"]) auto
qed

lemma prune_before_cuts:
  assumes "proper_dir p" and "listed (w_fs w) p es"
  shows "cuts_within p (expired l cutoff es) w (prune_before l p cutoff es w)"
  using assms(2)
proof (induction es arbitrary: w)
  case Nil
  show ?case by (simp add: cuts_withinI cut_below_fs)
next
  case (Cons e es)
  obtain n d where e: "e = (n, d)" by (cases e)
  have tail: "cuts_within p (expired l cutoff es) w (prune_before l p cutoff es w)"
    using Cons.IH [OF listed_Cons [OF Cons.prems]] .
  show ?case
  proof (cases "d \<and> isBackupDir n \<and> parse_stamp n \<noteq> None")
    case False
    then show ?thesis using tail by (auto simp: e expired_name_def)
  next
    case True
    then obtain c where c: "parse_stamp n = Some c" by auto
    obtain r w1 where stat: "os_Stat (path_join [p, n]) w = (r, w1)" by (cases "os_Stat (path_join [p, n]) w")
    have w1: "w1 = snd (os_Stat (path_join [p, n]) w)" by (simp add: stat)
    have same: "cut_below p {} w w1" unfolding w1 by (rule cut_below_Stat)
    have path: "path_join [p, n] = dir_prefix p @ n"
      using True assms(1) isBackupDir_ok_comp proper_dir_join by blast
    have l1: "listed (w_fs w1) p (e # es)"
      using Cons.prems unfolding w1 by simp
    have here: "map_of (w_fs w) (dir_prefix p @ n) \<noteq> None"
      using Cons.prems by (auto simp: e listed_def)
    have rest: "cuts_within p (expired l cutoff es) w1 (prune_before l p cutoff es w1)"
      by (rule Cons.IH [OF listed_Cons [OF l1]])
    show ?thesis
    proof (cases r)
      case (Inl err)
      have "\<not> no_faults w"
      proof
        assume "no_faults w"
        with Inl stat here show False
          by (auto simp: os_Stat_def path split: if_splits option.splits)
      qed
      then show ?thesis
        using cuts_within_step [OF same, of "if d \<and> isBackupDir n \<and> expired_name l cutoff n then [n] else []"] rest True
        by (simp add: e c stat Inl)
    next
      case (Inr nd)
      show ?thesis
      proof (cases "of_civil l c < cutoff")
        case False
        then show ?thesis
          using cuts_within_step [OF same, of "[]"] rest True
          by (simp add: e c stat Inr expired_name_def)
      next
        case old: True
        let ?w2 = "snd (os_RemoveAll (path_join [p, n]) w1)"
        have cut: "cut_below p {n} w1 ?w2" unfolding path by (rule cut_below_RemoveAll)
        have "listed (w_fs ?w2) p es" using listed_removed [OF l1 [unfolded e] cut] .
        note rest2 = Cons.IH [OF this]
        have cut': "cut_below p {n} w ?w2" using cut_below_trans [OF same cut] by simp
        show ?thesis
          using cuts_within_step [OF cut' _ _ rest2, of "[n]"] True old
          by (simp add: e c stat Inr expired_name_def)
      qed
    qed
  qed
qed

lemma dir_entries_listed:
  assumes "map_ok f"
  shows "listed f p (dir_entries f p)"
proof -
  have "distinct (List.map fst (dir_entries f p))"
    using assms by (rule dir_entries_distinct)
  moreover have "entry_name n \<and> map_of f (dir_prefix p @ n) \<noteq> None"
    if "(n, d) \<in> set (dir_entries f p)" for n d
    using that by (simp add: dir_entries_names map_of_eq_None_iff)
  ultimately show ?thesis by (auto simp: listed_def)
qed

lemma pruneLocalByDays_cuts:
  assumes "proper_dir p" and "0 < days" and "no_faults w \<longrightarrow> is_dir (w_fs w) p" and "map_ok (w_fs w)"
  shows "cuts_within p (expired (loc (w_env w)) (days_cutoff t days) (dir_entries (w_fs w) p)) w
    (pruneLocalByDays p days t w)"
proof -
  let ?es = "dir_entries (w_fs w) p"
  obtain r w1 where read: "os_ReadDir p w = (r, w1)" by (cases "os_ReadDir p w")
  have w1: "w1 = snd (os_ReadDir p w)" by (simp add: read)
  have same: "cut_below p {} w w1" unfolding w1 by (rule cut_below_fs) simp_all
  show ?thesis
  proof (cases r)
    case (Inl e)
    then have "\<not> no_faults w"
      using read assms(3) by (auto simp: os_ReadDir_def split: if_splits)
    moreover have "pruneLocalByDays p days t w = w1"
      using assms(2) read Inl by (simp add: pruneLocalByDays_def)
    ultimately show ?thesis using same unfolding cuts_within_def by (intro exI [of _ "{}"]) simp
  next
    case (Inr es)
    then have es: "es = ?es" using read by (auto simp: os_ReadDir_def split: if_splits)
    have env: "w_env w1 = w_env w" "w_fs w1 = w_fs w" unfolding w1 by simp_all
    have run: "pruneLocalByDays p days t w = prune_before (loc (w_env w)) p (days_cutoff t days) ?es w1"
      using assms(2) read by (simp add: pruneLocalByDays_def Inr es env)
    have "listed (w_fs w1) p ?es" using dir_entries_listed [OF assms(4)] env by simp
    from prune_before_cuts [OF assms(1) this] cuts_within_step [OF same, of "[]"]
    show ?thesis unfolding run by simp
  qed
qed

section \<open>Properties\<close>

text \<open>The file system of the witnesses.\<close>

definition demo_fs :: fs where
  "demo_fs = [(''/b'', DirNode), (''/b/20260101-0000'', DirNode), (''/b/20260101-0000/w'', FileNode ''x'' 420),
     (''/b/20260103-0000'', DirNode), (''/b/20260102-0000'', DirNode), (''/b/keep'', DirNode)]"

lemma demo_dir: "proper_dir ''/b''" "map_ok demo_fs" "is_dir demo_fs ''/b''" "no_faults (quiet_world f)"
    "w_fs (quiet_world f) = f" "w_env (quiet_world f) = quiet_env"
  by (auto simp: proper_dir_def ok_comp_def map_ok_def demo_fs_def is_dir_def no_faults_def quiet_world_def
      quiet_env_def intro!: exI [of _ "[''b'']"])

lemma demo_names: "snapshot_names (dir_entries demo_fs ''/b'') =
    [''20260101-0000'', ''20260102-0000'', ''20260103-0000'']"
  by code_simp

text \<open>C6: pruning by count never touches anything but the trees of the oldest snapshots in excess
  of the number kept, whichever calls fail, and runs no command; if no call fails, exactly
  the newest snapshots are left, and nothing of the others. The names removed are smaller
  than all the names kept.\<close>

theorem prune_count_keeps_newest:
  assumes "proper_dir p" and "map_ok (w_fs w)" and "is_dir (w_fs w) p" and "0 < keep"
  shows "let ns = snapshot_names (dir_entries (w_fs w) p);
             old = take (length ns - nat keep) ns; new = drop (length ns - nat keep) ns;
             w' = pruneLocalByCount p keep w
    in w_trace w' = w_trace w \<and>
       (\<forall>q. (\<forall>n \<in> set old. \<not> under (dir_prefix p @ n) q) \<longrightarrow> map_of (w_fs w') q = map_of (w_fs w) q) \<and>
       (no_faults w \<longrightarrow> snapshot_names (dir_entries (w_fs w') p) = new \<and>
          (\<forall>n \<in> set old. map_of (w_fs w') (dir_prefix p @ n) = None)) \<and>
       (\<forall>a \<in> set old. \<forall>b \<in> set new. a < b)"
proof -
  define ns where "ns = snapshot_names (dir_entries (w_fs w) p)"
  define old where "old = take (length ns - nat keep) ns"
  define w' where "w' = pruneLocalByCount p keep w"
  have old: "old_snapshots p keep (w_fs w) = old" by (simp add: old_snapshots_def old_def ns_def Let_def)
  obtain N where N: "N \<subseteq> set old" "no_faults w \<longrightarrow> N = set old" "cut_below p N w w'"
    using pruneLocalByCount_cuts [OF assms(1,4), of w] assms(3) unfolding old w'_def by blast
  have dist: "distinct ns" "sorted ns" using assms(2) by (simp_all add: ns_def)
  have ent: "\<forall>n \<in> set old. entry_name n"
    using snapshot_names_ok ok_comp_entry_name unfolding old_def ns_def list_all_iff by (meson in_set_takeD)
  have 1: "w_trace w' = w_trace w" using N(3) by (simp add: cut_below_def)
  have 2: "map_of (w_fs w') q = map_of (w_fs w) q" if "\<forall>n \<in> set old. \<not> under (dir_prefix p @ n) q" for q
    using N(1) that cut_below_kept [OF N(3), of q] by (auto simp: removed_below_def)
  have 3: "snapshot_names (dir_entries (w_fs w') p) = drop (length ns - nat keep) ns"
    "\<forall>n \<in> set old. map_of (w_fs w') (dir_prefix p @ n) = None" if nf: "no_faults w"
  proof -
    from N nf have cut: "cut_below p (set old) w w'" by simp
    show "snapshot_names (dir_entries (w_fs w') p) = drop (length ns - nat keep) ns"
      using cut_below_listing [OF cut nf ent] filter_not_take [OF dist(1)] by (simp add: ns_def old_def)
    show "\<forall>n \<in> set old. map_of (w_fs w') (dir_prefix p @ n) = None"
      using ent removed_below_child by (intro ballI cut_below_gone [OF cut nf]) blast
  qed
  have 4: "\<forall>a \<in> set old. \<forall>b \<in> set (drop (length ns - nat keep) ns). a < b"
  proof (intro ballI)
    fix a b
    assume ab: "a \<in> set old" "b \<in> set (drop (length ns - nat keep) ns)"
    then have "a \<le> b" unfolding old_def by (rule sorted_take_le_drop [OF dist(2)])
    moreover have "a \<noteq> b"
      using ab set_take_disj_set_drop_if_distinct [OF dist(1), of "length ns - nat keep" "length ns - nat keep"]
      unfolding old_def by auto
    ultimately show "a < b" by simp
  qed
  show ?thesis
    unfolding Let_def ns_def [symmetric] old_def [symmetric] w'_def [symmetric]
    using 1 2 3 4 by blast
qed

theorem prune_count_keeps_newest_witness:
  "snapshot_names (dir_entries (w_fs (pruneLocalByCount ''/b'' 2 (quiet_world demo_fs))) ''/b'') =
     [''20260102-0000'', ''20260103-0000'']"
  using prune_count_keeps_newest [of "''/b''" "quiet_world demo_fs" 2] demo_dir demo_names
  by (simp add: Let_def)

text \<open>C7: pruning by age with up to 106751 days removes, if no call fails, exactly the snapshots
  whose minute is a real date older than that many times 24 hours before now, and in any
  case nothing else: directories that are no snapshots, snapshots with impossible dates and
  files of other trees stay, and no command is run.\<close>

theorem prune_days_exact:
  assumes "proper_dir p" and "map_ok (w_fs w)" and "is_dir (w_fs w) p" and "0 < days" and "days \<le> 106751"
  shows "let ns = snapshot_names (dir_entries (w_fs w) p);
             old = (\<lambda>n. \<exists>c. parse_stamp n = Some c \<and>
                of_civil (loc (w_env w)) c < t - days * 86400 * 1000000000);
             w' = pruneLocalByDays p days t w
    in w_trace w' = w_trace w \<and>
       (\<forall>q. (\<forall>n \<in> set ns. old n \<longrightarrow> \<not> under (dir_prefix p @ n) q) \<longrightarrow>
          map_of (w_fs w') q = map_of (w_fs w) q) \<and>
       (no_faults w \<longrightarrow> snapshot_names (dir_entries (w_fs w') p) = filter (\<lambda>n. \<not> old n) ns)"
proof -
  define ns where "ns = snapshot_names (dir_entries (w_fs w) p)"
  define old where "old = (\<lambda>n. \<exists>c. parse_stamp n = Some c \<and>
      of_civil (loc (w_env w)) c < t - days * 86400 * 1000000000)"
  define w' where "w' = pruneLocalByDays p days t w"
  have range: "in_int64 (- days)" "in_int64 (- days * 24)" "in_int64 (- days * 24 * 3600000000000)"
    using assms(4,5) by (simp_all add: in_int64_def min_int64_def max_int64_def)
  then have cutoff: "days_cutoff t days = t - days * 86400 * 1000000000"
    by (simp add: days_cutoff_def days_duration_def nanos_per_hour_def nanos_per_minute_def nanos_per_second_def)
  have name: "expired_name (loc (w_env w)) (days_cutoff t days) n = old n" for n
    by (auto simp: expired_name_def old_def cutoff split: option.splits)
  have exp: "expired (loc (w_env w)) (days_cutoff t days) (dir_entries (w_fs w) p) = filter old ns"
    using name by (auto simp: expired_def ns_def intro: filter_cong)
  obtain N where N: "N \<subseteq> set (filter old ns)" "no_faults w \<longrightarrow> N = set (filter old ns)" "cut_below p N w w'"
    using pruneLocalByDays_cuts [OF assms(1,4), of w t] assms(2,3) unfolding exp w'_def cuts_within_def by blast
  have ent: "\<forall>n \<in> set (filter old ns). entry_name n"
    using snapshot_names_ok ok_comp_entry_name unfolding ns_def list_all_iff by auto
  have 1: "w_trace w' = w_trace w" using N(3) by (simp add: cut_below_def)
  have 2: "map_of (w_fs w') q = map_of (w_fs w) q" if "\<forall>n \<in> set ns. old n \<longrightarrow> \<not> under (dir_prefix p @ n) q" for q
    using N(1) that cut_below_kept [OF N(3), of q] by (auto simp: removed_below_def)
  have 3: "snapshot_names (dir_entries (w_fs w') p) = filter (\<lambda>n. \<not> old n) ns" if nf: "no_faults w"
  proof -
    from N nf have "cut_below p (set (filter old ns)) w w'" by simp
    from cut_below_listing [OF this nf ent] show ?thesis by (auto simp: ns_def intro: filter_cong)
  qed
  show ?thesis
    unfolding Let_def ns_def [symmetric] old_def [symmetric] w'_def [symmetric]
    using 1 2 3 by blast
qed

theorem prune_days_exact_witness:
  "snapshot_names (dir_entries (w_fs (pruneLocalByDays ''/b'' 1
      (fixed_instant 0 (Civil 2026 1 3 12 0)) (quiet_world demo_fs))) ''/b'') = [''20260103-0000'']"
proof -
  let ?t = "fixed_instant 0 (Civil 2026 1 3 12 0)"
  have parsed: "parse_stamp ''20260101-0000'' = Some (Civil 2026 1 1 0 0)"
    "parse_stamp ''20260102-0000'' = Some (Civil 2026 1 2 0 0)"
    "parse_stamp ''20260103-0000'' = Some (Civil 2026 1 3 0 0)"
    by code_simp+
  have instants: "fixed_instant 0 (Civil 2026 1 1 0 0) < ?t - 86400 * 1000000000"
    "fixed_instant 0 (Civil 2026 1 2 0 0) < ?t - 86400 * 1000000000"
    "\<not> fixed_instant 0 (Civil 2026 1 3 0 0) < ?t - 86400 * 1000000000"
    by code_simp+
  show ?thesis
    using prune_days_exact [of "''/b''" "quiet_world demo_fs" 1 ?t] demo_dir demo_names parsed instants
    by (simp add: Let_def quiet_env_def)
qed



end
