(* ===== verification/Backup.thy ===== *)
theory Backup
  imports Rcon Prune
begin

text \<open>
  \<open>internal/engine/backup.go\<close>: \<open>BackupServer\<close>, one backup of one server, and
  \<open>offloadSnapshot\<close>, the transfer of a hot snapshot to its cold place. Besides its result an
  operation returns the calls of the progress callback, in order; the callers hand them to
  the job tracker.
\<close>

section \<open>One backup\<close>

record backupResult =
  destination :: string
  timestamp :: string
  target :: string
  offloadPending :: bool

type_synonym progress = "(int \<times> int) list"

definition container_of :: "ServerConfig \<Rightarrow> string \<Rightarrow> string" where
  "container_of server serverName =
     (if ContainerName server = [] then serverName @ ''-mc-1'' else ContainerName server)"

text \<open>The three branches of the \<open>switch\<close> over the target, with the time stamp taken before.\<close>

definition backup_nas ::
  "Config \<Rightarrow> WatchConfig \<Rightarrow> string \<Rightarrow> string \<Rightarrow> string list \<Rightarrow> string \<Rightarrow> string \<Rightarrow> world
     \<Rightarrow> (backupResult result \<times> progress) \<times> world" where
  "backup_nas cfg watch serverName dataDir excludes prevNASBackup ts w =
     (case checkNASReady CycleCtx (NAS cfg) w of
        (Inl e, w) \<Rightarrow> ((Inl (Wrapf ''NAS not ready'' e), []), w)
      | (Inr _, w) \<Rightarrow>
          (let destDir = server_dir (NASDestRoot (NAS cfg)) (Namespace watch) serverName @ ''/'' @ ts;
               parent = before_last_slash destDir
           in case ensureNASDir CycleCtx (NAS cfg) parent w of
                (Inl e, w) \<Rightarrow> ((Inl (Wrapf ''create NAS dir'' e), []), w)
              | (Inr _, w) \<Rightarrow>
                  (case runRsync CycleCtx (nasRsyncArgs (env_vars (w_env w)) dataDir prevNASBackup destDir (NAS cfg)
                          (MaxMBps (Global cfg)) excludes) w of
                     ((Inl e, pg), w) \<Rightarrow> ((Inl (Wrapf ''NAS rsync'' e), pg), w)
                   | ((Inr _, pg), w) \<Rightarrow>
                       ((Inr \<lparr>destination = destDir, timestamp = ts, target = ''nas'', offloadPending = False\<rparr>, pg), w))))"

definition backup_local ::
  "Config \<Rightarrow> WatchConfig \<Rightarrow> string \<Rightarrow> string \<Rightarrow> string list \<Rightarrow> string \<Rightarrow> string \<Rightarrow> world
     \<Rightarrow> (backupResult result \<times> progress) \<times> world" where
  "backup_local cfg watch serverName dataDir excludes prevLocalBackup ts w =
     (let destPath = path_join [LocalDestRoot (Local cfg), Namespace watch, serverName, ts]
      in case os_MkdirAll destPath w of
           (Inl e, w) \<Rightarrow> ((Inl (Wrapf ''local mkdir'' e), []), w)
         | (Inr _, w) \<Rightarrow>
             (case runRsync CycleCtx (localRsyncArgs dataDir prevLocalBackup destPath excludes) w of
                ((Inl e, pg), w) \<Rightarrow> ((Inl (Wrapf ''local rsync'' e), pg), w)
              | ((Inr _, pg), w) \<Rightarrow>
                  ((Inr \<lparr>destination = destPath, timestamp = ts, target = ''local'', offloadPending = False\<rparr>, pg), w)))"

definition backup_tiered ::
  "Config \<Rightarrow> WatchConfig \<Rightarrow> string \<Rightarrow> string \<Rightarrow> string \<Rightarrow> string list \<Rightarrow> string \<Rightarrow> string \<Rightarrow> world
     \<Rightarrow> (backupResult result \<times> progress) \<times> world" where
  "backup_tiered cfg watch serverName tgt dataDir excludes prevHotBackup ts w =
     (let hotDir = path_join [HotRoot (Local cfg), Namespace watch, serverName];
          inProgressPath = path_join [hotDir, ts @ ''.inprogress''];
          finalPath = path_join [hotDir, ts];
          (_, w) = os_RemoveAll inProgressPath w
      in case os_MkdirAll hotDir w of
           (Inl e, w) \<Rightarrow> ((Inl (Wrapf ''hot mkdir'' e), []), w)
         | (Inr _, w) \<Rightarrow>
        (case os_MkdirAll inProgressPath w of
           (Inl e, w) \<Rightarrow> ((Inl (Wrapf ''hot inprogress mkdir'' e), []), w)
         | (Inr _, w) \<Rightarrow>
        (case runRsync CycleCtx (localRsyncArgs dataDir prevHotBackup inProgressPath excludes) w of
           ((Inl e, pg), w) \<Rightarrow>
             (let (_, w) = os_RemoveAll inProgressPath w in ((Inl (Wrapf ''hot rsync'' e), pg), w))
         | ((Inr _, pg), w) \<Rightarrow>
        (case os_Rename inProgressPath finalPath w of
           (Inl e, w) \<Rightarrow>
             (let (_, w) = os_RemoveAll inProgressPath w in ((Inl (Wrapf ''hot rename'' e), pg), w))
         | (Inr _, w) \<Rightarrow>
             ((Inr \<lparr>destination = finalPath, timestamp = ts, target = tgt, offloadPending = True\<rparr>, pg), w)))))"

text \<open>Everything between saving and re-enabling autosave.\<close>

definition backup_transfer ::
  "Config \<Rightarrow> WatchConfig \<Rightarrow> string \<Rightarrow> ServerConfig \<Rightarrow> string \<Rightarrow> string \<Rightarrow> string \<Rightarrow> string \<Rightarrow> world
     \<Rightarrow> (backupResult result \<times> progress) \<times> world" where
  "backup_transfer cfg watch serverName server tgt prevHot prevLocal prevNAS w =
     (let dataDir = data_dir server watch serverName;
          excludes = ResolveServerExcludes cfg server;
          w = runSync CycleCtx w;
          (ts, w) = now_stamp w
      in if tgt = ''nas'' then backup_nas cfg watch serverName dataDir excludes prevNAS ts w
         else if tgt = ''local'' then backup_local cfg watch serverName dataDir excludes prevLocal ts w
         else if tgt = ''tiered-local'' \<or> tgt = ''tiered-nas''
         then backup_tiered cfg watch serverName tgt dataDir excludes prevHot ts w
         else ((Inl (Errorf ''unsupported backup target %q'' [tgt]), []), w))"

text \<open>The deferred \<open>save-on\<close>: its failure becomes the result unless there is an error already.\<close>

definition save_on ::
  "string \<Rightarrow> string \<Rightarrow> (backupResult result \<times> progress) \<times> world \<Rightarrow> (backupResult result \<times> progress) \<times> world" where
  "save_on container rconPass rw =
     (let ((r, pg), w) = rw
      in case runRcon DetachedCtx container rconPass ''save-on'' rconRetries w of
           (Inr _, w) \<Rightarrow> ((r, pg), w)
         | (Inl e, w) \<Rightarrow>
             ((case r of Inr _ \<Rightarrow> Inl (Wrapf ''FATAL: save-on failed for %s'' e) | Inl e' \<Rightarrow> Inl e', pg), w))"

definition BackupServer ::
  "Config \<Rightarrow> WatchConfig \<Rightarrow> string \<Rightarrow> ServerConfig \<Rightarrow> string \<Rightarrow> string \<Rightarrow> string \<Rightarrow> bool \<Rightarrow> world
     \<Rightarrow> (backupResult result \<times> progress) \<times> world" where
  "BackupServer cfg watch serverName server prevHot prevLocal prevNAS offline w =
     (case resolveBackupTarget serverName server (Local cfg) (NAS cfg) of
        Inl e \<Rightarrow> ((Inl e, []), w)
      | Inr tgt \<Rightarrow>
          (let container = container_of server serverName;
               transfer = backup_transfer cfg watch serverName server tgt prevHot prevLocal prevNAS
           in if offline then transfer w
              else (let (rconPass, w) = resolveRconPassword server watch serverName w
                    in case runRcon CycleCtx container rconPass ''save-off'' rconRetries w of
                         (Inl e, w) \<Rightarrow> ((Inl (Wrapf ''save-off'' e), []), w)
                       | (Inr _, w) \<Rightarrow>
                           save_on container rconPass
                             (case runRcon CycleCtx container rconPass ''save-all flush'' rconRetries w of
                                (Inl e, w) \<Rightarrow> ((Inl (Wrapf ''save-all flush'' e), []), w)
                              | (Inr _, w) \<Rightarrow> transfer w))))"

section \<open>Offloading a hot snapshot\<close>

definition offload_local ::
  "Config \<Rightarrow> WatchConfig \<Rightarrow> string \<Rightarrow> string \<Rightarrow> string \<Rightarrow> string \<Rightarrow> world \<Rightarrow> (string result \<times> progress) \<times> world" where
  "offload_local cfg watch serverName srcDir ts prevCold w =
     (let destDir = path_join [LocalDestRoot (Local cfg), Namespace watch, serverName];
          inProgress = path_join [destDir, ts @ ''.inprogress''];
          finalPath = path_join [destDir, ts];
          (_, w) = os_RemoveAll inProgress w
      in case os_MkdirAll inProgress w of
           (Inl e, w) \<Rightarrow> ((Inl (Wrapf ''local offload mkdir'' e), []), w)
         | (Inr _, w) \<Rightarrow>
        (case runRsync CycleCtx (localRsyncArgs srcDir prevCold inProgress []) w of
           ((Inl e, pg), w) \<Rightarrow>
             (let (_, w) = os_RemoveAll inProgress w in ((Inl (Wrapf ''local offload rsync'' e), pg), w))
         | ((Inr _, pg), w) \<Rightarrow>
        (case os_Rename inProgress finalPath w of
           (Inl e, w) \<Rightarrow>
             (let (_, w) = os_RemoveAll inProgress w in ((Inl (Wrapf ''local offload rename'' e), pg), w))
         | (Inr _, w) \<Rightarrow> ((Inr finalPath, pg), w))))"

text \<open>The clean-up of the remote directory runs in a context of its own.\<close>

definition offload_nas ::
  "Config \<Rightarrow> WatchConfig \<Rightarrow> string \<Rightarrow> string \<Rightarrow> string \<Rightarrow> string \<Rightarrow> world \<Rightarrow> (string result \<times> progress) \<times> world" where
  "offload_nas cfg watch serverName srcDir ts prevCold w =
     (case checkNASReady CycleCtx (NAS cfg) w of
        (Inl e, w) \<Rightarrow> ((Inl (Wrapf ''NAS not ready for offload'' e), []), w)
      | (Inr _, w) \<Rightarrow>
          (let remoteServerDir = server_dir (NASDestRoot (NAS cfg)) (Namespace watch) serverName;
               remoteInProgress = remoteServerDir @ ''/'' @ ts @ ''.inprogress'';
               remoteFinal = remoteServerDir @ ''/'' @ ts;
               cleanup = (\<lambda>w. snd (runSSH DetachedCtx (NAS cfg) (nasRemoveDirCommand remoteInProgress) w))
           in case ensureNASDir CycleCtx (NAS cfg) remoteServerDir w of
                (Inl e, w) \<Rightarrow> ((Inl (Wrapf ''create NAS offload dir'' e), []), w)
              | (Inr _, w) \<Rightarrow>
             (let (_, w) = runSSH CycleCtx (NAS cfg) (nasRemoveDirCommand remoteInProgress) w
              in case runRsync CycleCtx (nasRsyncArgs (env_vars (w_env w)) srcDir prevCold remoteInProgress (NAS cfg)
                        (MaxMBps (Global cfg)) []) w of
                   ((Inl e, pg), w) \<Rightarrow> ((Inl (Wrapf ''NAS offload rsync'' e), pg), cleanup w)
                 | ((Inr _, pg), w) \<Rightarrow>
                (case runSSH CycleCtx (NAS cfg) (nasRenameCommand remoteInProgress remoteFinal) w of
                   (Inl e, w) \<Rightarrow> ((Inl (Wrapf ''NAS offload rename'' e), pg), cleanup w)
                 | (Inr _, w) \<Rightarrow> ((Inr remoteFinal, pg), w)))))"

definition offloadSnapshot ::
  "Config \<Rightarrow> WatchConfig \<Rightarrow> string \<Rightarrow> string \<Rightarrow> string \<Rightarrow> string \<Rightarrow> string \<Rightarrow> world
     \<Rightarrow> (string result \<times> progress) \<times> world" where
  "offloadSnapshot cfg watch serverName hotPath ts coldTarget prevCold w =
     (let srcDir = TrimRightBy (\<lambda>c. c = CHR ''/'') hotPath @ ''/''
      in if coldTarget = ''local'' then offload_local cfg watch serverName srcDir ts prevCold w
         else if coldTarget = ''nas'' then offload_nas cfg watch serverName srcDir ts prevCold w
         else ((Inl (Errorf ''unsupported cold target %q'' [coldTarget]), []), w))"

section \<open>Which commands a backup runs\<close>

text \<open>The commands of a transfer to each target when all of them succeed; \<open>prev\<close> is the
  snapshot to link against.\<close>

definition ssh_event :: "string list \<Rightarrow> ctx \<Rightarrow> NASConfig \<Rightarrow> string \<Rightarrow> bool \<Rightarrow> event" where
  "ssh_event envv c nas cmd ok = Exec c (sshBaseArgs envv nas @ [ssh_host nas, cmd]) [] ok"

definition rsync_event :: "string list \<Rightarrow> bool \<Rightarrow> event" where
  "rsync_event args ok = Exec CycleCtx (hd args # ''--info=progress2'' # tl args) [] ok"

fun command_of :: "event \<Rightarrow> string" where
  "command_of (Exec c argv envv ok) = hd argv"

fun succeeded :: "event \<Rightarrow> bool" where
  "succeeded (Exec c argv envv ok) = ok"

lemma command_of_events [simp]:
  "command_of (ssh_event envv c nas cmd ok) = ''ssh''"
  "command_of (rsync_event (localRsyncArgs d p t x) ok) = ''rsync''"
  "command_of (rsync_event (nasRsyncArgs envv d p t nas m x) ok) = ''rsync''"
  by (simp_all add: ssh_event_def rsync_event_def sshBaseArgs_def localRsyncArgs_def nasRsyncArgs_def)

lemma succeeded_events [simp]:
  "succeeded (ssh_event envv c nas cmd ok) = ok" "succeeded (rsync_event args ok) = ok"
  by (simp_all add: ssh_event_def rsync_event_def)

definition nas_steps :: "string list \<Rightarrow> Config \<Rightarrow> WatchConfig \<Rightarrow> string \<Rightarrow> string \<Rightarrow> string list \<Rightarrow> string \<Rightarrow> string
    \<Rightarrow> (bool \<Rightarrow> event) list" where
  "nas_steps envv cfg watch serverName dataDir excludes prev ts =
     (let dir = server_dir (NASDestRoot (NAS cfg)) (Namespace watch) serverName
      in [ssh_event envv CycleCtx (NAS cfg) (nasReadyCommand (NAS cfg)),
          ssh_event envv CycleCtx (NAS cfg) (nasMkdirCommand dir),
          rsync_event (nasRsyncArgs envv dataDir prev (dir @ ''/'' @ ts) (NAS cfg) (MaxMBps (Global cfg)) excludes)])"

text \<open>A sequence of steps that stops at the first failure.\<close>

fun run_steps :: "(bool \<Rightarrow> event) list \<Rightarrow> nat \<Rightarrow> event list" where
  "run_steps [] k = []"
| "run_steps (s # ss) 0 = [s False]"
| "run_steps (s # ss) (Suc k) = s True # run_steps ss k"

lemma before_last_slash_server_dir:
  "CHR ''/'' \<notin> set ts \<Longrightarrow> before_last_slash (d @ ''/'' @ ts) = d"
  using before_last_slash_append [of ts d] by simp

lemma runs_env: "runs w ev w' \<Longrightarrow> w_env w' = w_env w"
  by (simp add: runs_def)

lemma backup_nas_runs:
  assumes "backup_nas cfg watch name d x prev ts w = ((r, pg), w')" and "CHR ''/'' \<notin> set ts"
  shows "\<exists>k. runs w (run_steps (nas_steps (env_vars (w_env w)) cfg watch name d x prev ts) k) w' \<and>
    (is_ok r \<longleftrightarrow> 3 \<le> k) \<and>
    (\<forall>res. r = Inr res \<longrightarrow> res = \<lparr>destination = server_dir (NASDestRoot (NAS cfg)) (Namespace watch) name @ ''/'' @ ts,
       timestamp = ts, target = ''nas'', offloadPending = False\<rparr>)"
proof -
  let ?dir = "server_dir (NASDestRoot (NAS cfg)) (Namespace watch) name"
  let ?v = "env_vars (w_env w)"
  have parent: "before_last_slash (?dir @ CHR ''/'' # ts) = ?dir"
    using before_last_slash_append [OF assms(2)] .
  obtain r1 w1 where c1: "checkNASReady CycleCtx (NAS cfg) w = (r1, w1)" by (metis prod.exhaust)
  note run1 = checkNASReady_runs [OF c1]
  show ?thesis
  proof (cases r1)
    case (Inl e)
    then show ?thesis
      using assms(1) c1 run1
      by (intro exI [of _ 0]) (auto simp: backup_nas_def nas_steps_def ssh_event_def Let_def)
  next
    case ok1: (Inr u)
    obtain r2 w2 where c2: "ensureNASDir CycleCtx (NAS cfg) ?dir w1 = (r2, w2)" by (metis prod.exhaust)
    note run2 = runs_trans [OF run1 ensureNASDir_runs [OF c2]]
    have v1: "w_env w1 = w_env w" by (rule runs_env [OF run1])
    show ?thesis
    proof (cases r2)
      case (Inl e)
      then show ?thesis
        using assms(1) c1 c2 ok1 run2 v1 parent
        by (intro exI [of _ 1]) (auto simp: backup_nas_def nas_steps_def ssh_event_def Let_def)
    next
      case ok2: (Inr u')
      have v2: "w_env w2 = w_env w" by (rule runs_env [OF run2])
      let ?args = "nasRsyncArgs ?v d prev (?dir @ ''/'' @ ts) (NAS cfg) (MaxMBps (Global cfg)) x"
      obtain r3 pg' w3 where c3: "runRsync CycleCtx ?args w2 = ((r3, pg'), w3)" by (metis prod.exhaust)
      note run3 = runs_trans [OF run2 runRsync_runs [OF c3]]
      have out: "backup_nas cfg watch name d x prev ts w =
          (case r3 of Inl e \<Rightarrow> ((Inl (Wrapf ''NAS rsync'' e), pg'), w3)
           | Inr _ \<Rightarrow> ((Inr \<lparr>destination = ?dir @ ''/'' @ ts, timestamp = ts, target = ''nas'', offloadPending = False\<rparr>, pg'), w3))"
        using c1 c2 c3 ok1 ok2 v1 v2 parent by (simp add: backup_nas_def Let_def split: sum.splits)
      show ?thesis
      proof (cases r3)
        case (Inl e)
        then show ?thesis
          using assms(1) run3 ok1 ok2 v1 unfolding out
          by (intro exI [of _ 2]) (auto simp: nas_steps_def ssh_event_def rsync_event_def Let_def numeral_2_eq_2)
      next
        case (Inr u'')
        then show ?thesis
          using assms(1) run3 ok1 ok2 v1 unfolding out
          by (intro exI [of _ 3]) (auto simp: nas_steps_def ssh_event_def rsync_event_def Let_def numeral_3_eq_3)
      qed
    qed
  qed
qed

text \<open>The local transfers run one command at most.\<close>

lemma backup_local_runs:
  assumes "backup_local cfg watch name d x prev ts w = ((r, pg), w')"
  shows "\<exists>ev. runs w ev w' \<and>
    (ev = [] \<and> \<not> is_ok r \<or>
     ev = [rsync_event (localRsyncArgs d prev (path_join [LocalDestRoot (Local cfg), Namespace watch, name, ts]) x) (is_ok r)])"
proof -
  let ?p = "path_join [LocalDestRoot (Local cfg), Namespace watch, name, ts]"
  obtain r1 w1 where c1: "os_MkdirAll ?p w = (r1, w1)" by (metis prod.exhaust)
  obtain r2 pg' w2 where c2: "runRsync CycleCtx (localRsyncArgs d prev ?p x) w1 = ((r2, pg'), w2)" by (metis prod.exhaust)
  note run2 = runs_trans [OF mkdirall.silent [OF c1] runRsync_runs [OF c2]]
  show ?thesis
  proof (cases r1)
    case (Inl e)
    then show ?thesis using assms c1 mkdirall.silent [OF c1] by (auto simp: backup_local_def Let_def)
  next
    case (Inr u)
    then show ?thesis
      using assms c1 c2 run2 by (auto simp: backup_local_def rsync_event_def Let_def split: sum.splits)
  qed
qed

section \<open>What a backup changes in the local file system\<close>

lemma spares_runSSH:
  "commands_spare P (w_env w) \<Longrightarrow> runSSH c nas cmd w = (r, w') \<Longrightarrow> spares P w w'"
  by (auto simp: runSSH_def split: prod.splits dest: spares_run_cmd)

lemma spares_runRsync:
  "commands_spare P (w_env w) \<Longrightarrow> runRsync c args w = (r, w') \<Longrightarrow> spares P w w'"
  by (auto simp: runRsync_def split: prod.splits dest: spares_run_cmd)

lemma spares_runSync: "commands_spare P (w_env w) \<Longrightarrow> spares P w (runSync c w)"
  by (metis prod.collapse runSync_def spares_run_cmd)

section \<open>Copy to a directory aside, then rename\<close>

text \<open>What the tiered backup and the local offload have in common: \<open>rsync\<close> into the
  directory \<open>a\<close>, renamed to \<open>b\<close> when it is complete and removed otherwise.\<close>

definition staged ::
  "string list \<Rightarrow> string \<Rightarrow> string \<Rightarrow> world \<Rightarrow> ((string \<times> error + unit) \<times> progress) \<times> world" where
  "staged args a b w =
     (case runRsync CycleCtx args w of
        ((Inl e, pg), w) \<Rightarrow> ((Inl (''rsync'', e), pg), snd (os_RemoveAll a w))
      | ((Inr _, pg), w) \<Rightarrow>
          (case os_Rename a b w of
             (Inl e, w) \<Rightarrow> ((Inl (''rename'', e), pg), snd (os_RemoveAll a w))
           | (Inr _, w) \<Rightarrow> ((Inr (), pg), w)))"

lemma backup_tiered_staged:
  "backup_tiered cfg watch name tgt d x prev ts w =
     (let hot = path_join [HotRoot (Local cfg), Namespace watch, name];
          a = path_join [hot, ts @ ''.inprogress'']; b = path_join [hot, ts];
          w = snd (os_RemoveAll a w)
      in case os_MkdirAll hot w of
           (Inl e, w) \<Rightarrow> ((Inl (Wrapf ''hot mkdir'' e), []), w)
         | (Inr _, w) \<Rightarrow> (case os_MkdirAll a w of
           (Inl e, w) \<Rightarrow> ((Inl (Wrapf ''hot inprogress mkdir'' e), []), w)
         | (Inr _, w) \<Rightarrow> (case staged (localRsyncArgs d prev a x) a b w of
           ((Inl (stage, e), pg), w) \<Rightarrow> ((Inl (Wrapf (''hot '' @ stage) e), pg), w)
         | ((Inr _, pg), w) \<Rightarrow>
             ((Inr \<lparr>destination = b, timestamp = ts, target = tgt, offloadPending = True\<rparr>, pg), w))))"
  by (simp add: backup_tiered_def staged_def Let_def split: prod.splits sum.splits)

lemma offload_local_staged:
  "offload_local cfg watch name d ts prev w =
     (let dir = path_join [LocalDestRoot (Local cfg), Namespace watch, name];
          a = path_join [dir, ts @ ''.inprogress'']; b = path_join [dir, ts];
          w = snd (os_RemoveAll a w)
      in case os_MkdirAll a w of
           (Inl e, w) \<Rightarrow> ((Inl (Wrapf ''local offload mkdir'' e), []), w)
         | (Inr _, w) \<Rightarrow> (case staged (localRsyncArgs d prev a []) a b w of
           ((Inl (stage, e), pg), w) \<Rightarrow> ((Inl (Wrapf (''local offload '' @ stage) e), pg), w)
         | ((Inr _, pg), w) \<Rightarrow> ((Inr b, pg), w)))"
  by (simp add: offload_local_def staged_def Let_def split: prod.splits sum.splits)

lemma RemoveAll_silent: "runs w [] (snd (os_RemoveAll a w))"
  by (rule removeall.silent_snd)

lemma staged_runs:
  assumes "staged args a b w = ((r, pg), w')"
  shows "\<exists>ok. runs w [rsync_event args ok] w' \<and> ((\<exists>u. r = Inr u) \<longrightarrow> ok)"
proof -
  obtain r1 pg1 w1 where c1: "runRsync CycleCtx args w = ((r1, pg1), w1)" by (metis prod.exhaust)
  have run1: "runs w [rsync_event args (is_ok r1)] w1"
    using runRsync_runs [OF c1] by (simp add: rsync_event_def)
  show ?thesis
  proof (cases r1)
    case (Inl e)
    then have "w' = snd (os_RemoveAll a w1)" "\<nexists>u. r = Inr u" using assms c1 by (auto simp: staged_def)
    then show ?thesis using runs_quiet [OF run1 RemoveAll_silent] by auto
  next
    case (Inr u)
    obtain r2 w2 where c2: "os_Rename a b w1 = (r2, w2)" by (metis prod.exhaust)
    have "w' = w2 \<or> w' = snd (os_RemoveAll a w2)"
      using assms c1 c2 Inr by (auto simp: staged_def split: sum.splits)
    then show ?thesis
      using runs_quiet [OF run1 rename.silent [OF c2]] Inr
        runs_quiet [OF runs_quiet [OF run1 rename.silent [OF c2]] RemoveAll_silent]
      by auto
  qed
qed

text \<open>The directory of a server, the in-progress directory and the snapshot in it.\<close>

definition staging :: "string \<Rightarrow> string \<Rightarrow> string \<Rightarrow> string \<Rightarrow> bool" where
  "staging dir ts a b \<longleftrightarrow> proper_dir dir \<and> isBackupDir ts \<and>
     a = path_join [dir, ts @ ''.inprogress''] \<and> b = path_join [dir, ts]"

text \<open>The paths of all snapshots of the directory, present or not.\<close>

definition snap_area :: "string \<Rightarrow> string \<Rightarrow> bool" where
  "snap_area dir q \<longleftrightarrow> (\<exists>n. isBackupDir n \<and> under (dir_prefix dir @ n) q)"

lemma ok_comp_inprogress: "isBackupDir ts \<Longrightarrow> ok_comp (ts @ ''.inprogress'')"
  using isBackupDir_ok_comp [of ts] by (auto simp: ok_comp_def)

lemma snapshot_not_inprogress: "isBackupDir n \<Longrightarrow> isBackupDir ts \<Longrightarrow> n \<noteq> ts @ ''.inprogress''"
  by (auto simp: isBackupDir_def)

lemma dir_prefix_extended: "n \<noteq> [] \<Longrightarrow> dir_prefix dir @ n \<noteq> ''/''"
proof
  assume "n \<noteq> []" and "dir_prefix dir @ n = ''/''"
  then have "length (dir_prefix dir @ n) = 1" by simp
  moreover have "1 < length (dir_prefix dir @ n)" using \<open>n \<noteq> []\<close> by (cases n) (auto simp: dir_prefix_def)
  ultimately show False by linarith
qed

lemma under_length: "under x y \<Longrightarrow> length x \<le> length y"
  by (auto simp: under_def HasPrefix_iff dir_prefix_def split: if_splits)

lemma staging_paths:
  assumes "staging dir ts a b"
  shows "a = dir_prefix dir @ ts @ ''.inprogress''" and "b = dir_prefix dir @ ts"
    and "a \<noteq> ''/''" and "b \<noteq> ''/''" and "under b q \<Longrightarrow> snap_area dir q"
    and "snap_area dir q \<Longrightarrow> \<not> under a q" and "snap_area dir q \<Longrightarrow> \<not> under q a"
    and "snap_area dir q \<Longrightarrow> \<not> under q dir" and "under b q \<Longrightarrow> \<not> under a q"
proof -
  have ts: "isBackupDir ts" "ok_comp ts" "ok_comp (ts @ ''.inprogress'')" "proper_dir dir"
    using assms by (simp_all add: staging_def ok_comp_inprogress isBackupDir_ok_comp)
  then have ent: "entry_name ts" "entry_name (ts @ ''.inprogress'')" by (simp_all add: ok_comp_entry_name)
  show a: "a = dir_prefix dir @ ts @ ''.inprogress''" and b: "b = dir_prefix dir @ ts"
    using assms ts by (simp_all add: staging_def proper_dir_join)
  show "a \<noteq> ''/''" "b \<noteq> ''/''"
    using ent dir_prefix_extended unfolding a b entry_name_def by blast+
  show area: "under b q \<Longrightarrow> snap_area dir q" for q using ts(1) by (auto simp: snap_area_def b)
  have n: "entry_name n" "n \<noteq> ts @ ''.inprogress''" if "isBackupDir n" for n
    using that ts isBackupDir_ok_comp ok_comp_entry_name snapshot_not_inprogress by blast+
  show disj: "snap_area dir q \<Longrightarrow> \<not> under a q" for q
    unfolding a snap_area_def using under_disjoint [OF n(1) ent(2) n(2)] by blast
  show "snap_area dir q \<Longrightarrow> \<not> under q a"
  proof
    assume "snap_area dir q" "under q a"
    then obtain m where "isBackupDir m" "under (dir_prefix dir @ m) a"
      unfolding snap_area_def using under_trans by blast
    then show False unfolding a using under_child_iff [OF n(1) ent(2)] n(2) by blast
  qed
  show "snap_area dir q \<Longrightarrow> \<not> under q dir"
  proof
    assume "snap_area dir q" "under q dir"
    then obtain m where m: "isBackupDir m" "under (dir_prefix dir @ m) dir"
      unfolding snap_area_def using under_trans by blast
    have "length dir \<le> length (dir_prefix dir)" by (simp add: dir_prefix_def)
    moreover have "0 < length m" using n(1) [OF m(1)] by (simp add: entry_name_def)
    ultimately show False using under_length [OF m(2)] unfolding length_append by linarith
  qed
  show "under b q \<Longrightarrow> \<not> under a q" using area disj by blast
qed

lemma staged_effect:
  assumes st: "staging dir ts a b" and run: "staged args a b w = ((r, pg), w')"
    and cmds: "commands_spare (snap_area dir) (w_env w)"
  shows "r = Inl e \<Longrightarrow> spares (snap_area dir) w w'"
    and "r = Inr u \<Longrightarrow> \<exists>w3. spares (snap_area dir) w w3 \<and> runs w [rsync_event args True] w3 \<and>
      can_rename (w_fs w3) a b \<and> w_fs w' = rename_fs a b (w_fs w3)"
    and "no_faults w \<Longrightarrow> under a q \<Longrightarrow> map_of (w_fs w') q = None"
proof -
  note P = staging_paths [OF st]
  obtain r1 pg1 w1 where c1: "runRsync CycleCtx args w = ((r1, pg1), w1)" by (metis prod.exhaust)
  have sp1: "spares (snap_area dir) w w1" by (rule spares_runRsync [OF cmds c1])
  have run1: "runs w [rsync_event args (is_ok r1)] w1"
    using runRsync_runs [OF c1] by (simp add: rsync_event_def)
  obtain r2 w2 where c2: "os_Rename a b w1 = (r2, w2)" by (metis prod.exhaust)
  have env: "w_env w1 = w_env w" "w_env w2 = w_env w"
    using runs_env [OF run1] runs_env [OF rename.silent [OF c2]] by simp_all
  have clean: "spares (snap_area dir) v (snd (os_RemoveAll a v))" for v
    using P(6) by (intro spares_RemoveAll [of "snap_area dir" a v "fst (os_RemoveAll a v)"]) auto
  have gone: "map_of (w_fs (snd (os_RemoveAll a v))) q = None" if "no_faults v" "under a q" for v q
    using that by (simp add: os_RemoveAll_fs)
  have fail: "r = Inl e \<Longrightarrow> w' = snd (os_RemoveAll a w1) \<or> (w' = snd (os_RemoveAll a w2) \<and> w_fs w2 = w_fs w1)" for e
    using run c1 c2 by (auto simp: staged_def os_Rename_def split: sum.splits if_splits)
  have good: "r = Inr u \<Longrightarrow> is_ok r1 \<and> w' = w2 \<and> can_rename (w_fs w1) a b \<and> w_fs w2 = rename_fs a b (w_fs w1)" for u
    using run c1 c2 by (auto simp: staged_def os_Rename_def split: sum.splits if_splits)
  show "spares (snap_area dir) w w'" if "r = Inl e" for e
    using fail [OF that]
  proof
    assume "w' = snd (os_RemoveAll a w1)"
    then show ?thesis using spares_trans [OF sp1 clean] by simp
  next
    assume w': "w' = snd (os_RemoveAll a w2) \<and> w_fs w2 = w_fs w1"
    then have "spares (snap_area dir) w1 w2" by (simp add: spares_same_fs)
    then show ?thesis using w' spares_trans [OF spares_trans [OF sp1] clean] by blast
  qed
  show "\<exists>w3. spares (snap_area dir) w w3 \<and> runs w [rsync_event args True] w3 \<and>
      can_rename (w_fs w3) a b \<and> w_fs w' = rename_fs a b (w_fs w3)" if "r = Inr u" for u
    using good [OF that] sp1 run1 by (intro exI [of _ w1]) auto
  show "map_of (w_fs w') q = None" if nf: "no_faults w" and q: "under a q"
  proof (cases r)
    case (Inl e)
    then show ?thesis using fail [OF Inl] gone [OF no_faults_env [OF _ nf] q] env by auto
  next
    case (Inr u)
    then show ?thesis using good [OF Inr] rename_fs_gone [OF P(3,4,9) q] by simp
  qed
qed

lemma mkdir_spares_staging:
  assumes "staging dir ts a b" and "d = a \<or> d = dir" and "os_MkdirAll d w = (r, w')"
  shows "spares (snap_area dir) w w'"
  using staging_paths(7,8) [OF assms(1)] assms(2) by (intro spares_MkdirAll [OF _ assms(3)]) auto

lemma RemoveAll_spares_staging:
  "staging dir ts a b \<Longrightarrow> spares (snap_area dir) w (snd (os_RemoveAll a w))"
  using staging_paths(6) by (intro spares_RemoveAll [of "snap_area dir" a w "fst (os_RemoveAll a w)"]) auto

text \<open>The outcome of such an operation: a failure leaves every snapshot of the directory as
  it was; a success has run \<open>rsync\<close> without an error and then moved what \<open>a\<close> held to \<open>b\<close>, which did not exist;
  and if no call fails nothing is left at \<open>a\<close>.\<close>

definition staged_outcome ::
  "string \<Rightarrow> string list \<Rightarrow> string \<Rightarrow> string \<Rightarrow> bool \<Rightarrow> world \<Rightarrow> world \<Rightarrow> bool" where
  "staged_outcome dir args a b ok w w' \<longleftrightarrow>
     (\<not> ok \<longrightarrow> spares (snap_area dir) w w' \<and> (runs w [] w' \<or> (\<exists>x. runs w [rsync_event args x] w'))) \<and>
     (ok \<longrightarrow> (\<exists>w3. spares (snap_area dir) w w3 \<and> runs w [rsync_event args True] w3 \<and>
        can_rename (w_fs w3) a b \<and> w_fs w' = rename_fs a b (w_fs w3)) \<and>
        runs w [rsync_event args True] w') \<and>
     (no_faults w \<longrightarrow> (\<forall>q. under a q \<longrightarrow> map_of (w_fs w') q = None))"

lemma staged_outcome_failed:
  assumes "spares (snap_area dir) w w'" "runs w [] w'"
    and "no_faults w \<Longrightarrow> (\<forall>q. under a q \<longrightarrow> map_of (w_fs w') q = None)"
  shows "staged_outcome dir args a b False w w'"
  using assms by (auto simp: staged_outcome_def)

lemma staged_outcomeI:
  assumes st: "staging dir ts a b" and run: "staged args a b w2 = ((r, pg), w')"
    and cmds: "commands_spare (snap_area dir) (w_env w)" and pre: "spares (snap_area dir) w w2" "runs w [] w2"
  shows "staged_outcome dir args a b (\<exists>u. r = Inr u) w w'"
proof -
  have env: "w_env w2 = w_env w" by (rule runs_env [OF pre(2)])
  note eff = staged_effect [OF st run cmds [folded env]]
  obtain ok where ok: "runs w2 [rsync_event args ok] w'" "(\<exists>u. r = Inr u) \<longrightarrow> ok"
    using staged_runs [OF run] by blast
  have run': "runs w [rsync_event args ok] w'" using runs_trans [OF pre(2) ok(1)] by simp
  show ?thesis
    unfolding staged_outcome_def
  proof (intro conjI impI)
    assume "\<not> (\<exists>u. r = Inr u)"
    then obtain e where "r = Inl e" by (cases r) auto
    then show "spares (snap_area dir) w w'" using spares_trans [OF pre(1) eff(1)] by blast
    show "runs w [] w' \<or> (\<exists>x. runs w [rsync_event args x] w')" using run' by blast
  next
    assume "\<exists>u. r = Inr u"
    then obtain u where u: "r = Inr u" by blast
    then show "runs w [rsync_event args True] w'" using run' ok(2) by auto
    obtain w3 where "spares (snap_area dir) w2 w3" "runs w2 [rsync_event args True] w3"
        "can_rename (w_fs w3) a b" "w_fs w' = rename_fs a b (w_fs w3)"
      using eff(2) [OF u] by blast
    then show "\<exists>w3. spares (snap_area dir) w w3 \<and> runs w [rsync_event args True] w3 \<and>
        can_rename (w_fs w3) a b \<and> w_fs w' = rename_fs a b (w_fs w3)"
      using spares_trans [OF pre(1)] runs_trans [OF pre(2)] by fastforce
  next
    assume "no_faults w"
    then have "no_faults w2" by (rule no_faults_env [OF env])
    then show "\<forall>q. under a q \<longrightarrow> map_of (w_fs w') q = None" using eff(3) by blast
  qed
qed

lemma tiered_outcome:
  assumes st: "staging hot ts a b" and hot: "hot = path_join [HotRoot (Local cfg), Namespace watch, name]"
    and run: "backup_tiered cfg watch name tgt d x prev ts w = ((r, pg), w')"
    and cmds: "commands_spare (snap_area hot) (w_env w)"
  shows "staged_outcome hot (localRsyncArgs d prev a x) a b (is_ok r) w w' \<and>
    (\<forall>res. r = Inr res \<longrightarrow> res = \<lparr>destination = b, timestamp = ts, target = tgt, offloadPending = True\<rparr>)"
proof -
  have ab: "path_join [hot, ts @ ''.inprogress''] = a" "path_join [hot, ts] = b"
    using st by (simp_all add: staging_def)
  define w0 where "w0 = snd (os_RemoveAll a w)"
  have sp0: "spares (snap_area hot) w w0" and run0: "runs w [] w0"
    unfolding w0_def using RemoveAll_spares_staging [OF st] RemoveAll_silent by auto
  have clear: "no_faults w \<Longrightarrow> under a q \<Longrightarrow> map_of (w_fs w0) q = None" for q
    unfolding w0_def by (rule RemoveAll_clears)
  obtain r1 w1 where c1: "os_MkdirAll hot w0 = (r1, w1)" by (metis prod.exhaust)
  have sp1: "spares (snap_area hot) w w1" using spares_trans [OF sp0 mkdir_spares_staging [OF st _ c1]] by simp
  have run1: "runs w [] w1" by (rule runs_quiet [OF run0 mkdirall.silent [OF c1]])
  obtain r2 w2 where c2: "os_MkdirAll a w1 = (r2, w2)" by (metis prod.exhaust)
  have sp2: "spares (snap_area hot) w w2" using spares_trans [OF sp1 mkdir_spares_staging [OF st _ c2]] by simp
  have run2: "runs w [] w2" by (rule runs_quiet [OF run1 mkdirall.silent [OF c2]])
  obtain r3 pg3 w3 where c3: "staged (localRsyncArgs d prev a x) a b w2 = ((r3, pg3), w3)" by (metis prod.exhaust)
  note out3 = staged_outcomeI [OF st c3 cmds sp2 run2]
  note unf = run [unfolded backup_tiered_staged Let_def, folded hot, unfolded ab, folded w0_def]
  show ?thesis
  proof (cases r1)
    case (Inl e)
    then have "\<not> is_ok r" "w' = w1" "w_fs w1 = w_fs w0" using unf c1 MkdirAll_fails_keeps by auto
    then show ?thesis using staged_outcome_failed [OF sp1 run1] clear by auto
  next
    case ok1: (Inr u)
    show ?thesis
    proof (cases r2)
      case (Inl e)
      then have r: "\<not> is_ok r" "w' = w2" and keep: "w_fs w2 = w_fs w1"
        using unf c1 c2 ok1 MkdirAll_fails_keeps by auto
      have "map_of (w_fs w2) q = None" if "no_faults w" "under a q" for q
      proof -
        have "\<not> under q hot"
        proof
          assume "under q hot"
          with that(2) have "under a hot" by (rule under_trans)
          then show False using staging_paths(1) [OF st] st
            by (auto simp: staging_def under_def HasPrefix_iff dir_prefix_def split: if_splits)
        qed
        then show ?thesis
          using spares_MkdirAll [of "\<lambda>x. x = q" hot, OF _ c1] clear [OF that] keep by (auto simp: spares_def)
      qed
      then show ?thesis using staged_outcome_failed [OF sp2 run2] r by auto
    next
      case ok2: (Inr u')
      then show ?thesis
        using unf c1 c2 c3 ok1 out3 by (cases r3) auto
    qed
  qed
qed

lemma offload_local_outcome:
  assumes st: "staging dir ts a b" and dir: "dir = path_join [LocalDestRoot (Local cfg), Namespace watch, name]"
    and run: "offload_local cfg watch name d ts prev w = ((r, pg), w')"
    and cmds: "commands_spare (snap_area dir) (w_env w)"
  shows "staged_outcome dir (localRsyncArgs d prev a []) a b (is_ok r) w w' \<and> (\<forall>p. r = Inr p \<longrightarrow> p = b)"
proof -
  have ab: "path_join [dir, ts @ ''.inprogress''] = a" "path_join [dir, ts] = b"
    using st by (simp_all add: staging_def)
  define w0 where "w0 = snd (os_RemoveAll a w)"
  have sp0: "spares (snap_area dir) w w0" and run0: "runs w [] w0"
    unfolding w0_def using RemoveAll_spares_staging [OF st] RemoveAll_silent by auto
  have clear: "no_faults w \<Longrightarrow> under a q \<Longrightarrow> map_of (w_fs w0) q = None" for q
    unfolding w0_def by (rule RemoveAll_clears)
  obtain r1 w1 where c1: "os_MkdirAll a w0 = (r1, w1)" by (metis prod.exhaust)
  have sp1: "spares (snap_area dir) w w1" using spares_trans [OF sp0 mkdir_spares_staging [OF st _ c1]] by simp
  have run1: "runs w [] w1" by (rule runs_quiet [OF run0 mkdirall.silent [OF c1]])
  obtain r3 pg3 w3 where c3: "staged (localRsyncArgs d prev a []) a b w1 = ((r3, pg3), w3)" by (metis prod.exhaust)
  note out3 = staged_outcomeI [OF st c3 cmds sp1 run1]
  note unf = run [unfolded offload_local_staged Let_def, folded dir, unfolded ab, folded w0_def]
  show ?thesis
  proof (cases r1)
    case (Inl e)
    then have "\<not> is_ok r" "w' = w1" "w_fs w1 = w_fs w0" using unf c1 MkdirAll_fails_keeps by auto
    then show ?thesis using staged_outcome_failed [OF sp1 run1] clear by auto
  next
    case (Inr u)
    then show ?thesis using unf c1 c3 out3 by (cases r3) auto
  qed
qed

section \<open>Which commands any transfer runs\<close>

definition transfer_command :: "event \<Rightarrow> bool" where
  "transfer_command e \<longleftrightarrow> command_of e \<in> {''sync'', ''ssh'', ''rsync''}"

definition only_transfers :: "world \<Rightarrow> world \<Rightarrow> bool" where
  "only_transfers w w' \<longleftrightarrow> (\<exists>ev. runs w ev w' \<and> list_all transfer_command ev)"

lemma only_transfers_refl [simp]: "only_transfers w w"
  unfolding only_transfers_def by (intro exI [of _ "[]"]) simp

lemma only_transfers_trans:
  "only_transfers w w1 \<Longrightarrow> only_transfers w1 w2 \<Longrightarrow> only_transfers w w2"
  unfolding only_transfers_def using runs_trans by (metis list_all_append)

lemma only_transfers_silent: "runs w [] w' \<Longrightarrow> only_transfers w w'"
  unfolding only_transfers_def by (intro exI [of _ "[]"]) simp

lemma only_transfers_event: "runs w [e] w' \<Longrightarrow> transfer_command e \<Longrightarrow> only_transfers w w'"
  unfolding only_transfers_def by (intro exI [of _ "[e]"]) simp

lemma transfer_events [simp]:
  "transfer_command (ssh_event envv c nas cmd ok)" "transfer_command (Exec c [''sync''] [] ok)"
  "transfer_command (rsync_event (localRsyncArgs d p t x) ok)"
  "transfer_command (rsync_event (nasRsyncArgs envv d p t nas m x) ok)"
  by (simp_all add: transfer_command_def)

lemma transfer_run_steps: "list_all (\<lambda>s. \<forall>ok. transfer_command (s ok)) ss \<Longrightarrow> list_all transfer_command (run_steps ss k)"
  by (induction ss k rule: run_steps.induct) auto

lemma isBackupDir_now:
  assumes "\<And>t. valid_civil (to_civil (loc (w_env w)) t) \<and> yr (to_civil (loc (w_env w)) t) < 10000"
  shows "isBackupDir (fst (now_stamp w))"
  using assms format_stamp_shape(1) by (simp add: now_stamp_def now_def Let_def isBackupDir_stamp_shape)

lemma format_stamp_no_slash: "CHR ''/'' \<notin> set (format_stamp c)"
proof -
  have "CHR ''/'' \<notin> set (show_padded w n)" for w n
    using show_padded_digits [of w n] by (auto simp: list_all_iff is_digit_def)
  then show ?thesis by (simp add: format_stamp_def)
qed

lemma now_stamp_no_slash: "now_stamp w = (ts, w') \<Longrightarrow> CHR ''/'' \<notin> set ts"
  using format_stamp_no_slash by (auto simp: now_stamp_def now_def Let_def)

lemma staged_transfers: "staged (localRsyncArgs d p t x) a b w = ((r, pg), w') \<Longrightarrow> only_transfers w w'"
  using staged_runs only_transfers_event transfer_events(3) by blast

lemma backup_tiered_transfers: "backup_tiered cfg watch name tgt d x prev ts w = ((r, pg), w') \<Longrightarrow> only_transfers w w'"
  unfolding backup_tiered_staged Let_def
  by (auto split: prod.splits sum.splits
      dest!: staged_transfers mkdirall.silent [THEN only_transfers_silent]
      intro: only_transfers_trans [OF only_transfers_silent [OF RemoveAll_silent]] only_transfers_trans)

lemma backup_local_transfers: "backup_local cfg watch name d x prev ts w = ((r, pg), w') \<Longrightarrow> only_transfers w w'"
  using backup_local_runs [of cfg watch name d x prev ts w r pg w'] only_transfers_silent only_transfers_event by fastforce

lemma backup_nas_transfers:
  assumes "backup_nas cfg watch name d x prev ts w = ((r, pg), w')" and "CHR ''/'' \<notin> set ts"
  shows "only_transfers w w'"
proof -
  have "list_all (\<lambda>s. \<forall>ok. transfer_command (s ok)) (nas_steps (env_vars (w_env w)) cfg watch name d x prev ts)"
    by (simp add: nas_steps_def Let_def)
  then show ?thesis
    using backup_nas_runs [OF assms] transfer_run_steps unfolding only_transfers_def by blast
qed

lemma backup_transfer_only:
  assumes "backup_transfer cfg watch name server tgt ph pl pn w = ((r, pg), w')"
  shows "only_transfers w w'"
proof -
  define w1 where "w1 = runSync CycleCtx w"
  have 1: "only_transfers w w1"
    unfolding w1_def using runSync_runs [of w CycleCtx] only_transfers_event by fastforce
  obtain ts w2 where st: "now_stamp w1 = (ts, w2)" by (metis prod.exhaust)
  have 2: "only_transfers w w2"
    using only_transfers_trans [OF 1 only_transfers_silent [OF stamp.silent [OF st]]] .
  note unf = assms [unfolded backup_transfer_def Let_def, folded w1_def]
  have "only_transfers w2 w'"
    using unf st backup_nas_transfers [OF _ now_stamp_no_slash [OF st]] backup_local_transfers backup_tiered_transfers
    by (auto split: if_splits)
  with 2 show ?thesis by (rule only_transfers_trans)
qed

section \<open>Properties\<close>

text \<open>The trace of an online backup: only attempts of \<open>save-off\<close>, or the bracket. \<open>rcon c cmd n ok\<close>
  stands for \<open>n\<close> failed attempts of an RCON command followed by a successful one if \<open>ok\<close>.\<close>

definition bracketed ::
  "(ctx \<Rightarrow> string \<Rightarrow> nat \<Rightarrow> bool \<Rightarrow> event list) \<Rightarrow> bool \<Rightarrow> event list \<Rightarrow> bool" where
  "bracketed rcon ok ev \<longleftrightarrow>
     (\<exists>j \<le> 5. \<not> ok \<and> ev = rcon CycleCtx ''save-off'' j False) \<or>
     (\<exists>i k j copy flushed saved. i < 5 \<and> k \<le> 5 \<and> j \<le> 5 \<and>
        ev = rcon CycleCtx ''save-off'' i True @ rcon CycleCtx ''save-all flush'' k flushed @ copy @
          rcon DetachedCtx ''save-on'' j saved \<and>
        list_all transfer_command copy \<and> (copy \<noteq> [] \<longrightarrow> flushed) \<and>
        (saved \<or> 0 < j) \<and> (ok \<longrightarrow> flushed \<and> saved))"

definition rcon_on :: "string \<Rightarrow> string \<Rightarrow> ctx \<Rightarrow> string \<Rightarrow> nat \<Rightarrow> bool \<Rightarrow> event list" where
  "rcon_on container pass c cmd n ok =
     rcon_events c (rconCommand container cmd) [''RCON_PASSWORD='' @ pass] n ok"

lemma runRcon_runs_on:
  assumes "runRcon c container pass cmd rconRetries w = (r, w')"
  shows "\<exists>j \<le> 5. runs w (rcon_on container pass c cmd j (is_ok r)) w' \<and> (is_ok r \<longrightarrow> j < 5) \<and> (is_ok r \<or> 0 < j)"
proof -
  obtain j where j: "j \<le> 5" "runs w (rcon_on container pass c cmd j (is_ok r)) w'"
      "case r of Inr _ \<Rightarrow> j < 5 | Inl e \<Rightarrow> e = CtxCanceled \<and> 0 < j \<or> e = rcon_failed cmd 5 \<and> j = 5"
    using runRcon_runs [OF assms] unfolding rconRetries_def rcon_on_def rcon_env_def by blast
  then have "(is_ok r \<longrightarrow> j < 5) \<and> (is_ok r \<or> 0 < j)" by (cases r) auto
  with j show ?thesis by blast
qed

lemma bracketedI:
  assumes "i < 5" "k \<le> 5" "j \<le> 5" "list_all transfer_command copy" "copy \<noteq> [] \<longrightarrow> flushed"
    "saved \<or> 0 < j" "ok \<longrightarrow> flushed \<and> saved"
  shows "bracketed rcon ok (rcon CycleCtx ''save-off'' i True @ rcon CycleCtx ''save-all flush'' k flushed @ copy @
    rcon DetachedCtx ''save-on'' j saved)"
  unfolding bracketed_def using assms
  by (intro disjI2 exI [of _ i] exI [of _ k] exI [of _ j] exI [of _ copy] exI [of _ flushed] exI [of _ saved]) simp

text \<open>The flush and the transfer, and then \<open>save-on\<close>.\<close>

lemma flushed_transfer:
  assumes "(case runRcon CycleCtx c pass ''save-all flush'' rconRetries w of
      (Inl e, w) \<Rightarrow> ((Inl (Wrapf ''save-all flush'' e), []), w)
    | (Inr _, w) \<Rightarrow> backup_transfer cfg watch name server tgt ph pl pn w) = ((r, pg), w')"
  shows "\<exists>k flushed copy. k \<le> 5 \<and> runs w (rcon_on c pass CycleCtx ''save-all flush'' k flushed @ copy) w' \<and>
    list_all transfer_command copy \<and> (copy \<noteq> [] \<longrightarrow> flushed) \<and> (is_ok r \<longrightarrow> flushed)"
proof -
  obtain r2 w2 where flush: "runRcon CycleCtx c pass ''save-all flush'' rconRetries w = (r2, w2)" by fastforce
  obtain k where k: "k \<le> 5" "runs w (rcon_on c pass CycleCtx ''save-all flush'' k (is_ok r2)) w2"
    using runRcon_runs_on [OF flush] by blast
  have "only_transfers w2 w' \<and> (is_ok r2 \<or> w' = w2 \<and> \<not> is_ok r)"
    using assms backup_transfer_only unfolding flush prod.case by (cases r2) auto
  then obtain copy where copy: "runs w2 copy w'" "list_all transfer_command copy"
      "copy \<noteq> [] \<longrightarrow> is_ok r2" "is_ok r \<longrightarrow> is_ok r2"
    unfolding only_transfers_def by (metis append_self_conv runs_def)
  then show ?thesis using k runs_trans [OF k(2) copy(1)] by blast
qed

lemma save_on_runs:
  assumes "save_on c pass ((r1, pg1), w) = ((r, pg), w')"
  shows "\<exists>j saved. j \<le> 5 \<and> runs w (rcon_on c pass DetachedCtx ''save-on'' j saved) w' \<and> (saved \<or> 0 < j) \<and>
    (is_ok r \<longrightarrow> is_ok r1 \<and> saved)"
proof -
  obtain r2 w2 where on: "runRcon DetachedCtx c pass ''save-on'' rconRetries w = (r2, w2)" by fastforce
  obtain j where j: "j \<le> 5" "runs w (rcon_on c pass DetachedCtx ''save-on'' j (is_ok r2)) w2" "is_ok r2 \<or> 0 < j"
    using runRcon_runs_on [OF on] by blast
  have "w' = w2" "is_ok r \<longrightarrow> is_ok r1 \<and> is_ok r2"
    using assms on by (auto simp: save_on_def split: sum.splits)
  with j show ?thesis by blast
qed

text \<open>C1: the commands of an online backup are bracketed by autosave. Either \<open>save-off\<close> was
  attempted at most five times without success (or not at all, when the target is not usable)
  and nothing else was run; or \<open>save-off\<close> succeeded, \<open>save-all flush\<close> was attempted next, the
  files were copied only after it succeeded, and the last commands are attempts of \<open>save-on\<close>
  in a context that outlives the cancellation of the cycle, at least one of them. The backup is
  reported as successful only if the last \<open>save-on\<close> succeeded.\<close>

theorem autosave_bracket:
  assumes "BackupServer cfg watch name server ph pl pn False w = ((r, pg), w')"
  shows "\<exists>pass ev. runs w ev w' \<and> bracketed (rcon_on (container_of server name) pass) (is_ok r) ev"
proof (cases "resolveBackupTarget name server (Local cfg) (NAS cfg)")
  case (Inl e)
  then have "w' = w" "\<not> is_ok r" using assms by (auto simp: BackupServer_def)
  then have "runs w [] w' \<and> bracketed (rcon_on (container_of server name) []) (is_ok r) []"
    by (auto simp: bracketed_def rcon_on_def rcon_events_def)
  then show ?thesis by blast
next
  case tgt: (Inr tgt)
  let ?c = "container_of server name"
  obtain pass w0 where pw: "resolveRconPassword server watch name w = (pass, w0)" by fastforce
  let ?rcon = "rcon_on ?c pass"
  obtain r1 w1 where off: "runRcon CycleCtx ?c pass ''save-off'' rconRetries w0 = (r1, w1)" by fastforce
  obtain i where i: "i \<le> 5" "runs w0 (?rcon CycleCtx ''save-off'' i (is_ok r1)) w1" "is_ok r1 \<longrightarrow> i < 5"
    using runRcon_runs_on [OF off] by blast
  have run1: "runs w (?rcon CycleCtx ''save-off'' i (is_ok r1)) w1"
    using runs_trans [OF password.silent [OF pw] i(2)] by simp
  show ?thesis
  proof (cases r1)
    case (Inl e)
    then have w': "w' = w1" "\<not> is_ok r" using assms tgt pw off by (auto simp: BackupServer_def)
    have "bracketed ?rcon (is_ok r) (?rcon CycleCtx ''save-off'' i False)"
      unfolding bracketed_def using i(1) w'(2) by blast
    with run1 Inl w'(1) show ?thesis by auto
  next
    case ok1: (Inr u)
    define m where "m = (case runRcon CycleCtx ?c pass ''save-all flush'' rconRetries w1 of
          (Inl e, w) \<Rightarrow> ((Inl (Wrapf ''save-all flush'' e), []), w)
        | (Inr _, w) \<Rightarrow> backup_transfer cfg watch name server tgt ph pl pn w)"
    obtain r2 pg2 w2 where m: "m = ((r2, pg2), w2)" by (metis prod.exhaust)
    note mid = m [unfolded m_def]
    have "BackupServer cfg watch name server ph pl pn False w = save_on ?c pass m"
      unfolding m_def by (simp add: BackupServer_def tgt pw off ok1 Let_def)
    then have "save_on ?c pass ((r2, pg2), w2) = ((r, pg), w')" using assms m by simp
    from save_on_runs [OF this] obtain j saved where j: "j \<le> 5" "runs w2 (?rcon DetachedCtx ''save-on'' j saved) w'"
        "saved \<or> 0 < j" "is_ok r \<longrightarrow> is_ok r2 \<and> saved" by blast
    from flushed_transfer [OF mid] obtain k flushed copy where k: "k \<le> 5" "list_all transfer_command copy"
        "copy \<noteq> [] \<longrightarrow> flushed" "is_ok r2 \<longrightarrow> flushed"
        "runs w1 (?rcon CycleCtx ''save-all flush'' k flushed @ copy) w2" by blast
    have "i < 5" "is_ok r \<longrightarrow> flushed \<and> saved" using ok1 i(3) j(4) k(4) by auto
    note br = bracketedI [OF this(1) k(1) j(1) k(2,3) j(3) this(2), of ?rcon]
    have "runs w (?rcon CycleCtx ''save-off'' i True) w1" using run1 ok1 by simp
    from runs_trans [OF this runs_trans [OF k(5) j(2)], unfolded append_assoc] br show ?thesis by blast
  qed
qed

text \<open>A stand-in world for the witnesses: clock at the first minute of 2026, every command
  succeeds, and the commands leave the local files alone.\<close>

definition demo_config :: Config where
  "demo_config = DefaultConfig\<lparr>
     NAS := (NAS DefaultConfig)\<lparr>SSHUser := ''u'', SSHHost := ''h'', NASDestRoot := ''/nas''\<rparr>,
     Local := \<lparr>LocalDestRoot = ''/cold'', HotRoot = ''/hot''\<rparr>\<rparr>"

definition demo_watch :: WatchConfig where
  "demo_watch = \<lparr>Path = ''/srv'', Namespace = ''mc''\<rparr>"

definition demo_server :: "string \<Rightarrow> ServerConfig" where
  "demo_server t = zero_ServerConfig\<lparr>Enabled := True, Target := t\<rparr>"

lemma demo_targets:
  "resolveBackupTarget ''s'' (demo_server ''nas'') (Local demo_config) (NAS demo_config) = Inr ''nas''"
  "resolveBackupTarget ''s'' (demo_server ''local'') (Local demo_config) (NAS demo_config) = Inr ''local''"
  "resolveBackupTarget ''s'' (demo_server ''tiered-nas'') (Local demo_config) (NAS demo_config) = Inr ''tiered-nas''"
  by code_simp+

theorem autosave_bracket_witness:
  "\<exists>pass ev w'. w' = snd (BackupServer demo_config demo_watch ''s'' (demo_server ''nas'') [] [] [] False (quiet_world [])) \<and>
     runs (quiet_world []) ev w' \<and>
     bracketed (rcon_on (container_of (demo_server ''nas'') ''s'') pass)
       (is_ok (fst (fst (BackupServer demo_config demo_watch ''s'' (demo_server ''nas'') [] [] [] False (quiet_world []))))) ev"
proof -
  let ?x = "BackupServer demo_config demo_watch ''s'' (demo_server ''nas'') [] [] [] False (quiet_world [])"
  have "?x = ((fst (fst ?x), snd (fst ?x)), snd ?x)" by simp
  from autosave_bracket [OF this] show ?thesis by blast
qed



text \<open>The clock shows years that fit the time stamp.\<close>

definition clock_ok :: "os_env \<Rightarrow> bool" where
  "clock_ok e \<longleftrightarrow> (\<forall>t. valid_civil (to_civil (loc e) t) \<and> yr (to_civil (loc e) t) < 10000)"

lemma clock_ok_stamp: "clock_ok (w_env w) \<Longrightarrow> now_stamp w = (ts, w') \<Longrightarrow> isBackupDir ts"
  using isBackupDir_now [of w] by (simp add: clock_ok_def)

lemma proper_dir_staging:
  "proper_dir dir \<Longrightarrow> isBackupDir ts \<Longrightarrow>
     staging dir ts (path_join [dir, ts @ ''.inprogress'']) (path_join [dir, ts])"
  by (simp add: staging_def)


lemma quiet_env_ok: "clock_ok quiet_env" "commands_spare P quiet_env"
  by (simp_all add: clock_ok_def commands_spare_def quiet_env_def valid_civil_def days_in_def)

lemma demo_dirs: "path_join [''/hot'', ''mc'', ''s''] = ''/hot/mc/s''" "path_join [''/cold'', ''mc'', ''s''] = ''/cold/mc/s''"
  "proper_dir ''/hot/mc/s''" "proper_dir ''/cold/mc/s''"
proof -
  show "path_join [''/hot'', ''mc'', ''s''] = ''/hot/mc/s''" "path_join [''/cold'', ''mc'', ''s''] = ''/cold/mc/s''"
    by code_simp+
  have comps: "list_all ok_comp [''hot'', ''mc'', ''s'']" "list_all ok_comp [''cold'', ''mc'', ''s'']" by code_simp+
  show "proper_dir ''/hot/mc/s''"
    unfolding proper_dir_def using comps(1) by (intro exI [of _ "[''hot'', ''mc'', ''s'']"]) simp
  show "proper_dir ''/cold/mc/s''"
    unfolding proper_dir_def using comps(2) by (intro exI [of _ "[''cold'', ''mc'', ''s'']"]) simp
qed



text \<open>A world in which every command but \<open>sync\<close> fails.\<close>

definition failing_world :: world where
  "failing_world = (quiet_world [])\<lparr>w_env := quiet_env\<lparr>cmd_ok := (\<lambda>_ argv. argv = [''sync''])\<rparr>\<rparr>"

lemma failing_local:
  "fst (fst (BackupServer demo_config demo_watch ''s'' (demo_server ''local'') [] [] [] True failing_world)) =
     Inl (Wrapf ''local rsync'' CmdFailed)"
proof -
  have mk: "os_MkdirAll p w = (Inr (), (tick w)\<lparr>w_fs := mkdir_fs p (w_fs w)\<rparr>)"
    if "w_fs w = []" "\<not> faulty w" for p w
    using that by (simp add: os_MkdirAll_def is_file_def list_ex_iff)
  have f: "w_env failing_world = quiet_env\<lparr>cmd_ok := (\<lambda>_ argv. argv = [''sync''])\<rparr>" "w_fs failing_world = []"
    by (simp_all add: failing_world_def)
  show ?thesis
    unfolding BackupServer_def demo_targets
    by (simp add: backup_transfer_def backup_local_def Let_def now_stamp_def now_def runSync_def run_cmd_def f mk
        faulty_def runRsync_def quiet_env_def localRsyncArgs_def tick_def)
qed


text \<open>C3: an offload to a local cold directory is all or nothing in the same way: on failure all
  cold snapshots of the server are untouched and nothing is left aside (if no system call
  fails), on success the complete copy was moved into place.\<close>

theorem local_offload_atomic:
  assumes "offloadSnapshot cfg watch name hotPath ts ''local'' prev w = ((r, pg), w')"
    and "dir = path_join [LocalDestRoot (Local cfg), Namespace watch, name]" and "proper_dir dir"
    and "isBackupDir ts" and "commands_spare (snap_area dir) (w_env w)"
  shows "staged_outcome dir
      (localRsyncArgs (TrimRightBy (\<lambda>c. c = CHR ''/'') hotPath @ ''/'') prev (path_join [dir, ts @ ''.inprogress'']) [])
      (path_join [dir, ts @ ''.inprogress'']) (path_join [dir, ts]) (is_ok r) w w' \<and>
    (\<forall>p. r = Inr p \<longrightarrow> p = path_join [dir, ts])"
  using offload_local_outcome [OF proper_dir_staging [OF assms(3,4)] assms(2) _ assms(5)] assms(1)
  by (simp add: offloadSnapshot_def)

theorem local_offload_atomic_witness:
  "case fst (fst (offloadSnapshot demo_config demo_watch ''s'' ''/hot/mc/s/20260101-0000'' ''20260101-0000'' ''local'' []
      (quiet_world []))) of Inr p \<Rightarrow> p = path_join [''/cold/mc/s'', ''20260101-0000'']
    | Inl _ \<Rightarrow> spares (snap_area ''/cold/mc/s'') (quiet_world []) (snd (offloadSnapshot demo_config demo_watch ''s''
        ''/hot/mc/s/20260101-0000'' ''20260101-0000'' ''local'' [] (quiet_world [])))"
proof -
  let ?x = "offloadSnapshot demo_config demo_watch ''s'' ''/hot/mc/s/20260101-0000'' ''20260101-0000'' ''local'' [] (quiet_world [])"
  have x: "?x = ((fst (fst ?x), snd (fst ?x)), snd ?x)" by simp
  have dir: "''/cold/mc/s'' = path_join [LocalDestRoot (Local demo_config), Namespace demo_watch, ''s'']"
    by (simp add: demo_dirs demo_config_def demo_watch_def)
  have "isBackupDir ''20260101-0000''" by code_simp
  moreover have "commands_spare (snap_area ''/cold/mc/s'') (w_env (quiet_world []))" by (simp add: quiet_env_ok)
  ultimately show ?thesis
    using local_offload_atomic [OF x dir demo_dirs(4)]
    by (cases "fst (fst ?x)") (auto simp: staged_outcome_def)
qed

text \<open>The commands of an offload to the NAS: the checks, the clean-up of a left-over, the copy
  and the rename, and the clean-up after a failure.\<close>

definition nas_offload_trace ::
  "string list \<Rightarrow> Config \<Rightarrow> WatchConfig \<Rightarrow> string \<Rightarrow> string \<Rightarrow> string \<Rightarrow> string \<Rightarrow> bool \<Rightarrow> event list \<Rightarrow> bool" where
  "nas_offload_trace envv cfg watch name srcDir ts prev ok ev \<longleftrightarrow>
     (let dir = server_dir (NASDestRoot (NAS cfg)) (Namespace watch) name;
          aside = dir @ ''/'' @ ts @ ''.inprogress'';
          ssh = ssh_event envv CycleCtx (NAS cfg);
          check = [ssh (nasReadyCommand (NAS cfg)), ssh (nasMkdirCommand dir)];
          copy = [rsync_event (nasRsyncArgs envv srcDir prev aside (NAS cfg) (MaxMBps (Global cfg)) []),
                  ssh (nasRenameCommand aside (dir @ ''/'' @ ts))]
      in (\<exists>k < 2. \<not> ok \<and> ev = run_steps check k) \<or>
         (\<exists>x. ok \<and> ev = run_steps check 2 @ [ssh (nasRemoveDirCommand aside) x] @ run_steps copy 2) \<or>
         (\<exists>x y. \<exists>k < 2. \<not> ok \<and> ev = run_steps check 2 @ [ssh (nasRemoveDirCommand aside) x] @ run_steps copy k @
            [ssh_event envv DetachedCtx (NAS cfg) (nasRemoveDirCommand aside) y]))"

text \<open>The part of an offload to the NAS that follows the checks: the removal of a left-over, the copy and
  the rename, and the clean-up.\<close>

definition nas_copy ::
  "Config \<Rightarrow> string \<Rightarrow> string \<Rightarrow> string \<Rightarrow> string \<Rightarrow> world \<Rightarrow> (string result \<times> progress) \<times> world" where
  "nas_copy cfg srcDir prev aside final w =
     (let cleanup = (\<lambda>w. snd (runSSH DetachedCtx (NAS cfg) (nasRemoveDirCommand aside) w));
          (_, w) = runSSH CycleCtx (NAS cfg) (nasRemoveDirCommand aside) w
      in case runRsync CycleCtx (nasRsyncArgs (env_vars (w_env w)) srcDir prev aside (NAS cfg) (MaxMBps (Global cfg)) []) w of
           ((Inl e, pg), w) \<Rightarrow> ((Inl (Wrapf ''NAS offload rsync'' e), pg), cleanup w)
         | ((Inr _, pg), w) \<Rightarrow>
             (case runSSH CycleCtx (NAS cfg) (nasRenameCommand aside final) w of
                (Inl e, w) \<Rightarrow> ((Inl (Wrapf ''NAS offload rename'' e), pg), cleanup w)
              | (Inr _, w) \<Rightarrow> ((Inr final, pg), w)))"

lemma offload_nas_split:
  "offload_nas cfg watch name srcDir ts prev w =
     (let dir = server_dir (NASDestRoot (NAS cfg)) (Namespace watch) name
      in case checkNASReady CycleCtx (NAS cfg) w of
           (Inl e, w) \<Rightarrow> ((Inl (Wrapf ''NAS not ready for offload'' e), []), w)
         | (Inr _, w) \<Rightarrow>
             (case ensureNASDir CycleCtx (NAS cfg) dir w of
                (Inl e, w) \<Rightarrow> ((Inl (Wrapf ''create NAS offload dir'' e), []), w)
              | (Inr _, w) \<Rightarrow> nas_copy cfg srcDir prev (dir @ ''/'' @ ts @ ''.inprogress'') (dir @ ''/'' @ ts) w))"
  unfolding offload_nas_def nas_copy_def Let_def by (rule refl)

definition nas_copy_trace :: "string list \<Rightarrow> Config \<Rightarrow> string \<Rightarrow> string \<Rightarrow> string \<Rightarrow> string \<Rightarrow> bool \<Rightarrow> event list \<Rightarrow> bool" where
  "nas_copy_trace envv cfg srcDir prev aside final ok ev \<longleftrightarrow>
     (let ssh = ssh_event envv CycleCtx (NAS cfg);
          copy = [rsync_event (nasRsyncArgs envv srcDir prev aside (NAS cfg) (MaxMBps (Global cfg)) []),
                  ssh (nasRenameCommand aside final)]
      in (\<exists>x. ok \<and> ev = [ssh (nasRemoveDirCommand aside) x] @ run_steps copy 2) \<or>
         (\<exists>x y. \<exists>k < 2. \<not> ok \<and> ev = [ssh (nasRemoveDirCommand aside) x] @ run_steps copy k @
            [ssh_event envv DetachedCtx (NAS cfg) (nasRemoveDirCommand aside) y]))"

lemma run_steps_two [simp]:
  "run_steps [s, t] 2 = [s True, t True]" "run_steps [s, t] (Suc 0) = [s True, t False]"
  by (simp_all add: numeral_2_eq_2)

lemma runSSH_event:
  "runSSH c nas cmd w = (r, w') \<Longrightarrow> runs w [ssh_event (env_vars (w_env w)) c nas cmd (is_ok r)] w'"
  unfolding ssh_event_def by (rule runSSH_runs)

lemma nas_copy_runs:
  assumes "nas_copy cfg srcDir prev aside final w = ((r, pg), w')"
  shows "\<exists>ev. runs w ev w' \<and> nas_copy_trace (env_vars (w_env w)) cfg srcDir prev aside final (is_ok r) ev"
proof -
  define v where "v = env_vars (w_env w)"
  let ?rm = "\<lambda>c. ssh_event v c (NAS cfg) (nasRemoveDirCommand aside)"
  obtain r1 w1 where 1: "runSSH CycleCtx (NAS cfg) (nasRemoveDirCommand aside) w = (r1, w1)" by fastforce
  have run1: "runs w [?rm CycleCtx (is_ok r1)] w1" unfolding v_def by (rule runSSH_event [OF 1])
  have env: "env_vars (w_env u) = v" if "runs w ev u" for ev u using runs_env [OF that] by (simp add: v_def)
  let ?args = "nasRsyncArgs v srcDir prev aside (NAS cfg) (MaxMBps (Global cfg)) []"
  obtain r2 pg2 w2 where 2: "runRsync CycleCtx ?args w1 = ((r2, pg2), w2)" by (metis prod.exhaust)
  have run2: "runs w [?rm CycleCtx (is_ok r1), rsync_event ?args (is_ok r2)] w2"
    using runs_trans [OF run1 runRsync_runs [OF 2]] by (simp add: rsync_event_def)
  obtain r3 w3 where 3: "runSSH CycleCtx (NAS cfg) (nasRenameCommand aside final) w2 = (r3, w3)" by fastforce
  have run3: "runs w [?rm CycleCtx (is_ok r1), rsync_event ?args (is_ok r2),
      ssh_event v CycleCtx (NAS cfg) (nasRenameCommand aside final) (is_ok r3)] w3"
    using runs_trans [OF run2 runSSH_event [OF 3]] by (simp add: env [OF run2])
  have clean: "\<exists>y. runs w (ev @ [?rm DetachedCtx y]) (snd (runSSH DetachedCtx (NAS cfg) (nasRemoveDirCommand aside) u))"
    if "runs w ev u" for ev u
    using runs_trans [OF that runSSH_event [OF prod.collapse [symmetric]]] env [OF that] by auto
  note unf = assms [unfolded nas_copy_def Let_def 1 prod.case env [OF run1] 2]
  consider (copy) e where "r2 = Inl e" | (move) u e where "r2 = Inr u" "r3 = Inl e" | (all) u x where "r2 = Inr u" "r3 = Inr x"
    by (metis obj_sumE)
  then show ?thesis
  proof cases
    case copy
    then have "\<not> is_ok r" "w' = snd (runSSH DetachedCtx (NAS cfg) (nasRemoveDirCommand aside) w2)" using unf by auto
    then show ?thesis using clean [OF run2] copy unfolding nas_copy_trace_def Let_def v_def [symmetric] by fastforce
  next
    case move
    then have "\<not> is_ok r" "w' = snd (runSSH DetachedCtx (NAS cfg) (nasRemoveDirCommand aside) w3)" using unf 3 by auto
    moreover obtain y where "runs w ([?rm CycleCtx (is_ok r1)] @ run_steps [rsync_event ?args,
        ssh_event v CycleCtx (NAS cfg) (nasRenameCommand aside final)] 1 @ [?rm DetachedCtx y])
        (snd (runSSH DetachedCtx (NAS cfg) (nasRemoveDirCommand aside) w3))"
      using clean [OF run3] move by auto
    moreover have "(1::nat) < 2" by simp
    ultimately show ?thesis unfolding nas_copy_trace_def Let_def v_def [symmetric] by blast
  next
    case all
    then have "is_ok r" "w' = w3" using unf 3 by auto
    then show ?thesis using run3 all unfolding nas_copy_trace_def Let_def v_def [symmetric] by auto
  qed
qed

lemma nas_offload_trace_check:
  "k < 2 \<Longrightarrow> nas_offload_trace envv cfg watch name srcDir ts prev False
     (run_steps [ssh_event envv CycleCtx (NAS cfg) (nasReadyCommand (NAS cfg)),
        ssh_event envv CycleCtx (NAS cfg) (nasMkdirCommand (server_dir (NASDestRoot (NAS cfg)) (Namespace watch) name))] k)"
  unfolding nas_offload_trace_def Let_def by blast

lemma nas_offload_trace_copy:
  "nas_copy_trace envv cfg srcDir prev (server_dir (NASDestRoot (NAS cfg)) (Namespace watch) name @ ''/'' @ ts @ ''.inprogress'')
      (server_dir (NASDestRoot (NAS cfg)) (Namespace watch) name @ ''/'' @ ts) ok ev \<Longrightarrow>
   nas_offload_trace envv cfg watch name srcDir ts prev ok
     (run_steps [ssh_event envv CycleCtx (NAS cfg) (nasReadyCommand (NAS cfg)),
        ssh_event envv CycleCtx (NAS cfg) (nasMkdirCommand (server_dir (NASDestRoot (NAS cfg)) (Namespace watch) name))] 2 @ ev)"
  unfolding nas_offload_trace_def nas_copy_trace_def Let_def by blast

text \<open>C4: an offload to the NAS checks the sentinel and creates the server's directory before
  anything else and stops if one of them fails; then it removes a left-over in-progress
  directory, copies into it, and renames it as the last command. If the copy or the rename
  fails, the in-progress directory is removed by a command that is not bound to the context of
  the daemon. The offload is successful exactly if the copy and the rename succeeded.\<close>

theorem nas_offload_steps:
  assumes "offloadSnapshot cfg watch name hotPath ts ''nas'' prev w = ((r, pg), w')"
  shows "\<exists>ev. runs w ev w' \<and> nas_offload_trace (env_vars (w_env w)) cfg watch name
    (TrimRightBy (\<lambda>c. c = CHR ''/'') hotPath @ ''/'') ts prev (is_ok r) ev"
proof -
  let ?src = "TrimRightBy (\<lambda>c. c = CHR ''/'') hotPath @ ''/''"
  define dir where "dir = server_dir (NASDestRoot (NAS cfg)) (Namespace watch) name"
  define v where "v = env_vars (w_env w)"
  note check = nas_offload_trace_check [of _ v cfg watch name ?src ts prev, folded dir_def]
  note copy = nas_offload_trace_copy [of v cfg ?src prev watch name ts, folded dir_def]
  have run: "offload_nas cfg watch name ?src ts prev w = ((r, pg), w')" using assms by (simp add: offloadSnapshot_def)
  obtain r1 w1 where 1: "checkNASReady CycleCtx (NAS cfg) w = (r1, w1)" by fastforce
  have run1: "runs w [ssh_event v CycleCtx (NAS cfg) (nasReadyCommand (NAS cfg)) (is_ok r1)] w1"
    unfolding v_def ssh_event_def by (rule checkNASReady_runs [OF 1])
  obtain r2 w2 where 2: "ensureNASDir CycleCtx (NAS cfg) dir w1 = (r2, w2)" by fastforce
  have run2: "runs w [ssh_event v CycleCtx (NAS cfg) (nasReadyCommand (NAS cfg)) (is_ok r1),
      ssh_event v CycleCtx (NAS cfg) (nasMkdirCommand dir) (is_ok r2)] w2"
    using runs_trans [OF run1 ensureNASDir_runs [OF 2]] runs_env [OF run1] by (simp add: v_def ssh_event_def)
  note unf = run [unfolded offload_nas_split Let_def, folded dir_def, unfolded 1 prod.case]
  consider (ready) e where "r1 = Inl e" | (dir) u e where "r1 = Inr u" "r2 = Inl e" | (both) u x where "r1 = Inr u" "r2 = Inr x"
    by (metis obj_sumE)
  then show ?thesis
  proof cases
    case ready
    then have "\<not> is_ok r" "w' = w1" using unf by auto
    then show ?thesis using run1 ready check [of 0] unfolding v_def [symmetric] by auto
  next
    case dir
    then have "\<not> is_ok r" "w' = w2" using unf 2 by auto
    then show ?thesis using run2 dir check [of 1] unfolding v_def [symmetric] by auto
  next
    case both
    then have "nas_copy cfg ?src prev (dir @ ''/'' @ ts @ ''.inprogress'') (dir @ ''/'' @ ts) w2 = ((r, pg), w')"
      using unf 2 by simp
    from nas_copy_runs [OF this] obtain ev where ev: "runs w2 ev w'"
        "nas_copy_trace v cfg ?src prev (dir @ ''/'' @ ts @ ''.inprogress'') (dir @ ''/'' @ ts) (is_ok r) ev"
      using runs_env [OF run2] by (auto simp: v_def)
    show ?thesis using runs_trans [OF run2 ev(1)] copy [OF ev(2)] both unfolding v_def [symmetric] by auto
  qed
qed

theorem nas_offload_steps_witness:
  "\<exists>ev. nas_offload_trace [] demo_config demo_watch ''s'' ''/hot/mc/s/20260101-0000/'' ''20260101-0000'' []
     (is_ok (fst (fst (offloadSnapshot demo_config demo_watch ''s'' ''/hot/mc/s/20260101-0000'' ''20260101-0000'' ''nas'' []
        (quiet_world []))))) ev"
proof -
  let ?x = "offloadSnapshot demo_config demo_watch ''s'' ''/hot/mc/s/20260101-0000'' ''20260101-0000'' ''nas'' [] (quiet_world [])"
  have x: "?x = ((fst (fst ?x), snd (fst ?x)), snd ?x)" by simp
  have v: "env_vars (w_env (quiet_world [])) = []" by (simp add: quiet_env_def)
  have t: "TrimRightBy (\<lambda>c. c = CHR ''/'') ''/hot/mc/s/20260101-0000'' @ ''/'' = ''/hot/mc/s/20260101-0000/''"
    by code_simp
  from nas_offload_steps [OF x, unfolded v t] show ?thesis by blast
qed

end
