(* ===== verification/File_Replace.thy ===== *)
theory File_Replace
  imports Os_Laws
begin

text \<open>
  Replacing a file by way of a temporary: create it beside the file, write, sync, close,
  rename it over the file, remove it if that failed. \<open>writeLastSnapshotAt\<close>,
  \<open>SaveConfig\<close>, \<open>saveSplit\<close> and \<open>SaveAutoServers\<close> of \<open>config.go\<close> all do this; here are
  the laws of the steps, for a file system in which what has something below it is a directory.
\<close>

definition fs_ok :: "fs \<Rightarrow> bool" where
  "fs_ok f \<longleftrightarrow> (\<forall>p q. p \<noteq> [] \<and> p \<noteq> q \<and> under p q \<and> map_of f q \<noteq> None \<longrightarrow> is_dir f p)"

lemma fs_ok_below:
  "fs_ok f \<Longrightarrow> p \<noteq> [] \<Longrightarrow> under p q \<Longrightarrow> p \<noteq> q \<Longrightarrow> \<not> is_dir f p \<Longrightarrow> map_of f q = None"
  unfolding fs_ok_def by blast

text \<open>The world as before, but for one file with the given text and mode.\<close>

definition drafted :: "string \<Rightarrow> string \<Rightarrow> nat \<Rightarrow> world \<Rightarrow> world \<Rightarrow> bool" where
  "drafted tmp c m w w' \<longleftrightarrow> runs w [] w' \<and> map_of (w_fs w') = (map_of (w_fs w))(tmp \<mapsto> FileNode c m)"

text \<open>The world as before, but for the file \<open>tmp\<close>, of which nothing is said.\<close>

definition same_but :: "string \<Rightarrow> world \<Rightarrow> world \<Rightarrow> bool" where
  "same_but tmp w w' \<longleftrightarrow> runs w [] w' \<and> (\<forall>q. q \<noteq> tmp \<longrightarrow> map_of (w_fs w') q = map_of (w_fs w) q)"

lemma drafted_same_but: "drafted tmp c m w w' \<Longrightarrow> same_but tmp w w'"
  by (simp add: drafted_def same_but_def)

lemma same_but_refl [simp]: "same_but tmp w w"
  by (simp add: same_but_def)

lemma same_but_trans: "same_but tmp w w1 \<Longrightarrow> same_but tmp w1 w2 \<Longrightarrow> same_but tmp w w2"
  unfolding same_but_def by (auto intro: runs_quiet)

lemma same_but_silent: "runs w [] w' \<Longrightarrow> w_fs w' = w_fs w \<Longrightarrow> same_but tmp w w'"
  by (simp add: same_but_def)

section \<open>The steps\<close>

lemma CreateTemp_drafted:
  assumes "os_CreateTemp d pre suf w = (Inr tmp, w')"
  shows "drafted tmp [] 384 w w'" and "map_of (w_fs w) tmp = None" and "is_dir (w_fs w) d"
    and "tmp = dir_prefix d @ pre @ temp_suffix (w_env w) (w_tick w) @ suf"
  using assms by (auto simp: os_CreateTemp_def drafted_def runs_def Let_def split: if_splits)

lemma CreateTemp_failed: "os_CreateTemp d pre suf w = (Inl e, w') \<Longrightarrow> runs w [] w' \<and> w_fs w' = w_fs w"
  by (auto simp: os_CreateTemp_def runs_def Let_def split: if_splits)

lemma CreateTemp_succeeds:
  "no_faults w \<Longrightarrow> is_dir (w_fs w) d \<Longrightarrow>
     map_of (w_fs w) (dir_prefix d @ pre @ temp_suffix (w_env w) (w_tick w) @ suf) = None \<Longrightarrow>
     is_ok (fst (os_CreateTemp d pre suf w))"
  by (simp add: os_CreateTemp_def Let_def)

lemma Write_drafted:
  assumes "drafted tmp c m w w1" and "os_Write tmp x w1 = (r, w2)"
  shows "is_ok r \<Longrightarrow> drafted tmp (c @ x) m w w2" and "\<not> is_ok r \<Longrightarrow> drafted tmp c m w w2"
    and "no_faults w \<Longrightarrow> is_ok r"
  using assms no_faults_env [of w1 w]
  by (auto simp: os_Write_def drafted_def runs_def fun_upd_def fun_eq_iff split: if_splits)

lemma Sync_drafted:
  assumes "drafted tmp c m w w1" and "os_Sync p w1 = (r, w2)"
  shows "drafted tmp c m w w2" and "no_faults w \<Longrightarrow> is_ok r"
  using assms no_faults_env [of w1 w] by (auto simp: os_Sync_def drafted_def runs_def)

lemma Close_drafted:
  assumes "drafted tmp c m w w1" and "os_Close p w1 = (r, w2)"
  shows "drafted tmp c m w w2" and "no_faults w \<Longrightarrow> is_ok r"
  using assms no_faults_env [of w1 w] by (auto simp: os_Close_def drafted_def runs_def)

lemma Chmod_drafted:
  assumes "drafted tmp c m w w1" and "os_Chmod tmp m' w1 = (r, w2)"
  shows "is_ok r \<Longrightarrow> drafted tmp c m' w w2" and "\<not> is_ok r \<Longrightarrow> drafted tmp c m w w2"
    and "no_faults w \<Longrightarrow> is_ok r"
  using assms no_faults_env [of w1 w]
  by (auto simp: os_Chmod_def drafted_def runs_def fun_upd_def fun_eq_iff split: if_splits)

lemma Remove_same_but: "os_Remove tmp w = (r, w') \<Longrightarrow> same_but tmp w w'"
  by (auto simp: os_Remove_def same_but_def runs_def split: if_splits)

lemma Remove_absent: "map_of (w_fs w) tmp = None \<Longrightarrow> os_Remove tmp w = (r, w') \<Longrightarrow> runs w [] w' \<and> w_fs w' = w_fs w"
  by (auto simp: os_Remove_def runs_def split: if_splits)

lemma rename_fs_other:
  assumes "a \<noteq> ''/''" "b \<noteq> ''/''" and q: "\<not> under a q" "\<not> under b q"
  shows "map_of (rename_fs a b f) q = map_of f q"
proof (induction f)
  case Nil
  show ?case by (simp add: rename_fs_def)
next
  case (Cons e f)
  obtain x n where e: "e = (x, n)" by (cases e)
  have "b @ drop (length a) x \<noteq> q" if "under a x"
  proof -
    have "under b (b @ drop (length a) x)" using assms(1,2) that by (auto simp: under_proper)
    with q(2) show ?thesis by auto
  qed
  moreover have "x \<noteq> q" if "under b x" using that q(2) by auto
  moreover have "x \<noteq> q" if "under a x" using that q(1) by auto
  ultimately show ?case using Cons by (auto simp: e rename_fs_def)
qed

lemma under_antisym: "under a b \<Longrightarrow> under b a \<Longrightarrow> a = b"
proof -
  assume "under a b" "under b a"
  have len: "length x \<le> length y" if "under x y" for x y
    using that by (auto simp: under_def HasPrefix_iff dir_prefix_def split: if_splits)
  have "under x y \<Longrightarrow> length x = length y \<Longrightarrow> x = y" for x y
    by (auto simp: under_def HasPrefix_iff dir_prefix_def split: if_splits)
  then show "a = b" using \<open>under a b\<close> \<open>under b a\<close> len by (metis order_antisym)
qed

lemma under_chain: "under a q \<Longrightarrow> under b q \<Longrightarrow> a \<noteq> ''/'' \<Longrightarrow> b \<noteq> ''/'' \<Longrightarrow> under a b \<or> under b a"
proof -
  assume "under a q" "under b q" and ne: "a \<noteq> ''/''" "b \<noteq> ''/''"
  then obtain s t where s: "q = a @ s" "s = [] \<or> hd s = CHR ''/''" and t: "q = b @ t" "t = [] \<or> hd t = CHR ''/''"
    using under_proper by metis
  from s(1) t(1) consider u where "a = b @ u" "t = u @ s" | u where "b = a @ u" "s = u @ t"
    by (metis append_eq_append_conv2)
  then show "under a b \<or> under b a"
  proof cases
    case (1 u)
    then have "u = [] \<or> hd u = CHR ''/''" using t(2) by (cases u) auto
    then show ?thesis using 1 ne under_proper by auto
  next
    case (2 u)
    then have "u = [] \<or> hd u = CHR ''/''" using s(2) by (cases u) auto
    then show ?thesis using 2 ne under_proper by auto
  qed
qed

text \<open>The rename of the temporary file, the step that makes the change visible.\<close>

lemma Rename_drafted:
  assumes ok: "fs_ok (w_fs w)" and d: "drafted tmp c m w w1" and new: "map_of (w_fs w) tmp = None"
    and ne: "tmp \<noteq> ''/''" "dst \<noteq> ''/''" and paths: "tmp \<noteq> []" "dst \<noteq> []"
    and ren: "os_Rename tmp dst w1 = (r, w2)"
  shows "is_ok r \<Longrightarrow> runs w [] w2 \<and> map_of (w_fs w2) = (map_of (w_fs w))(dst \<mapsto> FileNode c m)"
    and "\<not> is_ok r \<Longrightarrow> drafted tmp c m w w2"
proof -
  have fs1: "map_of (w_fs w1) = (map_of (w_fs w))(tmp \<mapsto> FileNode c m)" and run1: "runs w [] w1"
    using d by (simp_all add: drafted_def)
  show "\<not> is_ok r \<Longrightarrow> drafted tmp c m w w2"
    using d ren by (auto simp: os_Rename_def drafted_def runs_def split: if_splits)
  assume "is_ok r"
  then have can: "can_rename (w_fs w1) tmp dst" and fs2: "w_fs w2 = rename_fs tmp dst (w_fs w1)"
    using ren by (auto simp: os_Rename_def split: if_splits)
  have apart: "\<not> under tmp dst" "\<not> under dst tmp" using can by (simp_all add: can_rename_def)
  then have disj: "\<not> under tmp q" if "under dst q" for q using under_chain [OF _ that] ne by blast
  have tmp_dst: "tmp \<noteq> dst" using apart by auto
  have dst_file: "\<not> is_dir (w_fs w) dst"
    using can tmp_dst ne fs1 by (auto simp: can_rename_def is_file_def is_dir_def)
  have "map_of (w_fs w2) q = ((map_of (w_fs w))(dst \<mapsto> FileNode c m)) q" for q
  proof (cases "under dst q")
    case True
    then obtain s where s: "q = dst @ s" "s = [] \<or> hd s = CHR ''/''" using ne under_proper by metis
    have moved: "map_of (w_fs w2) q = map_of (w_fs w1) (tmp @ s)"
      unfolding fs2 s(1) by (rule rename_fs_moved [OF ne disj s(2)])
    show ?thesis
    proof (cases "s = []")
      case True
      then show ?thesis using moved s(1) fs1 by simp
    next
      case False
      then have "under tmp (tmp @ s)" "tmp \<noteq> tmp @ s" using s(2) ne under_proper by auto
      moreover have "\<not> is_dir (w_fs w) tmp" using new ne by (simp add: is_dir_def)
      ultimately have "map_of (w_fs w) (tmp @ s) = None" by (rule fs_ok_below [OF ok paths(1)])
      moreover have "map_of (w_fs w) q = None"
        using fs_ok_below [OF ok paths(2) True _ dst_file] s(1) False by simp
      ultimately show ?thesis using moved fs1 False s(1) by simp
    qed
  next
    case False
    show ?thesis
    proof (cases "under tmp q")
      case True
      have "map_of (w_fs w2) q = None" unfolding fs2 by (rule rename_fs_gone [OF ne disj True])
      moreover have "map_of (w_fs w) q = None"
        using new fs_ok_below [OF ok paths(1) True] ne by (cases "q = tmp") (auto simp: is_dir_def)
      moreover have "q \<noteq> dst" using True apart by auto
      ultimately show ?thesis by simp
    next
      case q: False
      then have "q \<noteq> tmp" "q \<noteq> dst" using False by auto
      then show ?thesis using rename_fs_other [OF ne q False, of "w_fs w1"] fs1 by (simp add: fs2)
    qed
  qed
  moreover have "runs w [] w2" by (rule runs_quiet [OF run1 rename.silent [OF ren]])
  ultimately show "runs w [] w2 \<and> map_of (w_fs w2) = (map_of (w_fs w))(dst \<mapsto> FileNode c m)" by auto
qed

lemma Rename_succeeds:
  assumes "no_faults w" "drafted tmp c m w w1" "is_dir (w_fs w) (Dir_of dst)" "\<not> under tmp dst" "\<not> under dst tmp"
    and "\<not> is_dir (w_fs w) dst" "Dir_of dst \<noteq> tmp" "map_of (w_fs w) tmp = None"
  shows "is_ok (fst (os_Rename tmp dst w1))"
proof -
  have fs1: "map_of (w_fs w1) = (map_of (w_fs w))(tmp \<mapsto> FileNode c m)"
    using assms(2) by (simp add: drafted_def)
  have "no_faults w1" using assms(1,2) no_faults_env by (auto simp: drafted_def runs_def)
  moreover have "tmp \<noteq> dst" using assms(4) by auto
  have "map_of (w_fs w) dst = None \<or> is_file (w_fs w) dst"
  proof (cases "map_of (w_fs w) dst")
    case (Some n)
    then show ?thesis using assms(6) by (cases n) (auto simp: is_dir_def is_file_def)
  qed simp
  then have "can_rename (w_fs w1) tmp dst"
    using assms(3-5,7) \<open>tmp \<noteq> dst\<close> by (auto simp: can_rename_def is_dir_def is_file_def fs1)
  ultimately show ?thesis by (simp add: os_Rename_def)
qed

end
