(* ===== verification/Go_Json.thy ===== *)
theory Go_Json
  imports Go_Strings
begin

text \<open>
  The part of \<open>encoding/json\<close> that \<open>detectContainerName\<close> uses: reading one value from the
  front of a stream, \<open>Decoder.More\<close>, and decoding a value into a struct with one string
  field. Text bytes from 0x80 on are taken as they are (valid UTF-8); the nesting limit of
  10000 is left out.
\<close>

section \<open>Values\<close>

datatype json =
    JNull
  | JBool bool
  | JNum string
  | JStr string
  | JArr "json list"
  | JObj "(string \<times> json) list"

definition json_space :: "char \<Rightarrow> bool" where
  "json_space c \<longleftrightarrow> c = CHR '' '' \<or> c = CHR 0x09 \<or> c = CHR 0x0A \<or> c = CHR 0x0D"

abbreviation skip_space :: "string \<Rightarrow> string" where
  "skip_space s \<equiv> dropWhile json_space s"

section \<open>Strings\<close>

definition hex_digit :: "char \<Rightarrow> nat option" where
  "hex_digit c =
     (if is_digit c then Some (digit_val c)
      else if CHR ''a'' \<le> c \<and> c \<le> CHR ''f'' then Some (of_char c - 87)
      else if CHR ''A'' \<le> c \<and> c \<le> CHR ''F'' then Some (of_char c - 55)
      else None)"

definition hex4 :: "string \<Rightarrow> nat option" where
  "hex4 s =
     (case List.map hex_digit (take 4 s) of
        [Some a, Some b, Some c, Some d] \<Rightarrow> Some (((a * 16 + b) * 16 + c) * 16 + d)
      | _ \<Rightarrow> None)"

text \<open>\<open>utf8.EncodeRune\<close>; a lone surrogate becomes U+FFFD.\<close>

definition encode_rune :: "nat \<Rightarrow> string" where
  "encode_rune r =
     (let r = (if 0xD800 \<le> r \<and> r \<le> 0xDFFF then 0xFFFD else r); cont = (\<lambda>i. char_of (128 + (r div 64 ^ i) mod 64))
      in if r < 0x80 then [char_of r]
         else if r < 0x800 then [char_of (192 + r div 64), cont 0]
         else if r < 0x10000 then [char_of (224 + r div 4096), cont 1, cont 0]
         else [char_of (240 + r div 262144), cont 2, cont 1, cont 0])"

definition json_escape :: "char \<Rightarrow> char option" where
  "json_escape e =
     (if e = CHR 0x22 \<or> e = CHR 0x5C \<or> e = CHR ''/'' then Some e
      else if e = CHR ''b'' then Some (CHR 0x08)
      else if e = CHR ''f'' then Some (CHR 0x0C)
      else if e = CHR ''n'' then Some (CHR 0x0A)
      else if e = CHR ''r'' then Some (CHR 0x0D)
      else if e = CHR ''t'' then Some (CHR 0x09)
      else None)"

definition low_surrogate :: "string \<Rightarrow> nat option" where
  "low_surrogate s =
     (if take 2 s = [CHR 0x5C, CHR ''u'']
      then (case hex4 (drop 2 s) of
              Some r \<Rightarrow> if 0xDC00 \<le> r \<and> r \<le> 0xDFFF then Some r else None
            | None \<Rightarrow> None)
      else None)"

definition prepend :: "string \<Rightarrow> (string \<times> string) option \<Rightarrow> (string \<times> string) option" where
  "prepend p r = map_option (\<lambda>(t, rest). (p @ t, rest)) r"

text \<open>After the opening quote: the string and what follows the closing quote.\<close>

fun json_string :: "string \<Rightarrow> (string \<times> string) option" where
  "json_string [] = None"
| "json_string (c # s) =
     (if c = CHR 0x22 then Some ([], s)
      else if c = CHR 0x5C then
        (case s of
           [] \<Rightarrow> None
         | e # t \<Rightarrow>
             if e = CHR ''u'' then
               (case hex4 t of
                  None \<Rightarrow> None
                | Some r \<Rightarrow>
                    if 0xD800 \<le> r \<and> r \<le> 0xDBFF \<and> low_surrogate (drop 4 t) \<noteq> None
                    then prepend (encode_rune (65536 + (r - 0xD800) * 1024 + (the (low_surrogate (drop 4 t)) - 0xDC00)))
                           (json_string (drop 10 t))
                    else prepend (encode_rune r) (json_string (drop 4 t)))
             else (case json_escape e of None \<Rightarrow> None | Some d \<Rightarrow> prepend [d] (json_string t)))
      else if of_char c < (32 :: nat) then None
      else prepend [c] (json_string s))"

section \<open>Numbers and literals\<close>

definition digits_of :: "string \<Rightarrow> string \<times> string" where
  "digits_of s = (takeWhile is_digit s, dropWhile is_digit s)"

definition json_number :: "string \<Rightarrow> (string \<times> string) option" where
  "json_number s =
     (let (sign, s1) = (if take 1 s = ''-'' then (''-'', tl s) else ([], s));
          (ip, s2) = (if take 1 s1 = ''0'' then (''0'', tl s1) else digits_of s1);
          (frac, s3) = (if take 1 s2 = ''.'' then map_prod ((@) ''.'') id (digits_of (tl s2)) else ([], s2));
          e = take 1 s3;
          exp = (e = ''e'' \<or> e = ''E'');
          (esign, s4) = (if exp \<and> (take 1 (tl s3) = ''+'' \<or> take 1 (tl s3) = ''-'') then (e @ take 1 (tl s3), drop 2 s3)
                         else if exp then (e, tl s3) else ([], s3));
          (ed, s5) = (if exp then digits_of s4 else ([], s4))
      in if ip = [] \<or> frac = ''.'' \<or> (exp \<and> ed = []) then None
         else Some (sign @ ip @ frac @ esign @ ed, s5))"

definition json_literal :: "string \<Rightarrow> (json \<times> string) option" where
  "json_literal s =
     (if HasPrefix s ''true'' then Some (JBool True, drop 4 s)
      else if HasPrefix s ''false'' then Some (JBool False, drop 5 s)
      else if HasPrefix s ''null'' then Some (JNull, drop 4 s)
      else map_option (\<lambda>(n, r). (JNum n, r)) (json_number s))"

section \<open>The reader\<close>

text \<open>The fuel is the depth of the calls; see \<open>json_fuel\<close> for how much is enough.\<close>

fun json_value :: "nat \<Rightarrow> string \<Rightarrow> (json \<times> string) option"
  and json_elems :: "nat \<Rightarrow> string \<Rightarrow> (json list \<times> string) option"
  and json_members :: "nat \<Rightarrow> string \<Rightarrow> ((string \<times> json) list \<times> string) option" where
  "json_value 0 s = None"
| "json_value (Suc k) s =
     (case skip_space s of
        [] \<Rightarrow> None
      | c # t \<Rightarrow>
          if c = CHR 0x22 then map_option (\<lambda>(x, r). (JStr x, r)) (json_string t)
          else if c = CHR ''['' then
            (if take 1 (skip_space t) = '']'' then Some (JArr [], tl (skip_space t))
             else map_option (\<lambda>(x, r). (JArr x, r)) (json_elems k t))
          else if c = CHR ''{'' then
            (if take 1 (skip_space t) = ''}'' then Some (JObj [], tl (skip_space t))
             else map_option (\<lambda>(x, r). (JObj x, r)) (json_members k t))
          else json_literal (c # t))"
| "json_elems 0 s = None"
| "json_elems (Suc k) s =
     (case json_value k s of
        None \<Rightarrow> None
      | Some (v, r) \<Rightarrow>
          (case skip_space r of
             [] \<Rightarrow> None
           | c # t \<Rightarrow>
               if c = CHR '']'' then Some ([v], t)
               else if c = CHR '','' then map_option (\<lambda>(x, r). (v # x, r)) (json_elems k t)
               else None))"
| "json_members 0 s = None"
| "json_members (Suc k) s =
     (case skip_space s of
        [] \<Rightarrow> None
      | q # s \<Rightarrow>
          if q \<noteq> CHR 0x22 then None
          else (case json_string s of
             None \<Rightarrow> None
           | Some (key, r) \<Rightarrow>
               (case skip_space r of
                  [] \<Rightarrow> None
                | d # u \<Rightarrow>
                    if d \<noteq> CHR '':'' then None
                    else (case json_value k u of
                       None \<Rightarrow> None
                     | Some (v, r) \<Rightarrow>
                         (case skip_space r of
                            [] \<Rightarrow> None
                          | c # t \<Rightarrow>
                              if c = CHR ''}'' then Some ([(key, v)], t)
                              else if c = CHR '','' then map_option (\<lambda>(x, r). ((key, v) # x, r)) (json_members k t)
                              else None)))))"

text \<open>The next value of a stream and what follows it; \<^term>\<open>None\<close> is a syntax error or a value cut
  short by the end.\<close>

definition json_next :: "string \<Rightarrow> (json \<times> string) option" where
  "json_next s = json_value (2 * length s + 1) s"

text \<open>\<open>Decoder.More\<close> looks at the next byte that is not white space.\<close>

definition json_more :: "string \<Rightarrow> bool" where
  "json_more s = (case skip_space s of [] \<Rightarrow> False | c # t \<Rightarrow> c \<noteq> CHR '']'' \<and> c \<noteq> CHR ''}'')"

section \<open>Facts\<close>

lemma length_dropWhile: "length (dropWhile p s) \<le> length s"
  by (rule length_dropWhile_le)

lemma skip_space_Cons: "skip_space s = c # t \<Longrightarrow> length t < length s"
  using length_dropWhile [of json_space s] by simp

lemma prepend_Some: "prepend p r = Some (x, rest) \<longleftrightarrow> (\<exists>y. r = Some (y, rest) \<and> x = p @ y)"
  by (cases r) (auto simp: prepend_def)

lemma json_string_shorter: "json_string s = Some (x, r) \<Longrightarrow> length r < length s"
proof (induction s arbitrary: x r rule: json_string.induct)
  case (2 c s)
  then show ?case
    by (fastforce simp: prepend_Some split: if_splits list.splits option.splits)
qed simp

lemma length_digits_of: "digits_of s = (d, r) \<Longrightarrow> length s = length d + length r"
  unfolding digits_of_def by (auto simp flip: length_append)

lemma json_number_shorter: "json_number s = Some (n, r) \<Longrightarrow> length r < length s"
proof -
  assume n: "json_number s = Some (n, r)"
  obtain sign s1 where 1: "(if take 1 s = ''-'' then (''-'', tl s) else ([], s)) = (sign, s1)" by fastforce
  obtain ip s2 where 2: "(if take 1 s1 = ''0'' then (''0'', tl s1) else digits_of s1) = (ip, s2)" by fastforce
  obtain frac s3 where 3: "(if take 1 s2 = ''.'' then map_prod ((@) ''.'') id (digits_of (tl s2)) else ([], s2)) = (frac, s3)"
    by fastforce
  define e where "e = take 1 s3"
  define ex where "ex = (e = ''e'' \<or> e = ''E'')"
  obtain es s4 where 4: "(if ex \<and> (take 1 (tl s3) = ''+'' \<or> take 1 (tl s3) = ''-'') then (e @ take 1 (tl s3), drop 2 s3)
     else if ex then (e, tl s3) else ([], s3)) = (es, s4)" by fastforce
  obtain ed s5 where 5: "(if ex then digits_of s4 else ([], s4)) = (ed, s5)" by fastforce
  have r: "ip \<noteq> []" "r = s5"
    using n unfolding json_number_def Let_def 1 prod.case 2 3 e_def [symmetric] ex_def [symmetric] 4 5
    by (auto split: if_splits)
  have "length s1 \<le> length s" using 1 by (auto split: if_splits)
  moreover have "length s2 < length s1" using 2 r(1) length_digits_of [of s1 ip s2]
    by (cases s1) (auto split: if_splits)
  moreover have "length s3 \<le> length s2"
    using 3 length_digits_of [of "tl s2"] by (cases "digits_of (tl s2)") (auto split: if_splits)
  moreover have "length s4 \<le> length s3" using 4 by (auto split: if_splits)
  moreover have "length s5 \<le> length s4" using 5 length_digits_of [of s4 ed s5] by (auto split: if_splits)
  ultimately show ?thesis using r(2) by simp
qed

lemma json_literal_shorter: "json_literal s = Some (v, r) \<Longrightarrow> length r < length s"
  using json_number_shorter [of s]
  by (auto simp: json_literal_def HasPrefix_iff split: if_splits)

lemma json_shorter:
  shows "json_value k s = Some (v, r) \<Longrightarrow> length r < length s"
    and "json_elems k s = Some (vs, r) \<Longrightarrow> length r < length s"
    and "json_members k s = Some (ms, r) \<Longrightarrow> length r < length s"
proof (induction k s and k s and k s arbitrary: v r and vs r and ms r
    rule: json_value_json_elems_json_members.induct)
  case (2 k s)
  obtain c t where ct: "skip_space s = c # t" using 2(3) by (cases "skip_space s") auto
  have t: "length t < length s" by (rule skip_space_Cons [OF ct])
  have tl: "length (tl (skip_space t)) \<le> length t" using length_dropWhile [of json_space t] by simp
  have lit: "length r < length s" if "json_literal (c # t) = Some (v, r)"
    using json_literal_shorter [OF that] length_dropWhile [of json_space s] ct by simp
  show ?case
    using 2(3) 2(1,2) [OF ct] t tl lit json_string_shorter [of t]
    by (fastforce simp: ct split: if_splits)
next
  case (4 k s)
  obtain w q where w: "json_value k s = Some (w, q)" using 4(3) by (cases "json_value k s") auto
  have q: "length q < length s" by (rule 4(1) [OF w])
  obtain c t where ct: "skip_space q = c # t" using 4(3) w by (cases "skip_space q") auto
  have t: "length t < length q" by (rule skip_space_Cons [OF ct])
  show ?case using 4(3) 4(2) [OF w refl ct] q t by (fastforce simp: w ct split: if_splits)
next
  case (6 k s)
  obtain c t where ct: "skip_space s = c # t" using 6(3) by (cases "skip_space s") auto
  have c: "c = CHR 0x22" using 6(3) ct by (auto split: if_splits)
  obtain key q where k: "json_string t = Some (key, q)" using 6(3) ct c by (cases "json_string t") auto
  obtain d u where du: "skip_space q = d # u" using 6(3) ct c k by (cases "skip_space q") auto
  have d: "d = CHR '':''" using 6(3) ct c k du by (auto split: if_splits)
  obtain w p where w: "json_value k u = Some (w, p)" using 6(3) ct c k du d by (cases "json_value k u") auto
  obtain x y where xy: "skip_space p = x # y" using 6(3) ct c k du d w by (cases "skip_space p") auto
  have len: "length t < length s" "length q < length t" "length u < length q" "length y < length p"
    using skip_space_Cons [OF ct] json_string_shorter [OF k] skip_space_Cons [OF du] skip_space_Cons [OF xy] by auto
  have "length p < length u" using 6(1) [OF ct _ k refl du _ w] c d by blast
  moreover have "json_members k y = Some (ms', r') \<Longrightarrow> length r' < length y" if "x = CHR '',''" for ms' r'
    using 6(2) [OF ct _ k refl du _ w refl xy] that c d by blast
  ultimately show ?case using 6(3) len by (fastforce simp: ct c k du d w xy split: if_splits)
qed simp_all

text \<open>Twice the length of the text is enough fuel: more does not change the result.\<close>

lemma json_fuel_step:
  shows "2 * length s + 1 \<le> k \<Longrightarrow> json_value (Suc k) s = json_value k s"
    and "2 * length s + 2 \<le> k \<Longrightarrow> json_elems (Suc k) s = json_elems k s"
    and "2 * length s + 2 \<le> k \<Longrightarrow> json_members (Suc k) s = json_members k s"
proof (induction k arbitrary: s)
  case (Suc k)
  {
    case 1
    show ?case
    proof (cases "skip_space s")
      case (Cons c t)
      then have "2 * length t + 2 \<le> k" using skip_space_Cons [OF Cons] 1 by simp
      then show ?thesis using Suc.IH(2,3) [of t] Cons by simp
    qed simp
  next
    case 2
    then have v: "json_value (Suc k) s = json_value k s" using Suc.IH(1) [of s] by simp
    show ?case
    proof (cases "json_value k s")
      case (Some vr)
      obtain w q where w: "json_value k s = Some (w, q)" using Some by (cases vr) auto
      show ?thesis
      proof (cases "skip_space q")
        case (Cons c t)
        have "2 * length t + 2 \<le> k" using skip_space_Cons [OF Cons] json_shorter(1) [OF w] 2 by simp
        then show ?thesis using Suc.IH(2) [of t] Cons v w by simp
      qed (use v w in simp)
    qed (use v in simp)
  next
    case 3
    show ?case
    proof (cases "skip_space s")
      case ct: (Cons c t)
      show ?thesis
      proof (cases "json_string t")
        case (Some vr)
        obtain key q where k: "json_string t = Some (key, q)" using Some by (cases vr) auto
        show ?thesis
        proof (cases "skip_space q")
          case du: (Cons d u)
          have u: "length u + 2 < length s"
            using skip_space_Cons [OF ct] json_string_shorter [OF k] skip_space_Cons [OF du] by simp
          then have v: "json_value (Suc k) u = json_value k u" using 3 Suc.IH(1) [of u] by simp
          show ?thesis
          proof (cases "json_value k u")
            case (Some vr)
            obtain w p where w: "json_value k u = Some (w, p)" using Some by (cases vr) auto
            show ?thesis
            proof (cases "skip_space p")
              case (Cons x y)
              have "2 * length y + 2 \<le> k" using skip_space_Cons [OF Cons] json_shorter(1) [OF w] u 3 by simp
              then show ?thesis using Suc.IH(3) [of y] ct k du v w Cons by simp
            qed (use ct k du v w in simp)
          qed (use ct k du v in simp)
        qed (use ct k in simp)
      qed (use ct in simp)
    qed simp
  }
qed simp_all

lemma json_fuel: "2 * length s + 1 \<le> k \<Longrightarrow> json_value k s = json_next s"
proof -
  have "json_value (2 * length s + 1 + n) s = json_next s" for n
  proof (induction n)
    case (Suc n)
    then show ?case using json_fuel_step(1) [of s "2 * length s + 1 + n"] by simp
  qed (simp add: json_next_def)
  then show "2 * length s + 1 \<le> k \<Longrightarrow> json_value k s = json_next s" by (metis le_add_diff_inverse)
qed

lemma json_next_shorter: "json_next s = Some (v, r) \<Longrightarrow> length r < length s"
  unfolding json_next_def by (rule json_shorter)

lemma json_next_skip: "json_next (skip_space s) = json_next s"
proof -
  have "json_value (2 * length s + 1) (skip_space s) = json_value (2 * length s + 1) s"
    by (simp add: dropWhile_idem)
  moreover have "json_value (2 * length s + 1) (skip_space s) = json_next (skip_space s)"
    using length_dropWhile [of json_space s] by (intro json_fuel) simp
  ultimately show ?thesis by (simp add: json_next_def)
qed

end
