(* ===== verification/Discovery.thy ===== *)
theory Discovery
  imports Config Os_Laws Go_Json "HOL-Library.Monad_Syntax"
begin

text \<open>
  \<open>internal/engine/discovery.go\<close>: which directories below the watch paths are servers, which
  of them are new, and the container of a new server as \<open>docker compose ps\<close> or
  \<open>docker ps\<close> reports it; the uptime and state of a container. The loop over the output of
  \<open>docker compose ps\<close> need not end, so everything that calls it returns an \<open>option\<close>:
  \<^term>\<open>None\<close> is a call that does not return.
\<close>

section \<open>Names\<close>

definition composeFileCandidates :: "string list" where
  "composeFileCandidates = [''docker-compose.yml'', ''compose.yml'', ''docker-compose.yaml'', ''compose.yaml'']"

definition ignored_names :: "string list" where
  "ignored_names = [''lost+found'', ''$recycle.bin'', ''system volume information'', ''@eadir'', ''@tmp'']"

definition isIgnoredServerDir :: "string \<Rightarrow> bool" where
  "isIgnoredServerDir name \<longleftrightarrow> HasPrefix name ''.'' \<or> ToLower name \<in> set ignored_names"

text \<open>\<open>for _, c := range name\<close> decodes runes; a byte from 0x80 on yields one that is rejected.\<close>

definition server_char :: "char \<Rightarrow> bool" where
  "server_char c \<longleftrightarrow>
     (CHR ''a'' \<le> c \<and> c \<le> CHR ''z'') \<or> (CHR ''A'' \<le> c \<and> c \<le> CHR ''Z'') \<or>
     (CHR ''0'' \<le> c \<and> c \<le> CHR ''9'') \<or> c = CHR ''-'' \<or> c = CHR ''_''"

definition isValidServerName :: "string \<Rightarrow> bool" where
  "isValidServerName name \<longleftrightarrow> \<not> (length name = 0 \<or> 64 < length name) \<and> list_all server_char name"

definition fallbackContainerName :: "string \<Rightarrow> string" where
  "fallbackContainerName serverName = serverName @ ''-mc-1''"

text \<open>It only writes a log line.\<close>

definition warnLegacyBackupDir :: "WatchConfig \<Rightarrow> string \<Rightarrow> world \<Rightarrow> world" where
  "warnLegacyBackupDir watch serverName w = snd (os_ReadDir (backupDir watch serverName) w)"

section \<open>The container of a server\<close>

text \<open>\<open>composeService\<close> has one field, so decoding a value yields its name: keys match without
  regard to case, the last one wins, \<open>null\<close> changes nothing. \<^term>\<open>None\<close> is a type error.\<close>

type_synonym composeService = string

fun field_value :: "json \<Rightarrow> string \<Rightarrow> string" where
  "field_value (JStr s) _ = s"
| "field_value _ old = old"

fun field_type_ok :: "json \<Rightarrow> bool" where
  "field_type_ok (JStr s) = True"
| "field_type_ok JNull = True"
| "field_type_ok _ = False"

fun decode_service :: "json \<Rightarrow> composeService option" where
  "decode_service (JObj ms) =
     (let named = filter (\<lambda>(k, _). EqualFold k ''Name'') ms
      in if list_all (\<lambda>(_, v). field_type_ok v) named
         then Some (fold (\<lambda>(_, v). field_value v) named []) else None)"
| "decode_service JNull = Some []"
| "decode_service _ = None"

text \<open>The loop \<open>for decoder.More()\<close>. A syntax error is remembered by the decoder: every later
  \<open>Decode\<close> fails at once and consumes nothing, so the next round is in the same state.\<close>

partial_function (option) decode_services :: "string \<Rightarrow> string option" where
  "decode_services s =
     (if \<not> json_more s then Some []
      else (case json_next s of
              None \<Rightarrow> decode_services s
            | Some (v, r) \<Rightarrow>
                (case decode_service v of
                   None \<Rightarrow> decode_services r
                 | Some name \<Rightarrow> if name \<noteq> [] then Some name else decode_services r)))"

definition compose_ps :: "string \<Rightarrow> string list" where
  "compose_ps composePath = [''docker'', ''compose'', ''-f'', composePath, ''ps'', ''--format'', ''json'']"

definition docker_ps :: "string \<Rightarrow> string list" where
  "docker_ps pattern = [''docker'', ''ps'', ''--filter'', ''name=^/'' @ pattern, ''--format'', ''{{.Names}}'']"

text \<open>The loop over the candidate files: the name found, or the empty string.\<close>

fun compose_names :: "string \<Rightarrow> string list \<Rightarrow> world \<Rightarrow> (string \<times> world) option" where
  "compose_names serverDir [] w = Some ([], w)"
| "compose_names serverDir (fname # fs) w =
     (let composePath = path_join [serverDir, fname]; (st, w) = os_Stat composePath w
      in if st = Inl (NotExist composePath) then compose_names serverDir fs w
         else (let ((ok, out), w) = run_cmd BackgroundCtx (compose_ps composePath) [] w
               in if \<not> ok then compose_names serverDir fs w
                  else (case decode_services out of
                          None \<Rightarrow> None
                        | Some name \<Rightarrow> if name \<noteq> [] then Some (name, w) else compose_names serverDir fs w)))"

definition detectContainerName :: "string \<Rightarrow> string \<Rightarrow> world \<Rightarrow> (string \<times> world) option" where
  "detectContainerName serverDir serverName w =
     (case compose_names serverDir composeFileCandidates w of
        None \<Rightarrow> None
      | Some (name, w) \<Rightarrow>
          if name \<noteq> [] then Some (name, w)
          else (let ((ok, out), w) = run_cmd BackgroundCtx (docker_ps (serverName @ ''-'')) [] w
                in case (if ok then find (\<lambda>n. HasPrefix n (serverName @ ''-'')) (Fields out) else None) of
                     Some n \<Rightarrow> Some (n, w)
                   | None \<Rightarrow> Some (fallbackContainerName serverName, w)))"

definition containerRunning :: "string \<Rightarrow> world \<Rightarrow> bool \<times> world" where
  "containerRunning container w =
     (let ((ok, out), w) = run_cmd BackgroundCtx (docker_ps (container @ ''$'')) [] w
      in (ok \<and> TrimSpace out = container, w))"

section \<open>The uptime of a container\<close>

text \<open>\<open>time.Parse(time.RFC3339Nano, s)\<close> to nanoseconds since the epoch. The hour may have one
  digit, the fraction any number of digits (nine count) after a point or a comma.\<close>

definition take_num :: "nat \<Rightarrow> string \<Rightarrow> (nat \<times> string) option" where
  "take_num n s =
     (if n \<le> length s \<and> list_all is_digit (take n s) then Some (digits_val (take n s), drop n s) else None)"

definition expect :: "char \<Rightarrow> string \<Rightarrow> string option" where
  "expect c s = (case s of x # t \<Rightarrow> if x = c then Some t else None | [] \<Rightarrow> None)"

definition take_hour :: "string \<Rightarrow> (nat \<times> string) option" where
  "take_hour s = (case take_num 2 s of None \<Rightarrow> take_num 1 s | r \<Rightarrow> r)"

definition take_fraction :: "string \<Rightarrow> nat \<times> string" where
  "take_fraction s =
     (case s of
        p # d # t \<Rightarrow>
          if (p = CHR ''.'' \<or> p = CHR '','') \<and> is_digit d
          then (let ds = take 9 (takeWhile is_digit (d # t))
                in (digits_val ds * 10 ^ (9 - length ds), dropWhile is_digit (d # t)))
          else (0, s)
      | _ \<Rightarrow> (0, s))"

definition take_zone :: "string \<Rightarrow> (int \<times> string) option" where
  "take_zone s =
     (case s of
        [] \<Rightarrow> None
      | c # t \<Rightarrow>
          if c = CHR ''Z'' then Some (0, t)
          else if c = CHR ''+'' \<or> c = CHR ''-'' then do {
            (h, t) \<leftarrow> take_num 2 t; t \<leftarrow> expect (CHR '':'') t; (m, t) \<leftarrow> take_num 2 t;
            if 24 < h \<or> 60 < m then None
            else Some ((if c = CHR ''-'' then - 1 else 1) * (int h * 60 + int m), t) }
          else None)"

definition parse_rfc3339 :: "string \<Rightarrow> int option" where
  "parse_rfc3339 s = do {
     (y, s) \<leftarrow> take_num 4 s; s \<leftarrow> expect (CHR ''-'') s; (mo, s) \<leftarrow> take_num 2 s; s \<leftarrow> expect (CHR ''-'') s;
     (d, s) \<leftarrow> take_num 2 s; s \<leftarrow> expect (CHR ''T'') s; (h, s) \<leftarrow> take_hour s; s \<leftarrow> expect (CHR '':'') s;
     (mi, s) \<leftarrow> take_num 2 s; s \<leftarrow> expect (CHR '':'') s; (sec, s) \<leftarrow> take_num 2 s;
     let (ns, s) = take_fraction s in do {
       (off, s) \<leftarrow> take_zone s;
       if s = [] \<and> valid_civil (Civil y mo d h mi) \<and> sec < 60
       then Some ((utc_minutes (Civil y mo d h mi) - off) * nanos_per_minute + int sec * nanos_per_second + int ns)
       else None } }"

text \<open>\<open>time.Since\<close> saturates.\<close>

definition saturate64 :: "int \<Rightarrow> int" where
  "saturate64 d = max min_int64 (min max_int64 d)"

definition docker_inspect :: "string \<Rightarrow> string list" where
  "docker_inspect container = [''docker'', ''inspect'', ''--format'', ''{{.State.StartedAt}}'', container]"

definition containerUptime :: "string \<Rightarrow> world \<Rightarrow> int result \<times> world" where
  "containerUptime container w =
     (let ((ok, out), w) = run_cmd BackgroundCtx (docker_inspect container) [] w
      in if \<not> ok then (Inl (Wrapf ''inspect %s'' CmdFailed), w)
         else (case parse_rfc3339 (TrimSpace out) of
                 None \<Rightarrow> (Inl (Errorf ''parse startedAt %q'' [TrimSpace out]), w)
               | Some t \<Rightarrow> (let (n, w) = now w in (Inr (saturate64 (n - t)), w))))"

section \<open>Servers\<close>

type_synonym found = "WatchConfig \<times> string \<times> ServerConfig"

definition new_server :: "string \<Rightarrow> ServerConfig" where
  "new_server containerName = \<lparr>Enabled = False, Target = ''nas'', ContainerName = containerName,
     RconPassword = [], DataDir = [], PauseIfNoPlayers = False, ServerExcludes = None\<rparr>"

text \<open>The inner loop, over the entries of one watch path. The state \<open>s\<close> is that of \<open>warn\<close>.\<close>

fun discover_entries ::
  "('s \<Rightarrow> WatchConfig \<Rightarrow> string \<Rightarrow> world \<Rightarrow> 's \<times> world) \<Rightarrow> (string \<times> ServerConfig) list \<Rightarrow> WatchConfig \<Rightarrow>
     (string \<times> bool) list \<Rightarrow> 's \<Rightarrow> world \<Rightarrow> ((found list \<times> (string \<times> ServerConfig) list) \<times> 's \<times> world) option" where
  "discover_entries warn known watch [] s w = Some (([], []), s, w)"
| "discover_entries warn known watch ((name, d) # es) s w =
     (if \<not> d \<or> isIgnoredServerDir name \<or> \<not> isValidServerName name
      then discover_entries warn known watch es s w
      else
        (let (s, w) = warn s watch name w
         in case map_of known name of
              Some server \<Rightarrow>
                if \<not> Enabled server then discover_entries warn known watch es s w
                else (case discover_entries warn known watch es s w of
                        None \<Rightarrow> None
                      | Some ((rs, ns), sw) \<Rightarrow> Some (((watch, name, server) # rs, ns), sw))
            | None \<Rightarrow>
                (case detectContainerName (path_join [Path watch, name]) name w of
                   None \<Rightarrow> None
                 | Some (containerName, w) \<Rightarrow>
                     (let server = new_server containerName
                      in case discover_entries warn known watch es s w of
                           None \<Rightarrow> None
                         | Some ((rs, ns), sw) \<Rightarrow>
                             Some (((watch, name, server) # rs, (name, server) # ns), sw)))))"

fun discoverServersWithWarning ::
  "('s \<Rightarrow> WatchConfig \<Rightarrow> string \<Rightarrow> world \<Rightarrow> 's \<times> world) \<Rightarrow> WatchConfig list \<Rightarrow> (string \<times> ServerConfig) list \<Rightarrow>
     's \<Rightarrow> world \<Rightarrow> ((found list \<times> (string \<times> ServerConfig) list) \<times> 's \<times> world) option" where
  "discoverServersWithWarning warn [] known s w = Some (([], []), s, w)"
| "discoverServersWithWarning warn (watch # ws) known s w =
     (case os_ReadDir (Path watch) w of
        (Inl e, w) \<Rightarrow> discoverServersWithWarning warn ws known s w
      | (Inr entries, w) \<Rightarrow>
          (case discover_entries warn known watch entries s w of
             None \<Rightarrow> None
           | Some ((rs, ns), s, w) \<Rightarrow>
               (case discoverServersWithWarning warn ws known s w of
                  None \<Rightarrow> None
                | Some ((rs', ns'), sw) \<Rightarrow> Some ((rs @ rs', ns @ ns'), sw))))"

definition discoverServers ::
  "WatchConfig list \<Rightarrow> (string \<times> ServerConfig) list \<Rightarrow> world \<Rightarrow>
     ((found list \<times> (string \<times> ServerConfig) list) \<times> world) option" where
  "discoverServers watches known w =
     map_option (\<lambda>(r, _, w). (r, w)) (discoverServersWithWarning (\<lambda>s _ _ w. (s, w)) watches known () w)"

section \<open>The loop over the output of docker compose\<close>

text \<open>The well-formed values at the front of a stream, and what is left where reading stops.\<close>

function json_stream :: "string \<Rightarrow> json list \<times> string" where
  "json_stream s =
     (if \<not> json_more s then ([], s)
      else (case json_next s of
              None \<Rightarrow> ([], s)
            | Some (v, r) \<Rightarrow> (case json_stream r of (vs, t) \<Rightarrow> (v # vs, t))))"
  by pat_completeness auto
termination
  by (relation "measure length") (auto dest: json_next_shorter)

declare json_stream.simps [simp del]

definition service_names :: "json list \<Rightarrow> string list" where
  "service_names vs = filter (\<lambda>n. n \<noteq> []) (List.map_filter decode_service vs)"

lemma decode_services_stuck:
  assumes "json_more s" "json_next s = None"
  shows "decode_services s = None"
proof (rule ccontr)
  assume "decode_services s \<noteq> None"
  then obtain r where "decode_services s = Some r" by blast
  then have "\<not> (json_more s \<and> json_next s = None)"
    by (rule decode_services.raw_induct [where P = "\<lambda>s r. \<not> (json_more s \<and> json_next s = None)", rotated])
      (fastforce split: if_splits option.splits prod.splits)
  with assms show False by blast
qed

lemma decode_services_stream:
  "decode_services s =
     (case json_stream s of (vs, rest) \<Rightarrow>
        if service_names vs \<noteq> [] then Some (hd (service_names vs))
        else if json_more rest then None else Some [])"
proof (induction s rule: json_stream.induct)
  case (1 s)
  show ?case
  proof (cases "json_more s")
    case False
    then show ?thesis by (simp add: json_stream.simps [of s] decode_services.simps [of s] service_names_def List.map_filter_simps)
  next
    case more: True
    show ?thesis
    proof (cases "json_next s")
      case None
      then show ?thesis using more decode_services_stuck [OF more None]
        by (simp add: json_stream.simps [of s] service_names_def List.map_filter_simps)
    next
      case (Some vr)
      obtain v r where v: "json_next s = Some (v, r)" using Some by (cases vr) auto
      obtain vs t where t: "json_stream r = (vs, t)" by fastforce
      have IH: "decode_services r = (if service_names vs \<noteq> [] then Some (hd (service_names vs))
          else if json_more t then None else Some [])"
        using 1 [OF _ v refl] more t by simp
      have st: "json_stream s = (v # vs, t)" using more v t by (simp add: json_stream.simps [of s])
      have ds: "decode_services s = (case decode_service v of None \<Rightarrow> decode_services r
          | Some name \<Rightarrow> if name \<noteq> [] then Some name else decode_services r)"
        using more v by (subst decode_services.simps) simp
      have "service_names (v # vs) = (case decode_service v of None \<Rightarrow> service_names vs
          | Some n \<Rightarrow> if n \<noteq> [] then n # service_names vs else service_names vs)"
        by (simp add: service_names_def List.map_filter_simps split: option.split)
      then show ?thesis unfolding st ds using IH by (simp split: option.split)
    qed
  qed
qed

section \<open>Which servers are found\<close>

definition eligible :: "(string \<times> ServerConfig) list \<Rightarrow> string \<times> bool \<Rightarrow> bool" where
  "eligible known e \<longleftrightarrow> (case e of (name, d) \<Rightarrow>
     d \<and> \<not> isIgnoredServerDir name \<and> isValidServerName name \<and>
     (case map_of known name of Some server \<Rightarrow> Enabled server | None \<Rightarrow> True))"

text \<open>Operations that change no file and run no more than the environment's commands.\<close>

definition keeps_fs :: "world \<Rightarrow> world \<Rightarrow> bool" where
  "keeps_fs w w' \<longleftrightarrow> w_fs w' = w_fs w \<and> w_env w' = w_env w"

definition inert_commands :: "os_env \<Rightarrow> bool" where
  "inert_commands e \<longleftrightarrow> (\<forall>k argv f. cmd_fs e k argv f = f)"

definition inert_warn :: "('s \<Rightarrow> WatchConfig \<Rightarrow> string \<Rightarrow> world \<Rightarrow> 's \<times> world) \<Rightarrow> bool" where
  "inert_warn warn \<longleftrightarrow> (\<forall>s wt n w. keeps_fs w (snd (warn s wt n w)))"

lemma keeps_fs_refl [simp]: "keeps_fs w w"
  by (simp add: keeps_fs_def)

lemma keeps_fs_trans: "keeps_fs w w1 \<Longrightarrow> keeps_fs w1 w2 \<Longrightarrow> keeps_fs w w2"
  by (simp add: keeps_fs_def)

lemma run_cmd_keeps: "inert_commands (w_env w) \<Longrightarrow> run_cmd c argv envv w = (r, w') \<Longrightarrow> keeps_fs w w'"
  by (auto simp: run_cmd_def Let_def keeps_fs_def inert_commands_def)

lemma Stat_keeps: "os_Stat p w = (r, w') \<Longrightarrow> keeps_fs w w'"
  by (auto simp: os_Stat_def keeps_fs_def)

lemma ReadDir_keeps: "os_ReadDir p w = (r, w') \<Longrightarrow> keeps_fs w w'"
  by (auto simp: os_ReadDir_def keeps_fs_def)

lemma inert_kept: "keeps_fs w w' \<Longrightarrow> inert_commands (w_env w) \<Longrightarrow> inert_commands (w_env w')"
  by (simp add: keeps_fs_def)

lemma compose_names_keeps:
  "compose_names dir fs w = Some (n, w') \<Longrightarrow> inert_commands (w_env w) \<Longrightarrow> keeps_fs w w'"
proof (induction fs arbitrary: w)
  case (Cons f fs)
  obtain st w1 where 1: "os_Stat (path_join [dir, f]) w = (st, w1)" by fastforce
  obtain ok out w2 where 2: "run_cmd BackgroundCtx (compose_ps (path_join [dir, f])) [] w1 = ((ok, out), w2)"
    by (metis prod.exhaust)
  note k1 = Stat_keeps [OF 1]
  note i1 = inert_kept [OF k1 Cons.prems(2)]
  note k2 = keeps_fs_trans [OF k1 run_cmd_keeps [OF i1 2]]
  note i2 = inert_kept [OF k2 Cons.prems(2)]
  show ?case
    using Cons.prems(1) Cons.IH [OF _ i1] Cons.IH [OF _ i2] 1 2 k1 k2
    by (auto simp: Let_def split: if_splits option.splits intro: keeps_fs_trans)
qed simp

lemma detectContainerName_keeps:
  assumes "detectContainerName dir name w = Some (c, w')" and "inert_commands (w_env w)"
  shows "keeps_fs w w'" and "c \<noteq> []"
proof -
  obtain n w1 where 1: "compose_names dir composeFileCandidates w = Some (n, w1)"
    using assms(1) by (auto simp: detectContainerName_def split: option.splits)
  note k1 = compose_names_keeps [OF 1 assms(2)]
  obtain ok out w2 where 2: "run_cmd BackgroundCtx (docker_ps (name @ ''-'')) [] w1 = ((ok, out), w2)"
    by (metis prod.exhaust)
  note k2 = keeps_fs_trans [OF k1 run_cmd_keeps [OF inert_kept [OF k1 assms(2)] 2]]
  show "keeps_fs w w'" using assms(1) 1 2 k1 k2
    by (auto simp: detectContainerName_def split: if_splits option.splits)
  show "c \<noteq> []" using assms(1) 1 2
    by (auto simp: detectContainerName_def fallbackContainerName_def find_Some_iff HasPrefix_iff
        split: if_splits option.splits)
qed

text \<open>What a found server looks like.\<close>

definition found_ok :: "(string \<times> ServerConfig) list \<Rightarrow> (string \<times> ServerConfig) list \<Rightarrow> found \<Rightarrow> bool" where
  "found_ok known ns x \<longleftrightarrow> (case x of (wt, name, server) \<Rightarrow>
     case map_of known name of
       Some sv \<Rightarrow> server = sv \<and> Enabled sv
     | None \<Rightarrow> (name, server) \<in> set ns \<and> \<not> Enabled server)"

definition new_ok :: "(string \<times> ServerConfig) list \<Rightarrow> string \<times> ServerConfig \<Rightarrow> bool" where
  "new_ok known n \<longleftrightarrow> (case n of (name, server) \<Rightarrow>
     map_of known name = None \<and> (\<exists>c. c \<noteq> [] \<and> server = new_server c) \<and> isValidServerName name)"

lemma found_ok_mono: "found_ok known ns x \<Longrightarrow> set ns \<subseteq> set ns' \<Longrightarrow> found_ok known ns' x"
  by (auto simp: found_ok_def split: prod.splits option.splits)

definition found_keys :: "found list \<Rightarrow> (WatchConfig \<times> string) list" where
  "found_keys rs = List.map (\<lambda>(wt, name, _). (wt, name)) rs"

definition eligible_names :: "(string \<times> ServerConfig) list \<Rightarrow> (string \<times> bool) list \<Rightarrow> string list" where
  "eligible_names known es = List.map fst (filter (eligible known) es)"

definition scanned :: "(string \<times> ServerConfig) list \<Rightarrow> found list \<Rightarrow> (string \<times> ServerConfig) list \<Rightarrow> bool" where
  "scanned known rs ns \<longleftrightarrow> list_all (found_ok known ns) rs \<and> list_all (new_ok known) ns"

lemma scanned_append: "scanned known rs ns \<Longrightarrow> scanned known rs' ns' \<Longrightarrow> scanned known (rs @ rs') (ns @ ns')"
  by (auto simp: scanned_def list_all_iff intro: found_ok_mono)

lemma scanned_old: "scanned known rs ns \<Longrightarrow> map_of known name = Some server \<Longrightarrow> Enabled server \<Longrightarrow>
    scanned known ((wt, name, server) # rs) ns"
  by (simp add: scanned_def found_ok_def)

lemma scanned_new: "scanned known rs ns \<Longrightarrow> map_of known name = None \<Longrightarrow> c \<noteq> [] \<Longrightarrow> isValidServerName name \<Longrightarrow>
    scanned known ((wt, name, new_server c) # rs) ((name, new_server c) # ns)"
  by (auto simp: scanned_def list_all_iff new_ok_def intro: found_ok_mono)
    (simp add: found_ok_def new_server_def)

lemma discover_entries_scanned:
  assumes "discover_entries warn known wt es s w = Some ((rs, ns), s', w')"
    and "inert_warn warn" and "inert_commands (w_env w)"
  shows "found_keys rs = List.map (Pair wt) (eligible_names known es) \<and> scanned known rs ns \<and> keeps_fs w w'"
  using assms(1,3)
proof (induction es arbitrary: s w rs ns)
  case Nil
  then show ?case by (simp add: found_keys_def eligible_names_def scanned_def)
next
  case (Cons e es)
  obtain name d where e: "e = (name, d)" by (cases e)
  show ?case
  proof (cases "\<not> d \<or> isIgnoredServerDir name \<or> \<not> isValidServerName name")
    case True
    then show ?thesis using Cons by (auto simp: e eligible_names_def eligible_def)
  next
    case cand: False
    obtain s1 w1 where 1: "warn s wt name w = (s1, w1)" by fastforce
    have k1: "keeps_fs w w1" using assms(2) 1 unfolding inert_warn_def by (metis snd_conv)
    note i1 = inert_kept [OF k1 Cons.prems(2)]
    show ?thesis
    proof (cases "map_of known name")
      case (Some server)
      show ?thesis
      proof (cases "Enabled server")
        case True
        then obtain rs' where rec: "discover_entries warn known wt es s1 w1 = Some ((rs', ns), s', w')"
          and rs: "rs = (wt, name, server) # rs'"
          using Cons.prems(1) cand 1 Some by (auto simp: e split: option.splits)
        show ?thesis using Cons.IH [OF rec i1] cand Some True k1
          by (auto simp: e rs found_keys_def eligible_names_def eligible_def intro: scanned_old keeps_fs_trans)
      next
        case False
        then have rec: "discover_entries warn known wt es s1 w1 = Some ((rs, ns), s', w')"
          using Cons.prems(1) cand 1 Some by (simp add: e)
        show ?thesis using Cons.IH [OF rec i1] cand Some False k1
          by (auto simp: e eligible_names_def eligible_def intro: keeps_fs_trans)
      qed
    next
      case None
      obtain c w2 where 2: "detectContainerName (path_join [Path wt, name]) name w1 = Some (c, w2)"
        using Cons.prems(1) cand 1 None by (auto simp: e split: option.splits)
      note k2 = keeps_fs_trans [OF k1 detectContainerName_keeps(1) [OF 2 i1]]
      obtain rs' ns' where rec: "discover_entries warn known wt es s1 w2 = Some ((rs', ns'), s', w')"
        and rs: "rs = (wt, name, new_server c) # rs'" "ns = (name, new_server c) # ns'"
        using Cons.prems(1) cand 1 None 2 by (auto simp: e Let_def split: option.splits)
      show ?thesis
        using Cons.IH [OF rec inert_kept [OF k2 Cons.prems(2)]] cand None k2 detectContainerName_keeps(2) [OF 2 i1]
        by (auto simp: e rs found_keys_def eligible_names_def eligible_def intro: scanned_new keeps_fs_trans)
    qed
  qed
qed

text \<open>The directories the scan finds in a file system: those of each watch path that can be read,
  in the order of the configuration and then by name.\<close>

definition servers_in :: "fs \<Rightarrow> (string \<times> ServerConfig) list \<Rightarrow> WatchConfig list \<Rightarrow> (WatchConfig \<times> string) list" where
  "servers_in f known ws = concat (List.map (\<lambda>wt.
     if is_dir f (Path wt) then List.map (Pair wt) (eligible_names known (dir_entries f (Path wt))) else []) ws)"

lemma discover_scanned:
  assumes "discoverServersWithWarning warn ws known s w = Some ((rs, ns), s', w')"
    and "inert_warn warn" and "inert_commands (w_env w)"
  shows "scanned known rs ns \<and> keeps_fs w w' \<and> set (found_keys rs) \<subseteq> set (servers_in (w_fs w) known ws) \<and>
    (no_faults w \<longrightarrow> found_keys rs = servers_in (w_fs w) known ws)"
  using assms(1,3)
proof (induction ws arbitrary: s w rs ns)
  case Nil
  then show ?case by (simp add: found_keys_def servers_in_def scanned_def)
next
  case (Cons wt ws)
  obtain r w1 where 1: "os_ReadDir (Path wt) w = (r, w1)" by fastforce
  note k1 = ReadDir_keeps [OF 1]
  note i1 = inert_kept [OF k1 Cons.prems(2)]
  have nf: "no_faults w \<Longrightarrow> keeps_fs w v \<Longrightarrow> no_faults v" for v using no_faults_env by (auto simp: keeps_fs_def)
  have fs: "keeps_fs w v \<Longrightarrow> w_fs v = w_fs w" for v by (simp add: keeps_fs_def)
  show ?case
  proof (cases r)
    case (Inl e)
    have "discoverServersWithWarning warn ws known s w1 = Some ((rs, ns), s', w')"
      using Cons.prems(1) 1 Inl by simp
    note IH = Cons.IH [OF this i1]
    have "no_faults w \<Longrightarrow> \<not> is_dir (w_fs w) (Path wt)" using 1 Inl by (auto simp: os_ReadDir_def split: if_splits)
    then show ?thesis using IH k1 nf [OF _ k1] fs [OF k1]
      by (auto simp: servers_in_def intro: keeps_fs_trans)
  next
    case (Inr es)
    have es: "es = dir_entries (w_fs w) (Path wt)" "is_dir (w_fs w) (Path wt)"
      using 1 Inr by (auto simp: os_ReadDir_def split: if_splits)
    obtain rs1 ns1 s1 w2 where 2: "discover_entries warn known wt es s w1 = Some ((rs1, ns1), s1, w2)"
      using Cons.prems(1) 1 Inr by (auto split: option.splits)
    note E = discover_entries_scanned [OF 2 assms(2) i1]
    have k2: "keeps_fs w w2" using E k1 by (auto intro: keeps_fs_trans)
    obtain rs2 ns2 where 3: "discoverServersWithWarning warn ws known s1 w2 = Some ((rs2, ns2), s', w')"
      and rs: "rs = rs1 @ rs2" "ns = ns1 @ ns2"
      using Cons.prems(1) 1 Inr 2 by (auto split: option.splits)
    note IH = Cons.IH [OF 3 inert_kept [OF k2 Cons.prems(2)]]
    have keys: "found_keys (rs1 @ rs2) = found_keys rs1 @ found_keys rs2" by (simp add: found_keys_def)
    have here: "servers_in (w_fs w) known (wt # ws) = found_keys rs1 @ servers_in (w_fs w) known ws"
      using E es by (simp add: servers_in_def)
    show ?thesis unfolding rs keys here
      using IH E k2 nf [OF _ k2] fs [OF k2] by (auto intro: scanned_append keeps_fs_trans)
  qed
qed

text \<open>A scan ends when \<open>docker\<close> prints nothing.\<close>

definition silent_output :: "os_env \<Rightarrow> bool" where
  "silent_output e \<longleftrightarrow> (\<forall>k argv. cmd_out e k argv = []) \<and> inert_commands e"

lemma compose_names_returns: "silent_output (w_env w) \<Longrightarrow> compose_names dir fs w \<noteq> None"
proof (induction fs arbitrary: w)
  case (Cons f fs)
  obtain st w1 where 1: "os_Stat (path_join [dir, f]) w = (st, w1)" by fastforce
  obtain ok out w2 where 2: "run_cmd BackgroundCtx (compose_ps (path_join [dir, f])) [] w1 = ((ok, out), w2)"
    by (metis prod.exhaust)
  have k1: "silent_output (w_env w1)" using Stat_keeps [OF 1] Cons.prems by (simp add: keeps_fs_def)
  have "silent_output (w_env w2)"
    using run_cmd_keeps [OF _ 2] k1 by (simp add: keeps_fs_def silent_output_def)
  moreover have "out = []" using 2 k1 by (auto simp: run_cmd_def Let_def silent_output_def)
  moreover have "decode_services [] = Some []" by (simp add: decode_services.simps json_more_def)
  ultimately show ?case using Cons.IH k1 1 2 by (simp add: Let_def)
qed simp

lemma detectContainerName_returns: "silent_output (w_env w) \<Longrightarrow> detectContainerName dir name w \<noteq> None"
  using compose_names_returns [of w dir composeFileCandidates]
  by (auto simp: detectContainerName_def Let_def split: option.split prod.split)

lemma discover_entries_returns:
  "silent_output (w_env w) \<Longrightarrow> discover_entries (\<lambda>s _ _ w. (s, w)) known wt es s w \<noteq> None"
proof (induction es arbitrary: s w)
  case (Cons e es)
  obtain name d where e: "e = (name, d)" by (cases e)
  obtain c w1 where det: "detectContainerName (path_join [Path wt, name]) name w = Some (c, w1)"
    using detectContainerName_returns [OF Cons.prems, of "path_join [Path wt, name]" name] by fastforce
  have "silent_output (w_env w1)"
    using detectContainerName_keeps(1) [OF det] Cons.prems by (simp add: silent_output_def keeps_fs_def)
  from Cons.IH [OF this, of s] Cons.IH [OF Cons.prems, of s] obtain rs ns sw rs' ns' sw' where
    "discover_entries (\<lambda>s _ _ w. (s, w)) known wt es s w1 = Some ((rs, ns), sw)"
    "discover_entries (\<lambda>s _ _ w. (s, w)) known wt es s w = Some ((rs', ns'), sw')" by (metis option.exhaust prod.exhaust)
  then show ?case by (simp add: e det Let_def split: option.split)
qed simp

lemma discoverServers_returns: "silent_output (w_env w) \<Longrightarrow> discoverServers ws known w \<noteq> None"
proof -
  have "silent_output (w_env w) \<Longrightarrow> discoverServersWithWarning (\<lambda>s _ _ w. (s, w)) ws known () w \<noteq> None"
  proof (induction ws arbitrary: w)
    case (Cons wt ws)
    obtain r w1 where 1: "os_ReadDir (Path wt) w = (r, w1)" by fastforce
    have k1: "silent_output (w_env w1)" using ReadDir_keeps [OF 1] Cons.prems by (simp add: keeps_fs_def)
    show ?case
    proof (cases r)
      case (Inl e)
      then show ?thesis using Cons.IH [OF k1] 1 by simp
    next
      case (Inr es)
      obtain rs ns u w2 where 2: "discover_entries (\<lambda>s _ _ w. (s, w)) known wt es () w1 = Some ((rs, ns), u, w2)"
        using discover_entries_returns [OF k1, of known wt es "()"] by auto
      have "inert_warn (\<lambda>(s :: unit) _ _ w. (s, w))" by (simp add: inert_warn_def)
      then have "keeps_fs w1 w2" using discover_entries_scanned [OF 2] k1 by (simp add: silent_output_def)
      then show ?thesis using Cons.IH [of w2] k1 1 2 Inr by (auto simp: keeps_fs_def)
    qed
  qed simp
  then show "silent_output (w_env w) \<Longrightarrow> ?thesis" by (simp add: discoverServers_def)
qed

section \<open>Properties\<close>

text \<open>C34: When reading the output of \<open>docker compose ps\<close> ends. The result is the first
  nonempty name among the well-formed JSON values at the front of the output; without one the
  loop ends exactly if what is left after them is empty or starts with a closing bracket.
  In every other case (say, a line of plain text) it never returns.\<close>

theorem compose_output_loop:
  "decode_services out =
     (case json_stream out of (vs, rest) \<Rightarrow>
        if service_names vs \<noteq> [] then Some (hd (service_names vs))
        else if json_more rest then None else Some [])"
  by (rule decode_services_stream)

text \<open>C33: A scan finds exactly the servers that are there. When directories can be read, the
  servers found are the subdirectories of the watch paths with a valid name that is not
  ignored, except those the configuration disables, in order; a configured one comes with its
  configuration. One that is not configured comes disabled, with target nas and the name of a
  container, and is reported as new: it is not backed up before somebody enables it.\<close>

theorem discovery_exact:
  assumes "discoverServers ws known w = Some ((rs, ns), w')" and "no_faults w" and "inert_commands (w_env w)"
  shows "found_keys rs = servers_in (w_fs w) known ws \<and> list_all (found_ok known ns) rs \<and> list_all (new_ok known) ns"
proof -
  obtain u where run: "discoverServersWithWarning (\<lambda>s _ _ w. (s, w)) ws known () w = Some ((rs, ns), u, w')"
    using assms(1) by (auto simp: discoverServers_def)
  have "inert_warn (\<lambda>(s :: unit) _ _ w. (s, w))" by (simp add: inert_warn_def)
  from discover_scanned [OF run this assms(3)] assms(2) show ?thesis by (simp add: scanned_def)
qed

definition srv_fs :: fs where
  "srv_fs = [(''/m'', DirNode), (''/m/s'', DirNode), (''/m/off'', DirNode), (''/m/.x'', DirNode), (''/m/f'', FileNode [] 420),
     (''/m/n'', DirNode)]"

definition srv_known :: "(string \<times> ServerConfig) list" where
  "srv_known = [(''s'', zero_ServerConfig\<lparr>Enabled := True\<rparr>), (''off'', zero_ServerConfig)]"

definition srv_watch :: WatchConfig where
  "srv_watch = \<lparr>Path = ''/m'', Namespace = ''mc''\<rparr>"


lemma srv_entries: "dir_entries srv_fs ''/m'' = [(''.x'', True), (''f'', False), (''n'', True), (''off'', True), (''s'', True)]"
  by code_simp

theorem discovery_exact_witness:
  "case discoverServers [srv_watch] srv_known (quiet_world srv_fs) of
     None \<Rightarrow> False
   | Some ((rs, ns), _) \<Rightarrow> found_keys rs = [(srv_watch, ''n''), (srv_watch, ''s'')] \<and> ns \<noteq> []"
proof -
  have "discoverServers [srv_watch] srv_known (quiet_world srv_fs) \<noteq> None"
    by (intro discoverServers_returns) (simp_all add: silent_output_def inert_commands_def quiet_env_def)
  then obtain rs ns w' where run: "discoverServers [srv_watch] srv_known (quiet_world srv_fs) = Some ((rs, ns), w')"
    by auto
  have "inert_commands (w_env (quiet_world srv_fs))" by (simp add: inert_commands_def quiet_env_def)
  note D = discovery_exact [OF run _ this]
  have "servers_in srv_fs srv_known [srv_watch] = [(srv_watch, ''n''), (srv_watch, ''s'')]"
    by code_simp
  with D have keys: "found_keys rs = [(srv_watch, ''n''), (srv_watch, ''s'')]" by simp
  then obtain c rs' where "rs = (srv_watch, ''n'', c) # rs'" by (cases rs) (auto simp: found_keys_def)
  then have "ns \<noteq> []" using D by (auto simp: found_ok_def srv_known_def)
  with keys show ?thesis by (simp add: run)
qed

end
