(* ===== verification/Config_Save.thy ===== *)
theory Config_Save
  imports Config File_Replace Discovery
begin

text \<open>
  Writing the configuration (\<open>config.go\<close>): \<open>SaveConfig\<close>, \<open>SaveAutoServers\<close> and \<open>saveSplit\<close>,
  which replaces the main file and the file of auto-provisioned servers together and rolls back
  when a step fails. The TOML library is an argument: \<open>tomllib\<close> holds its decoder, which reads
  a text into a configuration, its decoder into a table of servers, and its encoder, which
  yields the text it writes and the error it ends with, if any.
\<close>

section \<open>Definitions\<close>

record tomllib =
  TomlDecode :: "string \<Rightarrow> Config \<Rightarrow> Config result"
  TomlServers :: "string \<Rightarrow> (string \<times> ServerConfig) list result"
  TomlEncode :: "Config \<Rightarrow> string \<times> error option"

text \<open>\<open>toml.DecodeFile\<close> with one of the two decoders.\<close>

definition DecodeFile :: "(string \<Rightarrow> 'a result) \<Rightarrow> string \<Rightarrow> world \<Rightarrow> 'a result \<times> world" where
  "DecodeFile dec path w =
     (case os_ReadFile path w of
        (Inl e, w) \<Rightarrow> (Inl e, w)
      | (Inr text, w) \<Rightarrow> (dec text, w))"

definition IsNotExist :: "error \<Rightarrow> bool" where
  "IsNotExist e = (case e of NotExist _ \<Rightarrow> True | _ \<Rightarrow> False)"

definition autoServersPath :: "string \<Rightarrow> string" where
  "autoServersPath cfgPath = TrimSuffix cfgPath ''.toml'' @ ''-auto.toml''"

definition cloneConfig :: "Config \<Rightarrow> Config" where
  "cloneConfig src = \<lparr>Global = Global src, Local = Local src, NAS = NAS src, Retention = Retention src,
     Watch = Watch src, Servers = fold (\<lambda>(k, v). AList.update k v) (Servers src) []\<rparr>"

text \<open>The set of names as a list without repetition.\<close>

definition loadAutoServerNames :: "tomllib \<Rightarrow> string \<Rightarrow> world \<Rightarrow> string list \<times> world" where
  "loadAutoServerNames toml cfgPath w =
     (case DecodeFile (TomlServers toml) (autoServersPath cfgPath) w of
        (Inl e, w) \<Rightarrow> ([], w)
      | (Inr servers, w) \<Rightarrow> (remdups (List.map (\<lambda>(k, _). ToLower k) servers), w))"

text \<open>\<open>%q\<close>, as \<open>strconv.Quote\<close> writes it; bytes from 0x80 on are taken as parts of printable text.\<close>

definition hex_char :: "nat \<Rightarrow> char" where
  "hex_char d = (if d < 10 then digit_char d else char_of (87 + d))"

definition quote_char :: "char \<Rightarrow> string" where
  "quote_char c =
     (if c = CHR 0x22 then [CHR 0x5C, CHR 0x22]
      else if c = CHR 0x5C then [CHR 0x5C, CHR 0x5C]
      else if c = CHR 0x07 then [CHR 0x5C, CHR ''a'']
      else if c = CHR 0x08 then [CHR 0x5C, CHR ''b'']
      else if c = CHR 0x0C then [CHR 0x5C, CHR ''f'']
      else if c = CHR 0x0A then [CHR 0x5C, CHR ''n'']
      else if c = CHR 0x0D then [CHR 0x5C, CHR ''r'']
      else if c = CHR 0x09 then [CHR 0x5C, CHR ''t'']
      else if c = CHR 0x0B then [CHR 0x5C, CHR ''v'']
      else if of_char c < (32 :: nat) \<or> of_char c = (127 :: nat)
      then [CHR 0x5C, CHR ''x'', hex_char (of_char c div 16), hex_char (of_char c mod 16)]
      else [c])"

definition quoted :: "string \<Rightarrow> string" where
  "quoted s = CHR 0x22 # concat (List.map quote_char s) @ [CHR 0x22]"

definition formatTOMLStringSlice :: "string list \<Rightarrow> string" where
  "formatTOMLStringSlice items = CHR ''['' # Join (List.map quoted items) '', '' @ '']''"

definition line :: "string \<Rightarrow> string" where
  "line s = s @ [CHR 0x0A]"

definition auto_lines :: "string \<times> ServerConfig \<Rightarrow> string list" where
  "auto_lines ns = (case ns of (name, s) \<Rightarrow>
     (let target = (if Target s = [] then ''nas'' else Target s);
          container = (if ContainerName s = [] then fallbackContainerName name else ContainerName s)
      in [CHR 0x0A # line (''[server.'' @ name @ '']''),
          line (''enabled = '' @ show_bool (Enabled s)),
          line (''target = '' @ quoted target),
          line (''container_name = '' @ quoted container),
          line (''rcon_password = '' @ quoted (RconPassword s)),
          line ''# defaults to <watch.path>/<server>/mc-data if empty'',
          line (''data_dir = '' @ quoted (DataDir s)),
          line (''pause_if_no_players = '' @ show_bool (PauseIfNoPlayers s))] @
         (case ServerExcludes s of
            None \<Rightarrow> []
          | Some ex \<Rightarrow> [line (''excludes = '' @ formatTOMLStringSlice ex)])))"

text \<open>The result of each \<open>Fprintf\<close> is ignored.\<close>

definition writeAutoServersTo :: "string \<Rightarrow> (string \<times> ServerConfig) list \<Rightarrow> world \<Rightarrow> world" where
  "writeAutoServersTo f servers w =
     fold (\<lambda>l w. snd (os_Write f l w)) (concat (List.map auto_lines servers)) w"

definition encode_to :: "tomllib \<Rightarrow> string \<Rightarrow> Config \<Rightarrow> world \<Rightarrow> unit result \<times> world" where
  "encode_to toml f cfg w =
     (case os_Write f (fst (TomlEncode toml cfg)) w of
        (Inl e, w) \<Rightarrow> (Inl e, w)
      | (Inr _, w) \<Rightarrow> (case snd (TomlEncode toml cfg) of Some e \<Rightarrow> (Inl e, w) | None \<Rightarrow> (Inr (), w)))"

text \<open>\<open>f.Sync()\<close> and \<open>f.Close()\<close>, the file closed after a failed sync as well.\<close>

definition sync_close :: "string \<Rightarrow> world \<Rightarrow> unit result \<times> world" where
  "sync_close f w =
     (case os_Sync f w of
        (Inl e, w) \<Rightarrow> (Inl (Wrapf ''sync %s'' e), snd (os_Close f w))
      | (Inr _, w) \<Rightarrow>
          (case os_Close f w of (Inl e, w) \<Rightarrow> (Inl (Wrapf ''close %s'' e), w) | (Inr _, w) \<Rightarrow> (Inr (), w)))"

definition SaveConfig :: "tomllib \<Rightarrow> string \<Rightarrow> Config \<Rightarrow> world \<Rightarrow> unit result \<times> world" where
  "SaveConfig toml path cfg w =
     (case os_CreateTemp (Dir_of path) (Base path @ ''.'') ''.tmp'' w of
        (Inl e, w) \<Rightarrow> (Inl (Wrapf ''create temp for %s'' e), w)
      | (Inr tmp, w) \<Rightarrow>
          (let (r, w) =
             (case encode_to toml tmp cfg w of
                (Inl e, w) \<Rightarrow> (Inl (Wrapf ''encode %s'' e), snd (os_Close tmp w))
              | (Inr _, w) \<Rightarrow>
                  (case sync_close tmp w of
                     (Inl e, w) \<Rightarrow> (Inl e, w)
                   | (Inr _, w) \<Rightarrow>
                       (case os_Rename tmp path w of
                          (Inl e, w) \<Rightarrow> (Inl (Wrapf ''replace %s'' e), w)
                        | (Inr _, w) \<Rightarrow> (Inr (), w))))
           in (r, snd (os_Remove tmp w))))"

definition SaveAutoServers :: "string \<Rightarrow> (string \<times> ServerConfig) list \<Rightarrow> world \<Rightarrow> unit result \<times> world" where
  "SaveAutoServers cfgPath servers w =
     (let autoPath = autoServersPath cfgPath
      in if servers = [] then (Inr (), snd (os_Remove autoPath w))
         else
           (case os_CreateTemp (Dir_of autoPath) (Base autoPath @ ''.'') ''.tmp'' w of
              (Inl e, w) \<Rightarrow> (Inl (Wrapf ''create temp for %s'' e), w)
            | (Inr tmp, w) \<Rightarrow>
                (let (r, w) =
                   (case os_Chmod tmp 384 w of
                      (Inl e, w) \<Rightarrow> (Inl (Wrapf ''chmod temp %s'' e), snd (os_Close tmp w))
                    | (Inr _, w) \<Rightarrow>
                        (case sync_close tmp (writeAutoServersTo tmp servers w) of
                           (Inl e, w) \<Rightarrow> (Inl e, w)
                         | (Inr _, w) \<Rightarrow>
                             (case os_Rename tmp autoPath w of
                                (Inl e, w) \<Rightarrow> (Inl (Wrapf ''replace %s'' e), w)
                              | (Inr _, w) \<Rightarrow> os_Chmod autoPath 384 w)))
                 in (r, snd (os_Remove tmp w)))))"

section \<open>Saving both files\<close>

text \<open>The servers that move to the auto file: for every name in it, the server of that name.\<close>

fun split_auto :: "string list \<Rightarrow> (string \<times> ServerConfig) list \<Rightarrow>
    (string \<times> ServerConfig) list \<times> (string \<times> ServerConfig) list" where
  "split_auto [] servers = ([], servers)"
| "split_auto (name # names) servers =
     (case map_of servers name of
        Some s \<Rightarrow> (let (auto, rest) = split_auto names (AList.delete name servers) in ((name, s) # auto, rest))
      | None \<Rightarrow> split_auto names servers)"

text \<open>Step 1: a temporary file with the given mode, filled by \<open>fill\<close>. On success the name of the
  file; on failure the error and the name, if a file was created.\<close>

definition write_temp ::
  "string \<Rightarrow> string \<Rightarrow> nat \<Rightarrow> (string \<Rightarrow> world \<Rightarrow> unit result \<times> world) \<Rightarrow> world \<Rightarrow>
     (unit result \<times> string option) \<times> world" where
  "write_temp dir path mode fill w =
     (case os_CreateTemp dir (Base path @ ''.'') ''.tmp'' w of
        (Inl e, w) \<Rightarrow> ((Inl (Wrapf ''create temp for %s'' e), None), w)
      | (Inr tmp, w) \<Rightarrow>
          (case os_Chmod tmp mode w of
             (Inl e, w) \<Rightarrow> ((Inl (Wrapf ''chmod temp %s'' e), Some tmp), snd (os_Close tmp w))
           | (Inr _, w) \<Rightarrow>
               (case fill tmp w of
                  (Inl e, w) \<Rightarrow> ((Inl (Wrapf ''encode %s'' e), Some tmp), snd (os_Close tmp w))
                | (Inr _, w) \<Rightarrow> (let (r, w) = sync_close tmp w in ((r, Some tmp), w)))))"

record split_paths =
  MainPath :: string
  AutoPath :: string
  MainTemp :: string
  AutoTemp :: string
  MainBackup :: string
  AutoBackup :: string
  MainExisted :: bool
  AutoExisted :: bool
  HasAuto :: bool

text \<open>One half of \<open>rollback\<close>: put the backup back, or remove what was not there before. The
  result is the list of errors.\<close>

definition restore :: "bool \<Rightarrow> bool \<Rightarrow> string \<Rightarrow> string \<Rightarrow> world \<Rightarrow> error list \<times> world" where
  "restore backupCreated discard backup path w =
     (if backupCreated then
        (case os_Rename backup path w of
           (Inr _, w) \<Rightarrow> ([], w)
         | (Inl e, w) \<Rightarrow> ([Wrapf ''rollback %s'' e], w))
      else if discard then ([], snd (os_Remove path w))
      else ([], w))"

definition rollback :: "split_paths \<Rightarrow> bool \<Rightarrow> bool \<Rightarrow> error \<Rightarrow> world \<Rightarrow> unit result \<times> world" where
  "rollback p mainBackupCreated autoBackupCreated origErr w =
     (let (es1, w) = restore autoBackupCreated (HasAuto p \<and> \<not> AutoExisted p) (AutoBackup p) (AutoPath p) w;
          (es2, w) = restore mainBackupCreated (\<not> MainExisted p) (MainBackup p) (MainPath p) w
      in (Inl (if es1 @ es2 \<noteq> [] then Joined (origErr # es1 @ es2) else origErr), w))"

text \<open>Step 2, first for the auto file, which is replaced or moved away.\<close>

definition replace_auto :: "split_paths \<Rightarrow> world \<Rightarrow> unit result \<times> world" where
  "replace_auto p w =
     (if HasAuto p then
        (case (if AutoExisted p then os_Rename (AutoPath p) (AutoBackup p) w else (Inr (), w)) of
           (Inl e, w) \<Rightarrow> rollback p (MainExisted p) False (Wrapf ''backup %s'' e) w
         | (Inr _, w) \<Rightarrow>
             (case os_Rename (AutoTemp p) (AutoPath p) w of
                (Inl e, w) \<Rightarrow> rollback p (MainExisted p) (AutoExisted p) (Wrapf ''replace %s'' e) w
              | (Inr _, w) \<Rightarrow>
                  (case os_Chmod (AutoPath p) 384 w of
                     (Inl e, w) \<Rightarrow> rollback p (MainExisted p) (AutoExisted p) (Wrapf ''chmod %s'' e) w
                   | (Inr _, w) \<Rightarrow> (Inr (), w))))
      else if AutoExisted p then
        (case os_Rename (AutoPath p) (AutoBackup p) w of
           (Inl e, w) \<Rightarrow> rollback p (MainExisted p) False (Wrapf ''remove auto %s'' e) w
         | (Inr _, w) \<Rightarrow> (Inr (), w))
      else (Inr (), w))"

text \<open>On success a backup was created of each file that existed.\<close>

definition replace_files :: "split_paths \<Rightarrow> world \<Rightarrow> unit result \<times> world" where
  "replace_files p w =
     (case (if MainExisted p then os_Rename (MainPath p) (MainBackup p) w else (Inr (), w)) of
        (Inl e, w) \<Rightarrow> (Inl (Wrapf ''backup %s'' e), w)
      | (Inr _, w) \<Rightarrow>
          (case os_Rename (MainTemp p) (MainPath p) w of
             (Inl e, w) \<Rightarrow> rollback p (MainExisted p) False (Wrapf ''replace %s'' e) w
           | (Inr _, w) \<Rightarrow> replace_auto p w))"

text \<open>The deferred removal of the backups.\<close>

definition drop_backups :: "split_paths \<Rightarrow> world \<Rightarrow> world" where
  "drop_backups p w =
     (let w = (if MainExisted p then snd (os_Remove (MainBackup p) w) else w)
      in if AutoExisted p then snd (os_Remove (AutoBackup p) w) else w)"

definition remove_temp :: "string option \<Rightarrow> world \<Rightarrow> world" where
  "remove_temp t w = (case t of None \<Rightarrow> w | Some tmp \<Rightarrow> snd (os_Remove tmp w))"

text \<open>The part of \<open>saveSplit\<close> after the temporary files were written: step 2 and the deferred calls.\<close>

definition finish_split :: "split_paths \<Rightarrow> world \<Rightarrow> unit result \<times> world" where
  "finish_split p w =
     (let (r, w) = replace_files p w; w = (if is_ok r then drop_backups p w else w)
      in (r, remove_temp (Some (MainTemp p)) (remove_temp (if HasAuto p then Some (AutoTemp p) else None) w)))"

definition backup_name :: "string \<Rightarrow> string \<Rightarrow> int \<Rightarrow> string" where
  "backup_name dir path t = path_join [dir, CHR ''.'' # Base path @ ''.bak.'' @ show_int t]"

definition saveSplit :: "tomllib \<Rightarrow> string \<Rightarrow> Config \<Rightarrow> world \<Rightarrow> unit result \<times> world" where
  "saveSplit toml path cfg w =
     (let (autoNames, w) = loadAutoServerNames toml path w;
          (auto, rest) = split_auto autoNames (Servers (cloneConfig cfg));
          main = (cloneConfig cfg)\<lparr>Servers := rest\<rparr>;
          autoPath = autoServersPath path; dir = Dir_of path;
          (mst, w) = os_Stat path w;
          mainMode = (case mst of Inr (FileNode _ m) \<Rightarrow> m | Inr DirNode \<Rightarrow> 493 | Inl _ \<Rightarrow> 384);
          (ast, w) = os_Stat autoPath w
      in case write_temp dir path mainMode (\<lambda>f. encode_to toml f main) w of
           ((Inl e, t), w) \<Rightarrow> (Inl e, remove_temp t w)
         | ((Inr _, mt), w) \<Rightarrow>
             (case (if auto = [] then ((Inr (), None), w)
                    else write_temp dir autoPath 384 (\<lambda>f w. (Inr (), writeAutoServersTo f auto w)) w) of
                ((Inl e, t), w) \<Rightarrow> (Inl e, remove_temp mt (remove_temp t w))
              | ((Inr _, at), w) \<Rightarrow>
                  (let (t, w) = now w;
                       p = \<lparr>MainPath = path, AutoPath = autoPath, MainTemp = the mt, AutoTemp = (case at of None \<Rightarrow> [] | Some a \<Rightarrow> a),
                            MainBackup = backup_name dir path t, AutoBackup = backup_name dir autoPath t,
                            MainExisted = is_ok mst, AutoExisted = is_ok ast, HasAuto = (auto \<noteq> [])\<rparr>
                   in finish_split p w)))"

end
