(* ===== verification/Flat_Files.thy ===== *)
theory Flat_Files
  imports File_Replace
begin

text \<open>
  An abstract view of the files of one directory: for a set of siblings none of which is a
  directory, each file operation is an update of the map from paths to files. The code that
  works with several files at once (\<open>saveSplit\<close>) is verified over this view.
\<close>

definition siblings :: "string \<Rightarrow> string set \<Rightarrow> bool" where
  "siblings d S \<longleftrightarrow> S \<subseteq> {dir_prefix d @ n |n. entry_name n}"

definition flat :: "string set \<Rightarrow> (string \<rightharpoonup> node) \<Rightarrow> bool" where
  "flat S M \<longleftrightarrow> (\<forall>p\<in>S. M p \<noteq> Some DirNode \<and> (\<forall>q. under p q \<and> q \<noteq> p \<longrightarrow> M q = None))"

lemma siblings_under: "siblings d S \<Longrightarrow> p \<in> S \<Longrightarrow> q \<in> S \<Longrightarrow> under p q \<longleftrightarrow> p = q"
  unfolding siblings_def using under_child_iff by blast

lemma siblings_not_root: "siblings d S \<Longrightarrow> p \<in> S \<Longrightarrow> p \<noteq> ''/'' \<and> p \<noteq> []"
proof -
  assume "siblings d S" "p \<in> S"
  then obtain n where n: "p = dir_prefix d @ n" "n \<noteq> []" by (auto simp: siblings_def entry_name_def)
  have "length (dir_prefix d) \<ge> 1" using dir_prefix_ne [of d] by (cases "dir_prefix d") auto
  then have "length p \<ge> 2" using n by (cases "n") auto
  then show "p \<noteq> ''/'' \<and> p \<noteq> []" by auto
qed

lemma flat_update: "siblings d S \<Longrightarrow> flat S M \<Longrightarrow> a \<in> S \<Longrightarrow> n \<noteq> Some DirNode \<Longrightarrow> flat S (M(a := n))"
  unfolding flat_def using siblings_under by auto

lemma flat_files: "flat S (map_of f) \<Longrightarrow> siblings d S \<Longrightarrow> p \<in> S \<Longrightarrow> \<not> is_dir f p"
  using siblings_not_root by (auto simp: flat_def is_dir_def)

text \<open>The steps of the program: silent, and an update of the view.\<close>

definition becomes :: "world \<Rightarrow> (string \<rightharpoonup> node) \<Rightarrow> world \<Rightarrow> bool" where
  "becomes w M w' \<longleftrightarrow> runs w [] w' \<and> map_of (w_fs w') = M"

lemma becomes_trans: "becomes w M w1 \<Longrightarrow> becomes w1 M' w2 \<Longrightarrow> becomes w M' w2"
  unfolding becomes_def using runs_quiet by blast

lemma becomes_env: "becomes w M w' \<Longrightarrow> w_env w' = w_env w"
  by (simp add: becomes_def runs_def)

lemma becomes_fs: "becomes w M w' \<Longrightarrow> map_of (w_fs w') = M"
  by (simp add: becomes_def)

lemma becomes_faults: "becomes w M w' \<Longrightarrow> no_faults w \<Longrightarrow> no_faults w'"
  using no_faults_env by (auto simp: becomes_env)

lemma becomes_silent: "runs w [] w' \<Longrightarrow> w_fs w' = w_fs w \<Longrightarrow> becomes w (map_of (w_fs w)) w'"
  by (simp add: becomes_def)

lemma flat_Rename:
  assumes sib: "siblings d S" and fl: "flat S (map_of (w_fs w))" and ab: "a \<in> S" "b \<in> S" "a \<noteq> b"
    and ren: "os_Rename a b w = (r, w')"
  shows "becomes w (if is_ok r then (map_of (w_fs w))(a := None, b := map_of (w_fs w) a) else map_of (w_fs w)) w'"
    and "is_ok r \<Longrightarrow> map_of (w_fs w) a \<noteq> None"
proof -
  let ?f = "w_fs w"
  have ne: "a \<noteq> ''/''" "b \<noteq> ''/''" using siblings_not_root [OF sib] ab by auto
  have apart: "\<not> under a b" "\<not> under b a" using siblings_under [OF sib] ab by auto
  have disj: "\<not> under a q" if "under b q" for q using under_chain [OF _ that] ne apart by blast
  have below: "map_of ?f q = None" if "under p q" "q \<noteq> p" "p \<in> S" for p q using fl that by (auto simp: flat_def)
  have "map_of (rename_fs a b ?f) q = ((map_of ?f)(a := None, b := map_of ?f a)) q" for q
  proof (cases "under b q")
    case True
    then obtain s where s: "q = b @ s" "s = [] \<or> hd s = CHR ''/''" using ne under_proper by metis
    have "map_of (rename_fs a b ?f) q = map_of ?f (a @ s)"
      unfolding s(1) by (rule rename_fs_moved [OF ne disj s(2)])
    moreover have "map_of ?f (a @ s) = None" "map_of ?f q = None" if "s \<noteq> []"
    proof -
      show "map_of ?f (a @ s) = None" using s(2) that ne(1) ab(1) by (intro below [of a]) (auto simp: under_proper)
      show "map_of ?f q = None" using True that s(1) ab(2) by (intro below [of b]) auto
    qed
    moreover have "q \<noteq> a" using True apart by auto
    ultimately show ?thesis using s(1) by (cases "s = []") auto
  next
    case b: False
    show ?thesis
    proof (cases "under a q")
      case True
      have "map_of (rename_fs a b ?f) q = None" by (rule rename_fs_gone [OF ne disj True])
      moreover have "q \<noteq> b" using b by auto
      moreover have "q \<noteq> a \<Longrightarrow> map_of ?f q = None" using below [OF True _ ab(1)] by simp
      ultimately show ?thesis by auto
    next
      case False
      then have "q \<noteq> a" "q \<noteq> b" using b by auto
      then show ?thesis using rename_fs_other [OF ne False b] by simp
    qed
  qed
  then have fs: "map_of (rename_fs a b ?f) = (map_of ?f)(a := None, b := map_of ?f a)" by (rule ext)
  have "map_of (w_fs w') = (if is_ok r then (map_of ?f)(a := None, b := map_of ?f a) else map_of ?f)"
    using ren fs by (auto simp: os_Rename_def split: if_splits)
  then show "becomes w (if is_ok r then (map_of ?f)(a := None, b := map_of ?f a) else map_of ?f) w'"
    using rename.silent [OF ren] by (simp add: becomes_def)
  show "is_ok r \<Longrightarrow> map_of ?f a \<noteq> None" using ren by (auto simp: os_Rename_def can_rename_def split: if_splits)
qed

lemma flat_Rename_succeeds:
  assumes sib: "siblings d S" and fl: "flat S (map_of (w_fs w))" and ab: "a \<in> S" "b \<in> S" "a \<noteq> b"
    and ren: "os_Rename a b w = (r, w')"
    and ok: "no_faults w" "is_dir (w_fs w) (Dir_of b)" "map_of (w_fs w) a \<noteq> None"
  shows "is_ok r"
proof -
  have apart: "\<not> under a b" "\<not> under b a" using siblings_under [OF sib] ab by auto
  have leaf: "map_of (w_fs w) p = None \<or> is_file (w_fs w) p" if "p \<in> S" for p
  proof (cases "map_of (w_fs w) p")
    case (Some n)
    then show ?thesis using fl that by (cases n) (auto simp: flat_def is_file_def)
  qed simp
  have "is_file (w_fs w) a" using leaf [OF ab(1)] ok(3) by simp
  then have "can_rename (w_fs w) a b" using ok apart leaf [OF ab(2)] by (auto simp: can_rename_def)
  then show ?thesis using ren ok by (auto simp: os_Rename_def split: if_splits)
qed

lemma flat_Remove:
  assumes rem: "os_Remove a w = (r, w')"
  shows "becomes w (if is_ok r then (map_of (w_fs w))(a := None) else map_of (w_fs w)) w'"
  using rem remove.silent [OF rem] by (auto simp: os_Remove_def becomes_def split: if_splits)

lemma flat_Write:
  assumes wr: "os_Write a x w = (r, w')" and a: "map_of (w_fs w) a = Some (FileNode c m)"
  shows "becomes w ((map_of (w_fs w))(a \<mapsto> FileNode (if is_ok r then c @ x else c) m)) w'" and "no_faults w \<Longrightarrow> is_ok r"
  using wr a writefile.silent [OF wr] by (auto simp: os_Write_def becomes_def fun_upd_idem split: if_splits)

lemma flat_Chmod:
  assumes ch: "os_Chmod a mode w = (r, w')" and a: "map_of (w_fs w) a = Some (FileNode c m)"
  shows "becomes w ((map_of (w_fs w))(a \<mapsto> FileNode c (if is_ok r then mode else m))) w'" and "no_faults w \<Longrightarrow> is_ok r"
  using ch a chmod.silent [OF ch] by (auto simp: os_Chmod_def becomes_def fun_upd_idem split: if_splits)

lemma flat_Sync: "os_Sync a w = (r, w') \<Longrightarrow> becomes w (map_of (w_fs w)) w'"
  using sync.silent [of a w r w'] by (auto simp: os_Sync_def becomes_def)

lemma flat_Close: "os_Close a w = (r, w') \<Longrightarrow> becomes w (map_of (w_fs w)) w'"
  using close.silent [of a w r w'] by (auto simp: os_Close_def becomes_def)

lemma flat_CreateTemp:
  assumes "os_CreateTemp d pre suf w = (r, w')"
  shows "case r of Inl _ \<Rightarrow> becomes w (map_of (w_fs w)) w'
    | Inr tmp \<Rightarrow> becomes w ((map_of (w_fs w))(tmp \<mapsto> FileNode [] 384)) w' \<and> map_of (w_fs w) tmp = None \<and>
        tmp = dir_prefix d @ pre @ temp_suffix (w_env w) (w_tick w) @ suf"
proof (cases r)
  case (Inl e)
  then show ?thesis using CreateTemp_failed [OF assms [unfolded Inl]] by (simp add: becomes_def)
next
  case (Inr tmp)
  note C = CreateTemp_drafted [OF assms [unfolded Inr]]
  have "becomes w ((map_of (w_fs w))(tmp \<mapsto> FileNode [] 384)) w'" using C(1) by (simp add: becomes_def drafted_def)
  then show ?thesis using C(2,4) Inr by simp
qed

end
