(* ===== verification/Config_Save_Laws.thy ===== *)
theory Config_Save_Laws
  imports Config_Save Flat_Files
begin

text \<open>
  What saving the configuration guarantees: \<open>saveSplit\<close> replaces both files or puts the old ones
  back, \<open>SaveConfig\<close> and \<open>SaveAutoServers\<close> replace one file.
\<close>

section \<open>Rolling back\<close>

definition joined :: "'a result \<Rightarrow> bool" where
  "joined r \<longleftrightarrow> (case r of Inl (Joined _) \<Rightarrow> True | _ \<Rightarrow> False)"

definition plain_error :: "error \<Rightarrow> bool" where
  "plain_error e \<longleftrightarrow> (case e of Joined _ \<Rightarrow> False | _ \<Rightarrow> True)"

lemma joined_simps [simp]: "joined (Inl (Joined es))" "\<not> joined (Inr x)" "joined (Inl (Wrapf s e)) = False"
  "plain_error (Wrapf s e)" "plain_error e \<Longrightarrow> \<not> joined (Inl e)"
  by (auto simp: joined_def plain_error_def split: error.splits)

text \<open>The paths of one call: siblings, pairwise different.\<close>

definition paths_of :: "split_paths \<Rightarrow> string set" where
  "paths_of p = {MainPath p, AutoPath p, MainTemp p, MainBackup p, AutoBackup p} \<union> (if HasAuto p then {AutoTemp p} else {})"

definition paths_ok :: "string \<Rightarrow> split_paths \<Rightarrow> bool" where
  "paths_ok d p \<longleftrightarrow> siblings d (paths_of p) \<and>
     distinct ([MainPath p, AutoPath p, MainTemp p, MainBackup p, AutoBackup p] @ (if HasAuto p then [AutoTemp p] else []))"

lemma restore_law:
  assumes sib: "siblings d S" and fl: "flat S (map_of (w_fs w))" and S: "b \<in> S" "a \<in> S" "b \<noteq> a"
    and run: "restore created disc b a w = (es, w')"
  shows "\<exists>M. becomes w M w' \<and> flat S M \<and> (\<forall>q. q \<noteq> a \<and> q \<noteq> b \<longrightarrow> M q = map_of (w_fs w) q) \<and>
    (created \<longrightarrow> (if es = [] then M a = map_of (w_fs w) b else M = map_of (w_fs w))) \<and>
    (\<not> created \<longrightarrow> es = [] \<and> (\<not> disc \<longrightarrow> M = map_of (w_fs w)))"
proof (cases created)
  case True
  obtain r w1 where ren: "os_Rename b a w = (r, w1)" by fastforce
  have w1: "w1 = w'" and es: "es = [] \<longleftrightarrow> is_ok r"
    using run ren True by (auto simp: restore_def split: sum.splits)
  note R = flat_Rename(1) [OF sib fl S ren]
  let ?M = "if is_ok r then (map_of (w_fs w))(b := None, a := map_of (w_fs w) b) else map_of (w_fs w)"
  have "map_of (w_fs w) b \<noteq> Some DirNode" using fl S(1) by (auto simp: flat_def)
  then have "flat S ?M" using fl S by (auto intro!: flat_update [OF sib])
  with R es True S(3) show ?thesis unfolding w1 by (intro exI [of _ ?M]) auto
next
  case False
  show ?thesis
  proof (cases disc)
    case True
    obtain r w1 where rem: "os_Remove a w = (r, w1)" by fastforce
    have w1: "w1 = w'" "es = []" using run rem True False by (auto simp: restore_def)
    let ?M = "if is_ok r then (map_of (w_fs w))(a := None) else map_of (w_fs w)"
    have "flat S ?M" using fl S by (auto intro!: flat_update [OF sib])
    with flat_Remove [OF rem] w1 True False show ?thesis by (intro exI [of _ ?M]) auto
  next
    case nd: False
    then have "w' = w" "es = []" using run False by (auto simp: restore_def)
    then show ?thesis using fl False nd by (intro exI [of _ "map_of (w_fs w)"]) (simp add: becomes_def)
  qed
qed

text \<open>The state of one file after a rollback that started with \<open>old\<close> at its path and \<open>bak\<close> at its
  backup path.\<close>

definition restored :: "bool \<Rightarrow> bool \<Rightarrow> bool \<Rightarrow> (string \<rightharpoonup> node) \<Rightarrow> string \<Rightarrow> string \<Rightarrow> (string \<rightharpoonup> node) \<Rightarrow> bool" where
  "restored created disc bad M b a M' \<longleftrightarrow>
     (if created then M' a = M b \<or> (bad \<and> M' b = M b) else disc \<or> M' a = M a)"

lemma rollback_law:
  assumes ok: "paths_ok d p" and fl: "flat (paths_of p) (map_of (w_fs w))" and e: "plain_error e"
    and run: "rollback p mbc abc e w = (r, w')"
  shows "\<exists>M. becomes w M w' \<and> flat (paths_of p) M \<and> \<not> is_ok r \<and>
    (\<forall>q. q \<notin> paths_of p \<longrightarrow> M q = map_of (w_fs w) q) \<and>
    restored mbc (\<not> MainExisted p) (joined r) (map_of (w_fs w)) (MainBackup p) (MainPath p) M \<and>
    restored abc (HasAuto p \<and> \<not> AutoExisted p) (joined r) (map_of (w_fs w)) (AutoBackup p) (AutoPath p) M"
proof -
  have sib: "siblings d (paths_of p)" and dist: "distinct [MainPath p, AutoPath p, MainBackup p, AutoBackup p]"
    using ok by (simp_all add: paths_ok_def split: if_splits)
  have S: "MainPath p \<in> paths_of p" "AutoPath p \<in> paths_of p" "MainBackup p \<in> paths_of p" "AutoBackup p \<in> paths_of p"
    by (simp_all add: paths_of_def)
  obtain es1 w1 where 1: "restore abc (HasAuto p \<and> \<not> AutoExisted p) (AutoBackup p) (AutoPath p) w = (es1, w1)" by fastforce
  obtain es2 w2 where 2: "restore mbc (\<not> MainExisted p) (MainBackup p) (MainPath p) w1 = (es2, w2)" by fastforce
  have r: "r = Inl (if es1 @ es2 \<noteq> [] then Joined (e # es1 @ es2) else e)" "w' = w2"
    using run 1 2 by (auto simp: rollback_def)
  have j: "joined r \<longleftrightarrow> es1 @ es2 \<noteq> []" using e by (auto simp: r)
  have ne: "AutoBackup p \<noteq> AutoPath p" "MainBackup p \<noteq> MainPath p" using dist by auto
  from restore_law [OF sib fl S(4,2) ne(1) 1] obtain M1 where
    M1: "becomes w M1 w1" "flat (paths_of p) M1" "\<forall>q. q \<noteq> AutoPath p \<and> q \<noteq> AutoBackup p \<longrightarrow> M1 q = map_of (w_fs w) q"
      "abc \<longrightarrow> (if es1 = [] then M1 (AutoPath p) = map_of (w_fs w) (AutoBackup p) else M1 = map_of (w_fs w))"
      "\<not> abc \<longrightarrow> es1 = [] \<and> (\<not> (HasAuto p \<and> \<not> AutoExisted p) \<longrightarrow> M1 = map_of (w_fs w))" by blast
  have fs1: "map_of (w_fs w1) = M1" using M1(1) by (rule becomes_fs)
  from restore_law [OF sib _ S(3,1) ne(2) 2, unfolded fs1, OF M1(2)] obtain M2 where
    M2: "becomes w1 M2 w2" "flat (paths_of p) M2" "\<forall>q. q \<noteq> MainPath p \<and> q \<noteq> MainBackup p \<longrightarrow> M2 q = M1 q"
      "mbc \<longrightarrow> (if es2 = [] then M2 (MainPath p) = M1 (MainBackup p) else M2 = M1)"
      "\<not> mbc \<longrightarrow> es2 = [] \<and> (\<not> \<not> MainExisted p \<longrightarrow> M2 = M1)" by blast
  have "M2 q = map_of (w_fs w) q" if "q \<notin> paths_of p" for q
    using M1(3) M2(3) that by (auto simp: paths_of_def)
  moreover have "M1 (MainBackup p) = map_of (w_fs w) (MainBackup p)" "M1 (MainPath p) = map_of (w_fs w) (MainPath p)"
    using M1(3) dist by auto
  moreover have "M2 (AutoBackup p) = M1 (AutoBackup p)" "M2 (AutoPath p) = M1 (AutoPath p)"
    using M2(3) dist by auto
  ultimately show ?thesis
    using becomes_trans [OF M1(1) M2(1)] M2(2,4,5) M1(4,5) unfolding r(2) j restored_def
    by (intro exI [of _ M2]) (auto simp: r(1) split: if_splits)
qed

section \<open>Replacing both files\<close>

text \<open>The old files are still there: at their paths, or, when rolling back failed too, as backups.\<close>

definition kept :: "split_paths \<Rightarrow> bool \<Rightarrow> (string \<rightharpoonup> node) \<Rightarrow> (string \<rightharpoonup> node) \<Rightarrow> bool" where
  "kept p bad M M' \<longleftrightarrow>
     (MainExisted p \<longrightarrow> M' (MainPath p) = M (MainPath p) \<or> (bad \<and> M' (MainBackup p) = M (MainPath p))) \<and>
     (AutoExisted p \<longrightarrow> M' (AutoPath p) = M (AutoPath p) \<or> (bad \<and> M' (AutoBackup p) = M (AutoPath p)))"

definition new_files :: "split_paths \<Rightarrow> (string \<rightharpoonup> node) \<Rightarrow> string \<Rightarrow> (string \<rightharpoonup> node) \<Rightarrow> bool" where
  "new_files p M ca M' \<longleftrightarrow> M' (MainPath p) = M (MainTemp p) \<and>
     M' (AutoPath p) = (if HasAuto p then Some (FileNode ca 384) else None)"

text \<open>The outcome of a step of the replacement that started at \<open>w\<close>.\<close>

definition reaches :: "split_paths \<Rightarrow> world \<Rightarrow> (string \<rightharpoonup> node) \<Rightarrow> world \<Rightarrow> bool" where
  "reaches p w M' w' \<longleftrightarrow> becomes w M' w' \<and> flat (paths_of p) M' \<and>
     (\<forall>q. q \<notin> paths_of p \<longrightarrow> M' q = map_of (w_fs w) q)"

lemma reachesI: "becomes w M' w' \<Longrightarrow> flat (paths_of p) M' \<Longrightarrow> (\<And>q. q \<notin> paths_of p \<Longrightarrow> M' q = map_of (w_fs w) q) \<Longrightarrow> reaches p w M' w'"
  by (simp add: reaches_def)

lemma reaches_fs: "reaches p w M' w' \<Longrightarrow> map_of (w_fs w') = M'"
  by (simp add: reaches_def becomes_def)

lemma reaches_trans: "reaches p w M1 w1 \<Longrightarrow> reaches p w1 M2 w2 \<Longrightarrow> reaches p w M2 w2"
  using reaches_fs [of p w M1 w1] becomes_trans [of w M1 w1 M2 w2] by (auto simp: reaches_def)

lemma reaches_refl: "flat (paths_of p) (map_of (w_fs w)) \<Longrightarrow> reaches p w (map_of (w_fs w)) w"
  by (simp add: reaches_def becomes_def)

lemma rename_law:
  assumes ok: "paths_ok d p" and fl: "flat (paths_of p) (map_of (w_fs w))"
    and ab: "a \<in> paths_of p" "b \<in> paths_of p" "a \<noteq> b" and ren: "os_Rename a b w = (r, w')"
  shows "reaches p w (if is_ok r then (map_of (w_fs w))(a := None, b := map_of (w_fs w) a) else map_of (w_fs w)) w'"
proof -
  have sib: "siblings d (paths_of p)" using ok by (simp add: paths_ok_def)
  have "map_of (w_fs w) a \<noteq> Some DirNode" using fl ab(1) by (auto simp: flat_def)
  then show ?thesis
    using flat_Rename(1) [OF sib fl ab ren] fl ab by (intro reachesI) (auto intro!: flat_update [OF sib])
qed

lemma rollback_kept:
  assumes ok: "paths_ok d p" and M: "reaches p w0 M w" and e: "plain_error e"
    and run: "rollback p (MainExisted p) abc e w = (r, w')"
    and main: "MainExisted p \<Longrightarrow> M (MainBackup p) = map_of (w_fs w0) (MainPath p)"
    and auto: "AutoExisted p \<Longrightarrow> M (if abc then AutoBackup p else AutoPath p) = map_of (w_fs w0) (AutoPath p)"
  shows "\<exists>M'. reaches p w0 M' w' \<and> \<not> is_ok r \<and> kept p (joined r) (map_of (w_fs w0)) M'"
proof -
  have fs: "map_of (w_fs w) = M" and fl: "flat (paths_of p) M" using M by (simp_all add: reaches_def becomes_def)
  from rollback_law [OF ok _ e run, unfolded fs, OF fl] obtain M' where M': "becomes w M' w'" "flat (paths_of p) M'"
    "\<not> is_ok r" "\<forall>q. q \<notin> paths_of p \<longrightarrow> M' q = M q"
    "restored (MainExisted p) (\<not> MainExisted p) (joined r) M (MainBackup p) (MainPath p) M'"
    "restored abc (HasAuto p \<and> \<not> AutoExisted p) (joined r) M (AutoBackup p) (AutoPath p) M'" by blast
  have "reaches p w M' w'" using M'(1,2,4) fs by (simp add: reaches_def)
  then have "reaches p w0 M' w'" by (rule reaches_trans [OF M])
  moreover have "kept p (joined r) (map_of (w_fs w0)) M'"
    using M'(5,6) main auto by (auto simp: kept_def restored_def split: if_splits)
  ultimately show ?thesis using M'(3) by blast
qed

lemma backup_law:
  assumes ok: "paths_ok d p" and fl: "flat (paths_of p) (map_of (w_fs w))"
    and ab: "a \<in> paths_of p" "b \<in> paths_of p" "a \<noteq> b" and ex: "ex \<longleftrightarrow> map_of (w_fs w) a \<noteq> None"
    and run: "(if ex then os_Rename a b w else (Inr (), w)) = (r, w')"
  shows "\<exists>M. reaches p w M w' \<and> (\<forall>q. q \<noteq> a \<and> q \<noteq> b \<longrightarrow> M q = map_of (w_fs w) q) \<and>
    (if is_ok r then M a = None \<and> (ex \<longrightarrow> M b = map_of (w_fs w) a) else M = map_of (w_fs w))"
proof (cases ex)
  case True
  then have "os_Rename a b w = (r, w')" using run by simp
  note R = rename_law [OF ok fl ab this]
  show ?thesis
    by (rule exI [of _ "if is_ok r then (map_of (w_fs w))(a := None, b := map_of (w_fs w) a) else map_of (w_fs w)"])
      (use R ab(3) in auto)
next
  case False
  then show ?thesis using run ex reaches_refl [OF fl] by (intro exI [of _ "map_of (w_fs w)"]) auto
qed

lemma split_path_facts:
  assumes "paths_ok d p"
  shows "MainPath p \<in> paths_of p" "AutoPath p \<in> paths_of p" "MainBackup p \<in> paths_of p" "AutoBackup p \<in> paths_of p"
    "MainTemp p \<in> paths_of p" "HasAuto p \<Longrightarrow> AutoTemp p \<in> paths_of p"
    and "MainPath p \<noteq> MainBackup p" "MainTemp p \<noteq> MainPath p" "AutoPath p \<noteq> AutoBackup p" "HasAuto p \<Longrightarrow> AutoTemp p \<noteq> AutoPath p"
    and "distinct [MainPath p, AutoPath p, MainTemp p, MainBackup p, AutoBackup p]"
    and "HasAuto p \<Longrightarrow> AutoTemp p \<notin> {MainPath p, AutoPath p, MainTemp p, MainBackup p, AutoBackup p}"
  using assms by (auto simp: paths_ok_def paths_of_def split: if_splits)

text \<open>The auto file, once the main file is in place and its backup, if there was one, beside it.\<close>

definition main_replaced :: "split_paths \<Rightarrow> world \<Rightarrow> (string \<rightharpoonup> node) \<Rightarrow> bool" where
  "main_replaced p w0 N \<longleftrightarrow> N (MainPath p) = map_of (w_fs w0) (MainTemp p) \<and>
     (MainExisted p \<longrightarrow> N (MainBackup p) = map_of (w_fs w0) (MainPath p))"

lemma replace_auto_law:
  assumes ok: "paths_ok d p" and N: "reaches p w0 N w" "main_replaced p w0 N"
    and auto: "N (AutoPath p) = map_of (w_fs w0) (AutoPath p)"
    and temp: "HasAuto p \<Longrightarrow> N (AutoTemp p) = Some (FileNode ca ma)"
    and ex: "AutoExisted p \<longleftrightarrow> map_of (w_fs w0) (AutoPath p) \<noteq> None"
    and run: "replace_auto p w = (r, w')"
  shows "\<exists>M. reaches p w0 M w' \<and>
    (if is_ok r then new_files p (map_of (w_fs w0)) ca M else kept p (joined r) (map_of (w_fs w0)) M)"
proof -
  let ?M = "map_of (w_fs w0)"
  note F = split_path_facts [OF ok]
  note dist = F(11)
  have fs: "map_of (w_fs w) = N" "flat (paths_of p) N" using N(1) reaches_fs by (auto simp: reaches_def)
  have failed: "\<exists>M. reaches p w0 M w' \<and> (if is_ok r then new_files p ?M ca M else kept p (joined r) ?M M)"
    if "rollback p (MainExisted p) abc (Wrapf s e) v = ((r :: unit result), w')" "reaches p w0 K v"
      "K (MainBackup p) = N (MainBackup p)" "AutoExisted p \<Longrightarrow> K (if abc then AutoBackup p else AutoPath p) = ?M (AutoPath p)"
    for abc s e v K
    using rollback_kept [OF ok that(2) _ that(1) _ that(4)] that(3) N(2) by (auto simp: main_replaced_def)
  obtain r1 w1 where 1: "(if AutoExisted p then os_Rename (AutoPath p) (AutoBackup p) w else (Inr (), w)) = (r1, w1)" by fastforce
  have "AutoExisted p \<longleftrightarrow> map_of (w_fs w) (AutoPath p) \<noteq> None" using ex auto fs(1) by simp
  from backup_law [OF ok _ F(2,4,9) this 1, unfolded fs(1), OF fs(2)] obtain K where
    K: "reaches p w K w1" "\<forall>q. q \<noteq> AutoPath p \<and> q \<noteq> AutoBackup p \<longrightarrow> K q = N q"
      "if is_ok r1 then K (AutoPath p) = None \<and> (AutoExisted p \<longrightarrow> K (AutoBackup p) = N (AutoPath p)) else K = N" by blast
  note K0 = reaches_trans [OF N(1) K(1)]
  have Kmain: "K (MainPath p) = N (MainPath p)" "K (MainBackup p) = N (MainBackup p)" "HasAuto p \<Longrightarrow> K (AutoTemp p) = N (AutoTemp p)"
    using K(2) dist F(12) by auto
  have fsK: "map_of (w_fs w1) = K" "flat (paths_of p) K" using K(1) reaches_fs by (auto simp: reaches_def)
  show ?thesis
  proof (cases r1)
    case (Inl e)
    then obtain s where "rollback p (MainExisted p) False (Wrapf s e) w1 = (r, w')"
      using run 1 by (auto simp: replace_auto_def split: if_splits)
    from failed [OF this K0] show ?thesis using Kmain K(3) Inl auto by simp
  next
    case (Inr u)
    note Kok = K(3) [unfolded Inr, simplified]
    show ?thesis
    proof (cases "HasAuto p")
      case False
      then have "r = Inr ()" "w' = w1" using run 1 Inr by (auto simp: replace_auto_def split: if_splits)
      moreover have "new_files p ?M ca K" using N(2) Kmain Kok False by (simp add: new_files_def main_replaced_def)
      ultimately show ?thesis using K0 by auto
    next
      case True
      obtain r2 w2 where 2: "os_Rename (AutoTemp p) (AutoPath p) w1 = (r2, w2)" by fastforce
      define L where "L = (if is_ok r2 then K(AutoTemp p := None, AutoPath p := K (AutoTemp p)) else K)"
      have L0: "reaches p w0 L w2"
        using reaches_trans [OF K0 rename_law [OF ok _ F(6) [OF True] F(2) F(10) [OF True] 2, unfolded fsK, OF fsK(2)]] by (simp add: L_def)
      have Lmain: "L (MainPath p) = N (MainPath p)" "L (MainBackup p) = N (MainBackup p)"
        "AutoExisted p \<Longrightarrow> L (AutoBackup p) = ?M (AutoPath p)" "\<not> is_ok r2 \<Longrightarrow> L = K"
        using Kmain Kok dist F(12) [OF True] auto by (auto simp: L_def)
      have fsL: "map_of (w_fs w2) = L" "flat (paths_of p) L" using L0 reaches_fs by (auto simp: reaches_def)
      show ?thesis
      proof (cases r2)
        case (Inl e)
        then have "rollback p (MainExisted p) (AutoExisted p) (Wrapf ''replace %s'' e) w2 = (r, w')"
          using run 1 2 \<open>r1 = Inr u\<close> True by (simp add: replace_auto_def split: if_splits)
        from failed [OF this L0] show ?thesis using Lmain by simp
      next
        case ok2: (Inr u2)
        have at: "L (AutoPath p) = Some (FileNode ca ma)" using temp [OF True] Kmain(3) [OF True] ok2 by (simp add: L_def)
        obtain r3 w3 where 3: "os_Chmod (AutoPath p) 384 w2 = (r3, w3)" by fastforce
        let ?P = "L(AutoPath p \<mapsto> FileNode ca (if is_ok r3 then 384 else ma))"
        have "flat (paths_of p) ?P" using ok fsL(2) F(2) by (auto simp: paths_ok_def intro: flat_update)
        then have "reaches p w2 ?P w3" using flat_Chmod(1) [OF 3, of ca ma] at fsL(1) F(2)
          by (intro reachesI) auto
        note P0 = reaches_trans [OF L0 this]
        show ?thesis
        proof (cases r3)
          case (Inl e)
          then have rb: "rollback p (MainExisted p) (AutoExisted p) (Wrapf ''chmod %s'' e) w3 = (r, w')"
            using run 1 2 3 \<open>r1 = Inr u\<close> ok2 True by (simp add: replace_auto_def split: if_splits)
          show ?thesis by (rule failed [OF rb P0]) (use Lmain dist ex auto F(9) in auto)
        next
          case (Inr u3)
          then have "r = Inr ()" "w' = w3"
            using run 1 2 3 \<open>r1 = Inr u\<close> ok2 True by (auto simp: replace_auto_def split: if_splits)
          moreover have "new_files p ?M ca ?P" using N(2) Lmain True Inr dist by (simp add: new_files_def main_replaced_def)
          ultimately show ?thesis using P0 by auto
        qed
      qed
    qed
  qed
qed

lemma replace_files_law:
  assumes ok: "paths_ok d p" and fl: "flat (paths_of p) (map_of (w_fs w))"
    and temp: "HasAuto p \<Longrightarrow> map_of (w_fs w) (AutoTemp p) = Some (FileNode ca ma)"
    and ex: "MainExisted p \<longleftrightarrow> map_of (w_fs w) (MainPath p) \<noteq> None" "AutoExisted p \<longleftrightarrow> map_of (w_fs w) (AutoPath p) \<noteq> None"
    and run: "replace_files p w = (r, w')"
  shows "\<exists>M. reaches p w M w' \<and>
    (if is_ok r then new_files p (map_of (w_fs w)) ca M else kept p (joined r) (map_of (w_fs w)) M)"
proof -
  let ?M = "map_of (w_fs w)"
  note F = split_path_facts [OF ok]
  note dist = F(11)
  have failed: "\<exists>M. reaches p w M v \<and> (if is_ok r' then new_files p ?M ca M else kept p (joined r') ?M M)"
    if "rollback p (MainExisted p) abc e v0 = (r', v)" "reaches p w N v0" "plain_error e"
      "MainExisted p \<Longrightarrow> N (MainBackup p) = ?M (MainPath p)"
      "AutoExisted p \<Longrightarrow> N (if abc then AutoBackup p else AutoPath p) = ?M (AutoPath p)" for abc e v0 r' v N
    using rollback_kept [OF ok that(2,3,1,4,5)] by auto
  obtain r1 w1 where 1: "(if MainExisted p then os_Rename (MainPath p) (MainBackup p) w else (Inr (), w)) = (r1, w1)" by fastforce
  from backup_law [OF ok fl F(1,3,7) ex(1) 1] obtain M1 where
    M1: "reaches p w M1 w1" "\<forall>q. q \<noteq> MainPath p \<and> q \<noteq> MainBackup p \<longrightarrow> M1 q = ?M q"
      "if is_ok r1 then M1 (MainPath p) = None \<and> (MainExisted p \<longrightarrow> M1 (MainBackup p) = ?M (MainPath p)) else M1 = ?M" by blast
  have fs1: "map_of (w_fs w1) = M1" "flat (paths_of p) M1" using M1(1) reaches_fs by (auto simp: reaches_def)
  show ?thesis
  proof (cases r1)
    case (Inl e)
    then have "r = Inl (Wrapf ''backup %s'' e)" "w' = w1" using run 1 by (auto simp: replace_files_def)
    then show ?thesis using M1 Inl by (intro exI [of _ M1]) (auto simp: kept_def)
  next
    case (Inr u)
    note M1ok = M1(3) [unfolded Inr, simplified]
    obtain r2 w2 where 2: "os_Rename (MainTemp p) (MainPath p) w1 = (r2, w2)" by fastforce
    define M2 where "M2 = (if is_ok r2 then M1(MainTemp p := None, MainPath p := M1 (MainTemp p)) else M1)"
    have R2: "reaches p w M2 w2"
      using reaches_trans [OF M1(1) rename_law [OF ok _ F(5,1,8) 2, unfolded fs1, OF fs1(2)]] by (simp add: M2_def)
    have M2v: "M2 (MainBackup p) = M1 (MainBackup p)" "M2 (AutoPath p) = ?M (AutoPath p)" "HasAuto p \<Longrightarrow> M2 (AutoTemp p) = ?M (AutoTemp p)"
      "is_ok r2 \<Longrightarrow> M2 (MainPath p) = ?M (MainTemp p)"
      using M1(2) dist F(12) by (auto simp: M2_def)
    have fs2: "map_of (w_fs w2) = M2" "flat (paths_of p) M2" using R2 reaches_fs by (auto simp: reaches_def)
    show ?thesis
    proof (cases r2)
      case (Inl e)
      then have "rollback p (MainExisted p) False (Wrapf ''replace %s'' e) w2 = (r, w')"
        using run 1 2 \<open>r1 = Inr u\<close> by (simp add: replace_files_def)
      from failed [OF this R2] show ?thesis using M2v M1ok by simp
    next
      case ok2: (Inr u2)
      then have "replace_auto p w2 = (r, w')" using run 1 2 Inr by (simp add: replace_files_def)
      moreover have "main_replaced p w M2" using M2v M1ok ok2 by (simp add: main_replaced_def)
      ultimately show ?thesis using replace_auto_law [OF ok R2 _ M2v(2) _ ex(2)] temp M2v(3) by simp
    qed
  qed
qed

section \<open>Writing the temporary files\<close>

text \<open>What an operation that fills an empty file does.\<close>

definition fills :: "(string \<Rightarrow> world \<Rightarrow> unit result \<times> world) \<Rightarrow> (world \<Rightarrow> string \<Rightarrow> bool) \<Rightarrow> bool" where
  "fills fill C \<longleftrightarrow> (\<forall>f w m r w'. map_of (w_fs w) f = Some (FileNode [] m) \<longrightarrow> fill f w = (r, w') \<longrightarrow>
     (\<exists>c. becomes w ((map_of (w_fs w))(f \<mapsto> FileNode c m)) w' \<and> (is_ok r \<longrightarrow> C w c)))"

lemma encode_fills: "fills (\<lambda>f. encode_to toml f cfg) (\<lambda>w c. c = fst (TomlEncode toml cfg))"
  unfolding fills_def
proof (intro allI impI)
  fix f w m r w'
  assume f: "map_of (w_fs w) f = Some (FileNode [] m)" and run: "encode_to toml f cfg w = (r, w')"
  obtain r1 w1 where 1: "os_Write f (fst (TomlEncode toml cfg)) w = (r1, w1)" by fastforce
  from flat_Write(1) [OF 1 f] run 1
  show "\<exists>c. becomes w ((map_of (w_fs w))(f \<mapsto> FileNode c m)) w' \<and> (is_ok r \<longrightarrow> c = fst (TomlEncode toml cfg))"
    by (auto simp: encode_to_def split: sum.splits option.splits)
qed

lemma fold_Write:
  assumes "map_of (w_fs w) f = Some (FileNode c m)"
  shows "\<exists>c'. becomes w ((map_of (w_fs w))(f \<mapsto> FileNode c' m)) (fold (\<lambda>l w. snd (os_Write f l w)) ls w) \<and>
    (no_faults w \<longrightarrow> c' = c @ concat ls)"
  using assms
proof (induction ls arbitrary: w c)
  case Nil
  then show ?case by (intro exI [of _ c]) (simp add: becomes_def fun_upd_idem)
next
  case (Cons l ls)
  obtain r w1 where 1: "os_Write f l w = (r, w1)" by fastforce
  note W = flat_Write [OF 1 Cons.prems]
  let ?c = "if is_ok r then c @ l else c"
  have M1: "map_of (w_fs w1) = (map_of (w_fs w))(f \<mapsto> FileNode ?c m)" using W(1) by (rule becomes_fs)
  have "map_of (w_fs w1) f = Some (FileNode ?c m)" by (simp add: M1)
  from Cons.IH [OF this] obtain c' where
    c': "becomes w1 ((map_of (w_fs w1))(f \<mapsto> FileNode c' m)) (fold (\<lambda>l w. snd (os_Write f l w)) ls w1)"
    "no_faults w1 \<longrightarrow> c' = ?c @ concat ls" by blast
  have "(map_of (w_fs w1))(f \<mapsto> FileNode c' m) = (map_of (w_fs w))(f \<mapsto> FileNode c' m)" by (simp add: M1)
  note B = becomes_trans [OF W(1) c'(1) [unfolded this]]
  have "no_faults w \<longrightarrow> c' = c @ concat (l # ls)" using c'(2) W(2) becomes_faults [OF W(1)] by auto
  moreover have "fold (\<lambda>l w. snd (os_Write f l w)) (l # ls) w = fold (\<lambda>l w. snd (os_Write f l w)) ls w1" by (simp add: 1)
  ultimately show ?case using B by metis
qed

lemma auto_fills: "fills (\<lambda>f w. (Inr (), writeAutoServersTo f servers w))
    (\<lambda>w c. no_faults w \<longrightarrow> c = concat (concat (List.map auto_lines servers)))"
  unfolding fills_def writeAutoServersTo_def using fold_Write [where c = "[]"] by fastforce

definition temp_of :: "os_env \<Rightarrow> string \<Rightarrow> string \<Rightarrow> string \<Rightarrow> bool" where
  "temp_of env dir path tmp \<longleftrightarrow> (\<exists>k. tmp = dir_prefix dir @ (Base path @ ''.'') @ temp_suffix env k @ ''.tmp'')"

lemma sync_close_becomes: "sync_close f w = (r, w') \<Longrightarrow> becomes w (map_of (w_fs w)) w'"
proof -
  assume run: "sync_close f w = (r, w')"
  obtain r1 w1 where 1: "os_Sync f w = (r1, w1)" by fastforce
  obtain r2 w2 where 2: "os_Close f w1 = (r2, w2)" by fastforce
  have "w' = w2" using run 1 2 by (auto simp: sync_close_def split: sum.splits)
  then show ?thesis using becomes_trans [OF flat_Sync [OF 1] flat_Close [OF 2]] flat_Sync [OF 1]
    by (simp add: becomes_def)
qed

lemma write_temp_law:
  assumes fill: "fills fill C" and run: "write_temp dir path mode fill w = ((r, t), w')"
  shows "(t = None \<longrightarrow> \<not> is_ok r \<and> becomes w (map_of (w_fs w)) w') \<and>
    (\<forall>tmp. t = Some tmp \<longrightarrow> map_of (w_fs w) tmp = None \<and> temp_of (w_env w) dir path tmp \<and>
      (\<exists>c m v. becomes w ((map_of (w_fs w))(tmp \<mapsto> FileNode c m)) w' \<and>
        (is_ok r \<longrightarrow> m = mode \<and> (no_faults w \<longrightarrow> no_faults v) \<and> C v c)))"
proof -
  let ?M = "map_of (w_fs w)"
  obtain r1 w1 where 1: "os_CreateTemp dir (Base path @ ''.'') ''.tmp'' w = (r1, w1)" by fastforce
  note C1 = flat_CreateTemp [OF 1]
  show ?thesis
  proof (cases r1)
    case (Inl e)
    then show ?thesis using run 1 C1 by (auto simp: write_temp_def)
  next
    case (Inr tmp)
    have T: "becomes w (?M(tmp \<mapsto> FileNode [] 384)) w1" "?M tmp = None" "temp_of (w_env w) dir path tmp"
      using C1 Inr by (auto simp: temp_of_def)
    have M1: "map_of (w_fs w1) = ?M(tmp \<mapsto> FileNode [] 384)" using T(1) by (rule becomes_fs)
    obtain r2 w2 where 2: "os_Chmod tmp mode w1 = (r2, w2)" by fastforce
    have B2: "becomes w (?M(tmp \<mapsto> FileNode [] (if is_ok r2 then mode else 384))) w2"
      using becomes_trans [OF T(1) flat_Chmod(1) [OF 2, of "[]" 384]] M1 by simp
    have close: "becomes w N (snd (os_Close tmp v))" if "becomes w N v" for N v
      using becomes_trans [OF that flat_Close [of tmp v]] becomes_fs [OF that] by (metis prod.collapse)
    show ?thesis
    proof (cases r2)
      case (Inl e)
      then have "t = Some tmp" "\<not> is_ok r" "w' = snd (os_Close tmp w2)" using run 1 2 Inr by (auto simp: write_temp_def)
      then show ?thesis using T B2 close Inl by auto
    next
      case ok2: (Inr u)
      obtain r3 w3 where 3: "fill tmp w2 = (r3, w3)" by fastforce
      have M2: "map_of (w_fs w2) = ?M(tmp \<mapsto> FileNode [] mode)" using becomes_fs [OF B2] ok2 by simp
      obtain c where c: "becomes w2 (?M(tmp \<mapsto> FileNode c mode)) w3" "is_ok r3 \<longrightarrow> C w2 c"
        using fill 3 M2 unfolding fills_def by (metis fun_upd_same fun_upd_upd)
      have B3: "becomes w (?M(tmp \<mapsto> FileNode c mode)) w3" by (rule becomes_trans [OF B2 c(1)])
      show ?thesis
      proof (cases r3)
        case (Inl e)
        then have "t = Some tmp" "\<not> is_ok r" "w' = snd (os_Close tmp w3)" using run 1 2 3 Inr ok2 by (auto simp: write_temp_def)
        then show ?thesis using T close [OF B3] by auto
      next
        case ok3: (Inr u)
        obtain r4 w4 where 4: "sync_close tmp w3 = (r4, w4)" by fastforce
        have "t = Some tmp" "w' = w4" using run 1 2 3 4 Inr ok2 ok3 by (auto simp: write_temp_def)
        moreover have "becomes w (?M(tmp \<mapsto> FileNode c mode)) w4"
          using becomes_trans [OF B3 sync_close_becomes [OF 4]] becomes_fs [OF B3] by simp
        moreover have "no_faults w \<longrightarrow> no_faults w2" using becomes_faults [OF B2] by simp
        ultimately show ?thesis using T(2,3) c(2) ok3 by auto
      qed
    qed
  qed
qed

section \<open>The six paths\<close>

definition cfg_at :: "string list \<Rightarrow> string \<Rightarrow> string \<Rightarrow> bool" where
  "cfg_at cs n path \<longleftrightarrow> cs \<noteq> [] \<and> list_all ok_comp (cs @ [n]) \<and> path = abs_path (cs @ [n])"

definition auto_name :: "string \<Rightarrow> string" where
  "auto_name n = TrimSuffix n ''.toml'' @ ''-auto.toml''"

definition backup_base :: "string \<Rightarrow> int \<Rightarrow> string" where
  "backup_base n t = CHR ''.'' # n @ ''.bak.'' @ show_int t"

definition temp_base :: "string \<Rightarrow> string \<Rightarrow> string" where
  "temp_base n s = n @ ''.'' @ s @ ''.tmp''"

lemma TrimSuffix_path:
  assumes "CHR ''/'' \<notin> set suf"
  shows "TrimSuffix (p @ CHR ''/'' # n) suf = p @ CHR ''/'' # TrimSuffix n suf"
proof -
  have "HasSuffix (p @ CHR ''/'' # n) suf \<longleftrightarrow> HasSuffix n suf"
  proof
    assume "HasSuffix (p @ CHR ''/'' # n) suf"
    then obtain t where t: "p @ CHR ''/'' # n = t @ suf" by (auto simp: HasSuffix_iff)
    then obtain u where "(p = t @ u \<and> u @ CHR ''/'' # n = suf) \<or> (p @ u = t \<and> CHR ''/'' # n = u @ suf)"
      by (auto simp: append_eq_append_conv2)
    then consider "CHR ''/'' \<in> set suf" | "CHR ''/'' # n = u @ suf" by auto
    then show "HasSuffix n suf"
    proof cases
      case 2
      then show ?thesis using assms by (cases u) (auto simp: HasSuffix_iff)
    qed (use assms in simp)
  next
    assume "HasSuffix n suf"
    then show "HasSuffix (p @ CHR ''/'' # n) suf" by (auto simp: HasSuffix_iff)
  qed
  moreover have "HasSuffix n suf \<Longrightarrow> length suf \<le> length n" by (auto simp: HasSuffix_iff)
  ultimately show ?thesis by (auto simp: TrimSuffix_def Suc_diff_le)
qed

lemma auto_name_length: "length n < length (auto_name n)"
  by (auto simp: auto_name_def TrimSuffix_def HasSuffix_def)

lemma autoServersPath_at:
  assumes "cfg_at cs n path"
  shows "autoServersPath path = abs_path (cs @ [auto_name n])"
  using assms by (simp add: cfg_at_def autoServersPath_def abs_path_snoc TrimSuffix_path auto_name_def)

lemma ok_auto_name: "ok_comp n \<Longrightarrow> ok_comp (auto_name n)"
  using auto_name_length [of n]
  by (auto simp: ok_comp_def auto_name_def TrimSuffix_def dest: in_set_takeD)

lemma show_int_no_slash: "CHR ''/'' \<notin> set (show_int t)"
  by (rule show_int_no_char) (simp_all add: is_digit_def)

lemma last_show_int: "is_digit (last (show_int t))"
proof -
  have "last (show_nat k) \<in> set (show_nat k)" for k by simp
  then have "is_digit (last (show_nat k))" for k by (rule show_nat_chars)
  then show ?thesis by (simp add: show_int_def)
qed

lemma backup_name_at:
  assumes "cs \<noteq> []" "list_all ok_comp (cs @ [n])"
  shows "backup_name (abs_path cs) (abs_path (cs @ [n])) t = abs_path (cs @ [backup_base n t])"
    and "ok_comp (backup_base n t)"
proof -
  have ne: "show_int t \<noteq> []" by (auto simp: show_int_def)
  show ok: "ok_comp (backup_base n t)"
    using assms show_int_no_slash by (auto simp: ok_comp_def backup_base_def)
  show "backup_name (abs_path cs) (abs_path (cs @ [n])) t = abs_path (cs @ [backup_base n t])"
    using assms ok path_join_abs [of cs "[backup_base n t]"]
    by (simp add: backup_name_def Base_abs_path backup_base_def)
qed

text \<open>The names of the files one call may touch differ.\<close>

lemma name_lasts:
  "last (auto_name n) = CHR ''l''" "last (temp_base n s) = CHR ''p''" "is_digit (last (backup_base n t))"
  using last_show_int [of t] by (auto simp: auto_name_def temp_base_def backup_base_def show_int_def)

lemma names_distinct:
  "distinct [n, auto_name n, temp_base n s, backup_base n t, backup_base (auto_name n) t]"
  "temp_base (auto_name n) s2 \<notin> {n, auto_name n, backup_base n t, backup_base (auto_name n) t}"
proof -
  note L = name_lasts(1) [of n] name_lasts(2) [of n s] name_lasts(3) [of n t] name_lasts(3) [of "auto_name n" t]
    name_lasts(2) [of "auto_name n" s2]
  have nd: "\<not> is_digit (last (auto_name n))" "\<not> is_digit (last (temp_base n s))" "\<not> is_digit (last (temp_base (auto_name n) s2))"
    unfolding name_lasts by (simp_all add: is_digit_def)
  have last_ne: "y \<noteq> x" "y \<noteq> x" if "is_digit (last x)" "\<not> is_digit (last y)" for x y using that by auto
  have len: "length n < length (auto_name n)" "length n < length (temp_base n s)" "length n < length (backup_base n t)"
    "length (auto_name n) < length (backup_base (auto_name n) t)" "length (auto_name n) < length (temp_base (auto_name n) s2)"
    using auto_name_length [of n] by (simp_all add: temp_base_def backup_base_def)
  have "backup_base n t \<noteq> backup_base (auto_name n) t" using len(1) by (auto simp: backup_base_def)
  moreover have "n \<noteq> auto_name n" "n \<noteq> temp_base n s" "n \<noteq> backup_base n t" "n \<noteq> backup_base (auto_name n) t"
    "auto_name n \<noteq> backup_base (auto_name n) t" "n \<noteq> temp_base (auto_name n) s2" "auto_name n \<noteq> temp_base (auto_name n) s2"
    using len by auto
  moreover have "auto_name n \<noteq> temp_base n s" "auto_name n \<noteq> backup_base n t" "temp_base n s \<noteq> backup_base n t"
    "temp_base n s \<noteq> backup_base (auto_name n) t" "temp_base (auto_name n) s2 \<noteq> backup_base n t"
    "temp_base (auto_name n) s2 \<noteq> backup_base (auto_name n) t"
    using L(1,2) last_ne(1) [OF L(3) nd(1)] last_ne(2) [OF L(3) nd(2)] last_ne(2) [OF L(4) nd(2)]
      last_ne(1) [OF L(3) nd(3)] last_ne(1) [OF L(4) nd(3)] by auto
  ultimately show "distinct [n, auto_name n, temp_base n s, backup_base n t, backup_base (auto_name n) t]"
    "temp_base (auto_name n) s2 \<notin> {n, auto_name n, backup_base n t, backup_base (auto_name n) t}"
    by auto
qed

lemma abs_path_child: "cs \<noteq> [] \<Longrightarrow> list_all ok_comp cs \<Longrightarrow> abs_path (cs @ [x]) = dir_prefix (abs_path cs) @ x"
  by (simp add: dir_prefix_abs abs_path_snoc)

text \<open>Where the configuration can be saved: nothing that will be a file is a directory, and the
  random part of a temporary name holds no slash.\<close>

definition can_save :: "string list \<Rightarrow> string \<Rightarrow> world \<Rightarrow> bool" where
  "can_save cs n w \<longleftrightarrow> fs_ok (w_fs w) \<and> (\<forall>k. CHR ''/'' \<notin> set (temp_suffix (w_env w) k)) \<and>
     (\<forall>t. \<forall>x\<in>{n, auto_name n, backup_base n t, backup_base (auto_name n) t}. \<not> is_dir (w_fs w) (abs_path (cs @ [x])))"

definition split_at :: "string list \<Rightarrow> string \<Rightarrow> int \<Rightarrow> split_paths \<Rightarrow> bool" where
  "split_at cs n t p \<longleftrightarrow> MainPath p = abs_path (cs @ [n]) \<and> AutoPath p = abs_path (cs @ [auto_name n]) \<and>
     MainBackup p = abs_path (cs @ [backup_base n t]) \<and> AutoBackup p = abs_path (cs @ [backup_base (auto_name n) t])"

lemma split_flat:
  assumes cs: "cs \<noteq> []" "list_all ok_comp (cs @ [n])" and can: "can_save cs n w" and at: "split_at cs n t p"
    and mt: "MainTemp p = abs_path (cs @ [temp_base n s1])" "map_of (w_fs w) (MainTemp p) = None" "CHR ''/'' \<notin> set s1"
    and atmp: "HasAuto p \<Longrightarrow> AutoTemp p = abs_path (cs @ [temp_base (auto_name n) s2]) \<and>
      map_of (w_fs w) (AutoTemp p) = None \<and> CHR ''/'' \<notin> set s2 \<and> AutoTemp p \<noteq> MainTemp p"
  shows "paths_ok (abs_path cs) p" and "flat (paths_of p) (map_of (w_fs w))"
proof -
  let ?names = "[n, auto_name n, temp_base n s1, backup_base n t, backup_base (auto_name n) t] @
    (if HasAuto p then [temp_base (auto_name n) s2] else [])"
  have paths: "[MainPath p, AutoPath p, MainTemp p, MainBackup p, AutoBackup p] @ (if HasAuto p then [AutoTemp p] else [])
      = List.map (\<lambda>x. abs_path (cs @ [x])) ?names"
    using at mt(1) atmp by (simp add: split_at_def)
  have "paths_of p = set ([MainPath p, AutoPath p, MainTemp p, MainBackup p, AutoBackup p] @ (if HasAuto p then [AutoTemp p] else []))"
    by (simp add: paths_of_def insert_commute)
  then have set_paths: "paths_of p = (\<lambda>x. abs_path (cs @ [x])) ` set ?names"
    unfolding paths set_map .
  have ok: "ok_comp n" "ok_comp (auto_name n)" using cs(2) ok_auto_name by auto
  have entry: "entry_name x" if "x \<in> set ?names" for x
    using that ok mt(3) atmp show_int_no_slash [of t]
    by (auto simp: entry_name_def ok_comp_def temp_base_def backup_base_def split: if_splits)
  have inj: "inj (\<lambda>x. abs_path (cs @ [x]))" by (auto simp: inj_def abs_path_snoc)
  have "HasAuto p \<Longrightarrow> temp_base (auto_name n) s2 \<noteq> temp_base n s1" using atmp mt(1) by auto
  then have "distinct ?names" using names_distinct [of n s1 t] names_distinct(2) [of n s2 t] by auto
  then have "distinct (List.map (\<lambda>x. abs_path (cs @ [x])) ?names)" 
    unfolding distinct_map using inj_on_subset [OF inj subset_UNIV] by blast
  moreover have sib: "siblings (abs_path cs) (paths_of p)"
    unfolding siblings_def set_paths using entry abs_path_child [of cs] cs by auto
  ultimately show "paths_ok (abs_path cs) p" unfolding paths_ok_def paths by simp
  have nodir: "\<not> is_dir (w_fs w) (abs_path (cs @ [x]))"
    if "x \<in> {n, auto_name n, backup_base n t, backup_base (auto_name n) t}" for x
    using can that unfolding can_save_def by blast
  have nd: "\<not> is_dir (w_fs w) q" if "q \<in> paths_of p" for q
  proof -
    have "q \<noteq> ''/''" using siblings_not_root [OF sib that] by simp
    then have "q = MainTemp p \<or> (HasAuto p \<and> q = AutoTemp p) \<Longrightarrow> ?thesis" using mt(2) atmp by (auto simp: is_dir_def)
    moreover have "q \<in> {MainPath p, AutoPath p, MainBackup p, AutoBackup p} \<Longrightarrow> ?thesis"
      using nodir [of n] nodir [of "auto_name n"] nodir [of "backup_base n t"] nodir [of "backup_base (auto_name n) t"] at
      by (auto simp: split_at_def)
    ultimately show ?thesis using that unfolding paths_of_def by (cases "HasAuto p") auto
  qed
  show "flat (paths_of p) (map_of (w_fs w))"
    unfolding flat_def
  proof (intro ballI conjI allI impI)
    fix q assume q: "q \<in> paths_of p"
    then show "map_of (w_fs w) q \<noteq> Some DirNode" using nd [OF q] by (auto simp: is_dir_def)
    fix x assume x: "under q x \<and> x \<noteq> q"
    have "q \<noteq> []" using siblings_not_root [OF sib q] by simp
    then show "map_of (w_fs w) x = None"
      using fs_ok_below [of "w_fs w" q x] x nd [OF q] can by (auto simp: can_save_def)
  qed
qed

text \<open>The text of the two files and the mode of the main file.\<close>

definition auto_part :: "tomllib \<Rightarrow> string \<Rightarrow> Config \<Rightarrow> world \<Rightarrow> (string \<times> ServerConfig) list" where
  "auto_part toml path cfg w = fst (split_auto (fst (loadAutoServerNames toml path w)) (Servers (cloneConfig cfg)))"

definition main_part :: "tomllib \<Rightarrow> string \<Rightarrow> Config \<Rightarrow> world \<Rightarrow> Config" where
  "main_part toml path cfg w =
     (cloneConfig cfg)\<lparr>Servers := snd (split_auto (fst (loadAutoServerNames toml path w)) (Servers (cloneConfig cfg)))\<rparr>"

definition stats_ok :: "world \<Rightarrow> bool" where
  "stats_ok w \<longleftrightarrow> \<not> io_fault (w_env w) (w_tick w + 1) \<and> \<not> io_fault (w_env w) (w_tick w + 2)"

lemma loadAutoServerNames_world:
  assumes "loadAutoServerNames toml path w = (ns, w')"
  shows "becomes w (map_of (w_fs w)) w'" and "w_tick w' = Suc (w_tick w)"
proof -
  have "w' = snd (os_ReadFile (autoServersPath path) w)"
    using assms by (auto simp: loadAutoServerNames_def DecodeFile_def split: prod.splits sum.splits)
  then show "becomes w (map_of (w_fs w)) w'" "w_tick w' = Suc (w_tick w)"
    by (simp_all add: becomes_def) (simp add: os_ReadFile_def tick_def)
qed

lemma Stat_exact:
  assumes "os_Stat p w = (r, w')" "p \<noteq> ''/''"
  shows "becomes w (map_of (w_fs w)) w'" and "w_tick w' = Suc (w_tick w)"
    and "\<not> faulty w \<Longrightarrow> is_ok r \<longleftrightarrow> map_of (w_fs w) p \<noteq> None"
  using assms stat.silent [OF assms(1)]
  by (auto simp: os_Stat_def becomes_def tick_def split: option.splits if_splits)

lemma remove_temp_law:
  "\<exists>M. becomes w M (remove_temp t w) \<and> (\<forall>q. t \<noteq> Some q \<longrightarrow> M q = map_of (w_fs w) q)"
proof (cases t)
  case None
  then show ?thesis by (intro exI [of _ "map_of (w_fs w)"]) (simp add: remove_temp_def becomes_def)
next
  case (Some f)
  obtain r w1 where 1: "os_Remove f w = (r, w1)" by fastforce
  show ?thesis using flat_Remove [OF 1] Some 1
    by (intro exI [of _ "if is_ok r then (map_of (w_fs w))(f := None) else map_of (w_fs w)"]) (auto simp: remove_temp_def)
qed

lemma drop_backups_law:
  "\<exists>M. becomes w M (drop_backups p w) \<and> (\<forall>q. q \<noteq> MainBackup p \<and> q \<noteq> AutoBackup p \<longrightarrow> M q = map_of (w_fs w) q)"
proof -
  obtain M1 where 1: "becomes w M1 (remove_temp (if MainExisted p then Some (MainBackup p) else None) w)"
    "\<forall>q. (if MainExisted p then Some (MainBackup p) else None) \<noteq> Some q \<longrightarrow> M1 q = map_of (w_fs w) q"
    using remove_temp_law by blast
  let ?w1 = "remove_temp (if MainExisted p then Some (MainBackup p) else None) w"
  obtain M2 where 2: "becomes ?w1 M2 (remove_temp (if AutoExisted p then Some (AutoBackup p) else None) ?w1)"
    "\<forall>q. (if AutoExisted p then Some (AutoBackup p) else None) \<noteq> Some q \<longrightarrow> M2 q = map_of (w_fs ?w1) q"
    using remove_temp_law by blast
  have "drop_backups p w = remove_temp (if AutoExisted p then Some (AutoBackup p) else None) ?w1"
    by (simp add: drop_backups_def remove_temp_def Let_def)
  then show ?thesis using becomes_trans [OF 1(1) 2(1)] 1(2) 2(2) becomes_fs [OF 1(1)]
    by (intro exI [of _ M2]) (auto split: if_splits)
qed

definition mode_of :: "node option \<Rightarrow> nat" where
  "mode_of x = (case x of Some (FileNode _ m) \<Rightarrow> m | _ \<Rightarrow> 384)"

definition file_kept :: "bool \<Rightarrow> (string \<rightharpoonup> node) \<Rightarrow> (string \<rightharpoonup> node) \<Rightarrow> string \<Rightarrow> string \<Rightarrow> bool" where
  "file_kept bad M M' f b \<longleftrightarrow> (M f \<noteq> None \<longrightarrow> M' f = M f \<or> (bad \<and> M' b = M f))"

lemma finish_split_law:
  assumes ok: "paths_ok d p" and fl: "flat (paths_of p) (map_of (w_fs w))"
    and temp: "HasAuto p \<Longrightarrow> map_of (w_fs w) (AutoTemp p) = Some (FileNode ca ma)"
    and ex: "MainExisted p \<longleftrightarrow> map_of (w_fs w) (MainPath p) \<noteq> None" "AutoExisted p \<longleftrightarrow> map_of (w_fs w) (AutoPath p) \<noteq> None"
    and run: "finish_split p w = (r, w')"
  shows "\<exists>M. becomes w M w' \<and>
    (if is_ok r then new_files p (map_of (w_fs w)) ca M
     else file_kept (joined r) (map_of (w_fs w)) M (MainPath p) (MainBackup p) \<and>
       file_kept (joined r) (map_of (w_fs w)) M (AutoPath p) (AutoBackup p))"
proof -
  let ?M = "map_of (w_fs w)"
  note F = split_path_facts [OF ok]
  obtain r1 w1 where 1: "replace_files p w = (r1, w1)" by fastforce
  from replace_files_law [OF ok fl temp ex 1] obtain M1 where M1: "reaches p w M1 w1"
    "if is_ok r1 then new_files p ?M ca M1 else kept p (joined r1) ?M M1" by blast
  have B1: "becomes w M1 w1" using M1(1) by (simp add: reaches_def)
  define w2 where "w2 = (if is_ok r1 then drop_backups p w1 else w1)"
  note fs1 = becomes_fs [OF B1]
  have "\<exists>M2. becomes w1 M2 w2 \<and> (\<forall>q. \<not> (is_ok r1 \<and> q \<in> {MainBackup p, AutoBackup p}) \<longrightarrow> M2 q = M1 q)"
  proof (cases "is_ok r1")
    case True
    then show ?thesis using drop_backups_law [of w1 p] by (simp add: w2_def fs1)
  next
    case False
    then show ?thesis by (intro exI [of _ M1]) (simp add: w2_def becomes_def fs1)
  qed
  then obtain M2 where M2: "becomes w1 M2 w2" "\<forall>q. \<not> (is_ok r1 \<and> q \<in> {MainBackup p, AutoBackup p}) \<longrightarrow> M2 q = M1 q" by blast
  let ?at = "if HasAuto p then Some (AutoTemp p) else None"
  obtain M3 where M3: "becomes w2 M3 (remove_temp ?at w2)" "\<forall>q. ?at \<noteq> Some q \<longrightarrow> M3 q = M2 q"
    using remove_temp_law [of w2 ?at] unfolding becomes_fs [OF M2(1)] by blast
  have w': "w' = remove_temp (Some (MainTemp p)) (remove_temp ?at w2)" 
    using run 1 by (auto simp: finish_split_def w2_def Let_def)
  obtain M4 where M4: "becomes (remove_temp ?at w2) M4 w'" "\<forall>q. Some (MainTemp p) \<noteq> Some q \<longrightarrow> M4 q = M3 q"
    using remove_temp_law [of "remove_temp ?at w2" "Some (MainTemp p)"] unfolding becomes_fs [OF M3(1)] w' by blast
  have r: "r = r1" using run 1 by (simp add: finish_split_def Let_def)
  have "M4 q = M1 q" if "q \<in> {MainPath p, AutoPath p}" for q
    using that M2(2) M3(2) M4(2) F(11,12) by (cases "HasAuto p") auto
  moreover have "\<not> is_ok r \<Longrightarrow> M4 q = M1 q" if "q \<in> {MainBackup p, AutoBackup p}" for q
    using that M2(2) M3(2) M4(2) F(11,12) r by (cases "HasAuto p") auto
  ultimately have "if is_ok r then new_files p ?M ca M4
     else file_kept (joined r) ?M M4 (MainPath p) (MainBackup p) \<and> file_kept (joined r) ?M M4 (AutoPath p) (AutoBackup p)"
    using M1(2) ex unfolding r new_files_def kept_def file_kept_def by auto
  then show ?thesis using becomes_trans [OF becomes_trans [OF becomes_trans [OF B1 M2(1)] M3(1)] M4(1)] by blast
qed

definition split_outcome ::
  "tomllib \<Rightarrow> string list \<Rightarrow> string \<Rightarrow> string \<Rightarrow> Config \<Rightarrow> world \<Rightarrow> unit result \<Rightarrow> int \<Rightarrow> (string \<rightharpoonup> node) \<Rightarrow> bool" where
  "split_outcome toml cs n path cfg w r t M' \<longleftrightarrow>
     (let M = map_of (w_fs w); auto = abs_path (cs @ [auto_name n])
      in if is_ok r then
           M' path = Some (FileNode (fst (TomlEncode toml (main_part toml path cfg w))) (mode_of (M path))) \<and>
           (if auto_part toml path cfg w = [] then M' auto = None
            else (\<exists>c. M' auto = Some (FileNode c 384) \<and>
              (no_faults w \<longrightarrow> c = concat (concat (List.map auto_lines (auto_part toml path cfg w))))))
         else file_kept (joined r) M M' path (abs_path (cs @ [backup_base n t])) \<and>
              file_kept (joined r) M M' auto (abs_path (cs @ [backup_base (auto_name n) t])))"

text \<open>A failure before step 2 touches temporary files only.\<close>

lemma split_outcome_early:
  assumes "\<not> is_ok r" and "\<And>q. map_of (w_fs w) q \<noteq> None \<Longrightarrow> M' q = map_of (w_fs w) q"
  shows "split_outcome toml cs n path cfg w r t M'"
  using assms by (simp add: split_outcome_def file_kept_def Let_def)

lemma temp_of_at:
  assumes "cs \<noteq> []" "list_all ok_comp (cs @ [n])" "temp_of env (abs_path cs) (abs_path (cs @ [n])) tmp"
  shows "\<exists>k. tmp = abs_path (cs @ [temp_base n (temp_suffix env k)])"
proof -
  obtain k where "tmp = dir_prefix (abs_path cs) @ (Base (abs_path (cs @ [n])) @ ''.'') @ temp_suffix env k @ ''.tmp''"
    using assms(3) unfolding temp_of_def by blast
  then show ?thesis unfolding Base_abs_path [OF assms(2)] using assms(1,2)
    by (intro exI [of _ k]) (simp add: dir_prefix_abs abs_path_snoc temp_base_def)
qed

lemma finish_split_outcome:
  assumes cfg: "cs \<noteq> []" "list_all ok_comp (cs @ [n])" "path = abs_path (cs @ [n])" and can: "can_save cs n w"
    and p: "split_at cs n t p" "HasAuto p \<longleftrightarrow> auto_part toml path cfg w \<noteq> []"
      "MainExisted p \<longleftrightarrow> map_of (w_fs w) (MainPath p) \<noteq> None" "AutoExisted p \<longleftrightarrow> map_of (w_fs w) (AutoPath p) \<noteq> None"
    and mt: "MainTemp p = abs_path (cs @ [temp_base n (temp_suffix (w_env w) k1)])" "map_of (w_fs w) (MainTemp p) = None"
    and atmp: "HasAuto p \<Longrightarrow> AutoTemp p = abs_path (cs @ [temp_base (auto_name n) (temp_suffix (w_env w) k2)]) \<and>
      map_of (w_fs w) (AutoTemp p) = None \<and> AutoTemp p \<noteq> MainTemp p \<and>
      (no_faults w \<longrightarrow> ca = concat (concat (List.map auto_lines (auto_part toml path cfg w))))"
    and v: "becomes w (if HasAuto p then (map_of (w_fs w))(MainTemp p \<mapsto> FileNode cm m, AutoTemp p \<mapsto> FileNode ca 384)
      else (map_of (w_fs w))(MainTemp p \<mapsto> FileNode cm m)) v"
    and cm: "cm = fst (TomlEncode toml (main_part toml path cfg w))" "m = mode_of (map_of (w_fs w) path)"
    and run: "finish_split p v = (r, w')"
  shows "\<exists>M'. becomes w M' w' \<and> split_outcome toml cs n path cfg w r t M'"
proof -
  let ?M = "map_of (w_fs w)"
  let ?V = "if HasAuto p then ?M(MainTemp p \<mapsto> FileNode cm m, AutoTemp p \<mapsto> FileNode ca 384) else ?M(MainTemp p \<mapsto> FileNode cm m)"
  have suf: "CHR ''/'' \<notin> set (temp_suffix (w_env w) k)" for k using can by (simp add: can_save_def)
  have "HasAuto p \<Longrightarrow> AutoTemp p = abs_path (cs @ [temp_base (auto_name n) (temp_suffix (w_env w) k2)]) \<and>
      ?M (AutoTemp p) = None \<and> CHR ''/'' \<notin> set (temp_suffix (w_env w) k2) \<and> AutoTemp p \<noteq> MainTemp p"
    using atmp suf by metis
  note ok = split_flat(1) [OF cfg(1,2) can p(1) mt suf this] and fl = split_flat(2) [OF cfg(1,2) can p(1) mt suf this]
  have sib: "siblings (abs_path cs) (paths_of p)" using ok by (simp add: paths_ok_def)
  note F = split_path_facts [OF ok]
  have fsv: "map_of (w_fs v) = ?V" by (rule becomes_fs [OF v])
  have flv: "flat (paths_of p) (map_of (w_fs v))"
    unfolding fsv using flat_update [OF sib] fl F(5,6) by (cases "HasAuto p") simp_all
  have same: "?V q = ?M q" if "q \<in> {MainPath p, AutoPath p}" for q using that F(11,12) by (cases "HasAuto p") auto
  have ex: "MainExisted p \<longleftrightarrow> map_of (w_fs v) (MainPath p) \<noteq> None" "AutoExisted p \<longleftrightarrow> map_of (w_fs v) (AutoPath p) \<noteq> None"
    using p(3,4) same unfolding fsv by simp_all
  have temp: "HasAuto p \<Longrightarrow> map_of (w_fs v) (AutoTemp p) = Some (FileNode ca 384)" unfolding fsv by simp
  from finish_split_law [OF ok flv temp ex run] obtain M' where M': "becomes v M' w'"
    "if is_ok r then new_files p (map_of (w_fs v)) ca M'
     else file_kept (joined r) (map_of (w_fs v)) M' (MainPath p) (MainBackup p) \<and>
       file_kept (joined r) (map_of (w_fs v)) M' (AutoPath p) (AutoBackup p)" by blast
  have main: "?V (MainTemp p) = Some (FileNode cm m)" using F(12) by (cases "HasAuto p") auto
  have at: "MainPath p = path" "AutoPath p = abs_path (cs @ [auto_name n])" "MainBackup p = abs_path (cs @ [backup_base n t])"
    "AutoBackup p = abs_path (cs @ [backup_base (auto_name n) t])" using p(1) cfg(3) by (simp_all add: split_at_def)
  have "split_outcome toml cs n path cfg w r t M'"
  proof (cases "is_ok r")
    case True
    then show ?thesis using M'(2) main atmp p(2) cm at unfolding fsv by (auto simp: split_outcome_def new_files_def Let_def)
  next
    case False
    then show ?thesis using M'(2) same at unfolding fsv by (simp add: split_outcome_def file_kept_def Let_def)
  qed
  then show ?thesis using becomes_trans [OF v M'(1)] by blast
qed

lemma abs_path_not_root: "list_all ok_comp cs \<Longrightarrow> abs_path cs \<noteq> ''/''"
  by (cases cs) (auto simp: ok_comp_def)

text \<open>Nothing that was there before is touched.\<close>

definition untouched :: "world \<Rightarrow> world \<Rightarrow> bool" where
  "untouched w w' \<longleftrightarrow> (\<exists>N. becomes w N w' \<and> (\<forall>q. map_of (w_fs w) q \<noteq> None \<longrightarrow> N q = map_of (w_fs w) q))"

lemma untouched_remove:
  assumes "untouched w v" and "\<And>f. t = Some f \<Longrightarrow> map_of (w_fs w) f = None"
  shows "untouched w (remove_temp t v)"
proof -
  obtain N where N: "becomes w N v" "\<forall>q. map_of (w_fs w) q \<noteq> None \<longrightarrow> N q = map_of (w_fs w) q"
    using assms(1) unfolding untouched_def by blast
  obtain N' where N': "becomes v N' (remove_temp t v)" "\<forall>q. t \<noteq> Some q \<longrightarrow> N' q = map_of (w_fs v) q"
    using remove_temp_law by blast
  have "N' q = map_of (w_fs w) q" if "map_of (w_fs w) q \<noteq> None" for q
    using that N(2) N'(2) assms(2) becomes_fs [OF N(1)] by (cases "t = Some q") auto
  then show ?thesis using becomes_trans [OF N(1) N'(1)] unfolding untouched_def by blast
qed

lemma untouched_outcome: "untouched w w' \<Longrightarrow> \<not> is_ok r \<Longrightarrow> \<exists>t M'. becomes w M' w' \<and> split_outcome toml cs n path cfg w r t M'"
  unfolding untouched_def using split_outcome_early by blast

lemma now_becomes: "now w = (t, v) \<Longrightarrow> becomes w (map_of (w_fs w)) v"
  by (auto simp: now_def becomes_def runs_def)

lemma Stat_mode:
  assumes "os_Stat p w = (mst, w')" "p \<noteq> ''/''" "is_ok mst \<longleftrightarrow> map_of (w_fs w) p \<noteq> None" "\<not> is_dir (w_fs w) p"
  shows "(case mst of Inr (FileNode _ m) \<Rightarrow> m | Inr DirNode \<Rightarrow> 493 | Inl _ \<Rightarrow> 384) = mode_of (map_of (w_fs w) p)"
  using assms by (auto simp: os_Stat_def mode_of_def is_dir_def split: option.splits if_splits node.splits)

text \<open>What follows the temporary file of the main configuration: the temporary file of the
  generated servers, when there are any, and then the replacement.\<close>

definition split_paths_of ::
  "string list \<Rightarrow> string \<Rightarrow> bool \<Rightarrow> (string \<rightharpoonup> node) \<Rightarrow> string \<Rightarrow> string \<Rightarrow> int \<Rightarrow> split_paths" where
  "split_paths_of cs path has M m1 a t =
     \<lparr>MainPath = path, AutoPath = autoServersPath path, MainTemp = m1, AutoTemp = a,
      MainBackup = backup_name (abs_path cs) path t, AutoBackup = backup_name (abs_path cs) (autoServersPath path) t,
      MainExisted = (M path \<noteq> None), AutoExisted = (M (autoServersPath path) \<noteq> None), HasAuto = has\<rparr>"

definition split_rest ::
  "string list \<Rightarrow> string \<Rightarrow> (string \<times> ServerConfig) list \<Rightarrow> (string \<rightharpoonup> node) \<Rightarrow> string option \<Rightarrow> world \<Rightarrow> unit result \<times> world" where
  "split_rest cs path autos M mt w =
     (case (if autos = [] then ((Inr (), None), w)
            else write_temp (abs_path cs) (autoServersPath path) 384 (\<lambda>f w. (Inr (), writeAutoServersTo f autos w)) w) of
        ((Inl e, a), w) \<Rightarrow> (Inl e, remove_temp mt (remove_temp a w))
      | ((Inr _, a), w) \<Rightarrow>
          let (t, w) = now w
          in finish_split (split_paths_of cs path (autos \<noteq> []) M (the mt) (case a of None \<Rightarrow> [] | Some a \<Rightarrow> a) t) w)"

text \<open>What precedes it only reads: the names of the generated servers, and whether the two files
  are there.\<close>

lemma saveSplit_start:
  assumes cfg: "cfg_at cs n path" and can: "can_save cs n w" and st: "stats_ok w"
  shows "\<exists>w3. becomes w (map_of (w_fs w)) w3 \<and> saveSplit toml path cfg w =
    (case write_temp (abs_path cs) path (mode_of (map_of (w_fs w) path)) (\<lambda>f. encode_to toml f (main_part toml path cfg w)) w3 of
       ((Inl e, mt), v) \<Rightarrow> (Inl e, remove_temp mt v)
     | ((Inr _, mt), v) \<Rightarrow> split_rest cs path (auto_part toml path cfg w) (map_of (w_fs w)) mt v)"
proof -
  let ?M = "map_of (w_fs w)"
  have cs: "cs \<noteq> []" "list_all ok_comp (cs @ [n])" "path = abs_path (cs @ [n])" using cfg by (simp_all add: cfg_at_def)
  have auto: "autoServersPath path = abs_path (cs @ [auto_name n])" by (rule autoServersPath_at [OF cfg])
  have dir: "Dir_of path = abs_path cs" using cs Dir_abs_path by simp
  have root: "path \<noteq> ''/''" "abs_path (cs @ [auto_name n]) \<noteq> ''/''"
    using cs ok_auto_name abs_path_not_root by auto
  obtain names w1 where 1: "loadAutoServerNames toml path w = (names, w1)" by fastforce
  obtain mst w2 where 2: "os_Stat path w1 = (mst, w2)" by fastforce
  obtain ast w3 where 3: "os_Stat (autoServersPath path) w2 = (ast, w3)" by fastforce
  note L = loadAutoServerNames_world [OF 1] and S2 = Stat_exact [OF 2 root(1)] and S3 = Stat_exact [OF 3 [unfolded auto] root(2)]
  have fs1: "map_of (w_fs w1) = ?M" by (rule becomes_fs [OF L(1)])
  have b2: "becomes w ?M w2" using becomes_trans [OF L(1) S2(1)] fs1 by simp
  have fs2: "map_of (w_fs w2) = ?M" by (rule becomes_fs [OF b2])
  have b3: "becomes w ?M w3" using becomes_trans [OF b2 S3(1)] fs2 by simp
  have existed: "is_ok mst \<longleftrightarrow> ?M path \<noteq> None" "is_ok ast \<longleftrightarrow> ?M (autoServersPath path) \<noteq> None"
    using S2(3) S3(3) st L(2) S2(2) becomes_env [OF L(1)] becomes_env [OF b2] fs1 fs2 auto
    by (auto simp: faulty_def stats_ok_def)
  have "\<not> is_dir (w_fs w1) path" using can cs(3) fs1 root(1) by (auto simp: can_save_def is_dir_def)
  then have mode: "(case mst of Inr (FileNode _ m) \<Rightarrow> m | Inr DirNode \<Rightarrow> 493 | Inl _ \<Rightarrow> 384) = mode_of (?M path)"
    using Stat_mode [OF 2 root(1)] existed(1) fs1 by simp
  have parts: "split_auto names (Servers (cloneConfig cfg)) = (auto_part toml path cfg w, Servers (main_part toml path cfg w))"
    "(cloneConfig cfg)\<lparr>Servers := Servers (main_part toml path cfg w)\<rparr> = main_part toml path cfg w"
    using 1 by (simp_all add: auto_part_def main_part_def)
  show ?thesis
    by (intro exI [of _ w3] conjI b3)
      (simp add: saveSplit_def 1 2 3 parts mode dir Let_def split_rest_def split_paths_of_def existed split: sum.split prod.split)
qed

text \<open>The replacement, with the temporary files where \<open>os.CreateTemp\<close> put them.\<close>

definition main_temped :: "tomllib \<Rightarrow> string list \<Rightarrow> string \<Rightarrow> string \<Rightarrow> Config \<Rightarrow> world \<Rightarrow> string \<Rightarrow> (string \<rightharpoonup> node) \<Rightarrow> bool" where
  "main_temped toml cs n path cfg w m1 M \<longleftrightarrow>
     (\<exists>k. m1 = abs_path (cs @ [temp_base n (temp_suffix (w_env w) k)])) \<and> map_of (w_fs w) m1 = None \<and>
     M = (map_of (w_fs w))(m1 \<mapsto>
       FileNode (fst (TomlEncode toml (main_part toml path cfg w))) (mode_of (map_of (w_fs w) path)))"

lemma split_finish:
  assumes cfg: "cfg_at cs n path" and can: "can_save cs n w" and m: "main_temped toml cs n path cfg w m1 M1"
    and v: "becomes w (if auto_part toml path cfg w \<noteq> [] then M1(a \<mapsto> FileNode ca 384) else M1) v"
    and at: "auto_part toml path cfg w \<noteq> [] \<Longrightarrow> a = abs_path (cs @ [temp_base (auto_name n) (temp_suffix (w_env w) k2)]) \<and>
      M1 a = None \<and> (no_faults w \<longrightarrow> ca = concat (concat (List.map auto_lines (auto_part toml path cfg w))))"
    and f: "finish_split (split_paths_of cs path (auto_part toml path cfg w \<noteq> []) (map_of (w_fs w)) m1 a t) v = (r, w')"
      (is "finish_split ?p v = _")
  shows "\<exists>M'. becomes w M' w' \<and> split_outcome toml cs n path cfg w r t M'"
proof -
  let ?M = "map_of (w_fs w)" and ?node = "FileNode (fst (TomlEncode toml (main_part toml path cfg w))) (mode_of (map_of (w_fs w) path))"
  have cs: "cs \<noteq> []" "list_all ok_comp (cs @ [n])" "path = abs_path (cs @ [n])" using cfg by (simp_all add: cfg_at_def)
  have ok_auto: "list_all ok_comp (cs @ [auto_name n])" using cs(2) ok_auto_name by simp
  have auto: "autoServersPath path = abs_path (cs @ [auto_name n])" by (rule autoServersPath_at [OF cfg])
  have M1: "M1 = ?M(m1 \<mapsto> ?node)" using m by (simp add: main_temped_def)
  obtain k1 where k1: "m1 = abs_path (cs @ [temp_base n (temp_suffix (w_env w) k1)])" "?M m1 = None"
    using m by (auto simp: main_temped_def)
  note sel = split_paths_of_def split_paths.select_convs
  have sp: "split_at cs n t ?p"
    using backup_name_at(1) [OF cs(1,2)] backup_name_at(1) [OF cs(1) ok_auto] cs(3) auto by (simp add: split_at_def sel)
  have v': "becomes w (if HasAuto ?p then ?M(MainTemp ?p \<mapsto> ?node, AutoTemp ?p \<mapsto> FileNode ca 384) else ?M(MainTemp ?p \<mapsto> ?node)) v"
    using v unfolding sel M1 .
  have at': "HasAuto ?p \<Longrightarrow> AutoTemp ?p = abs_path (cs @ [temp_base (auto_name n) (temp_suffix (w_env w) k2)]) \<and>
      ?M (AutoTemp ?p) = None \<and> AutoTemp ?p \<noteq> MainTemp ?p \<and>
      (no_faults w \<longrightarrow> ca = concat (concat (List.map auto_lines (auto_part toml path cfg w))))"
    using at unfolding sel M1 by (auto split: if_splits)
  from finish_split_outcome [OF cs can sp _ _ _ _ _ at' v' refl refl f, where ?k1.0 = k1] show ?thesis
    using k1 by (simp add: sel)
qed

text \<open>The temporary file of the generated servers: at most that file is new, and when it was
  written it holds the sections.\<close>

lemma auto_temp_law:
  assumes cfg: "cfg_at cs n path" and m: "main_temped toml cs n path cfg w m1 M1" and b: "becomes w M1 w4"
    and run: "write_temp (abs_path cs) (autoServersPath path) 384 (\<lambda>f w. (Inr (), writeAutoServersTo f autos w)) w4 = ((r, t), w5)"
  shows "untouched w w5 \<and> (\<forall>a. t = Some a \<longrightarrow> M1 a = None) \<and> (is_ok r \<longrightarrow> (\<exists>a ca k2. t = Some a \<and>
    a = abs_path (cs @ [temp_base (auto_name n) (temp_suffix (w_env w) k2)]) \<and> becomes w (M1(a \<mapsto> FileNode ca 384)) w5 \<and>
    (no_faults w \<longrightarrow> ca = concat (concat (List.map auto_lines autos)))))"
proof -
  have ok_auto: "cs \<noteq> []" "list_all ok_comp (cs @ [auto_name n])" using cfg ok_auto_name by (simp_all add: cfg_at_def)
  note T = write_temp_law [OF auto_fills run, unfolded becomes_fs [OF b]]
  have old: "M1 q = map_of (w_fs w) q" if "map_of (w_fs w) q \<noteq> None" for q using m that by (auto simp: main_temped_def)
  show ?thesis
  proof (cases t)
    case None
    then show ?thesis using T becomes_trans [OF b] old unfolding untouched_def by blast
  next
    case (Some a)
    then obtain c md v where a: "M1 a = None" "becomes w4 (M1(a \<mapsto> FileNode c md)) w5"
        "is_ok r \<longrightarrow> md = 384 \<and> (no_faults w4 \<longrightarrow> no_faults v) \<and> (no_faults v \<longrightarrow> c = concat (concat (List.map auto_lines autos)))"
        "temp_of (w_env w4) (abs_path cs) (autoServersPath path) a"
      using T by blast
    obtain k2 where k2: "a = abs_path (cs @ [temp_base (auto_name n) (temp_suffix (w_env w) k2)])"
      using temp_of_at [OF ok_auto] a(4) becomes_env [OF b] autoServersPath_at [OF cfg] by auto
    have b5: "becomes w (M1(a \<mapsto> FileNode c md)) w5" by (rule becomes_trans [OF b a(2)])
    have "(M1(a \<mapsto> FileNode c md)) q = map_of (w_fs w) q" if "map_of (w_fs w) q \<noteq> None" for q
      using old that a(1) by (metis fun_upd_apply)
    then have "untouched w w5" using b5 unfolding untouched_def by blast
    moreover have "is_ok r \<Longrightarrow> \<exists>ca. becomes w (M1(a \<mapsto> FileNode ca 384)) w5 \<and>
        (no_faults w \<longrightarrow> ca = concat (concat (List.map auto_lines autos)))"
      using a(3) b5 becomes_faults [OF b] by blast
    ultimately show ?thesis using Some a(1) k2 by blast
  qed
qed

lemma split_rest_outcome:
  assumes cfg: "cfg_at cs n path" and can: "can_save cs n w" and m: "main_temped toml cs n path cfg w m1 M1"
    and b: "becomes w M1 w4" and run: "split_rest cs path (auto_part toml path cfg w) (map_of (w_fs w)) (Some m1) w4 = (r, w')"
  shows "\<exists>t M'. becomes w M' w' \<and> split_outcome toml cs n path cfg w r t M'"
proof -
  let ?autos = "auto_part toml path cfg w"
  have later: "becomes w M v'" if "becomes w M v" "now v = (t, v')" for M v v' t
    using becomes_trans [OF that(1) now_becomes [OF that(2), unfolded becomes_fs [OF that(1)]]] .
  note finish = split_finish [OF cfg can m]
  show ?thesis
  proof (cases "?autos = []")
    case True
    obtain t v where t: "now w4 = (t, v)" by fastforce
    have "finish_split (split_paths_of cs path (?autos \<noteq> []) (map_of (w_fs w)) m1 [] t) v = (r, w')"
      using run True t by (simp add: split_rest_def)
    from finish [OF _ _ this] show ?thesis using True later [OF b t] by fastforce
  next
    case some: False
    obtain r5 a5 w5 where 5: "write_temp (abs_path cs) (autoServersPath path) 384
        (\<lambda>f w. (Inr (), writeAutoServersTo f ?autos w)) w4 = ((r5, a5), w5)" by (metis prod.exhaust)
    note T = auto_temp_law [OF cfg m b 5]
    show ?thesis
    proof (cases r5)
      case (Inl e)
      then have out: "\<not> is_ok r" "w' = remove_temp (Some m1) (remove_temp a5 w5)"
        using run some 5 by (auto simp: split_rest_def)
      have "untouched w w'" unfolding out(2) using T m
        by (intro untouched_remove) (auto simp: main_temped_def split: if_splits)
      then show ?thesis using untouched_outcome out(1) by blast
    next
      case (Inr u)
      then obtain a ca k2 where a: "a5 = Some a" "a = abs_path (cs @ [temp_base (auto_name n) (temp_suffix (w_env w) k2)])"
          "becomes w (M1(a \<mapsto> FileNode ca 384)) w5" "no_faults w \<longrightarrow> ca = concat (concat (List.map auto_lines ?autos))"
        using T by auto
      obtain t v where t: "now w5 = (t, v)" by fastforce
      have "finish_split (split_paths_of cs path (?autos \<noteq> []) (map_of (w_fs w)) m1 a t) v = (r, w')"
        using run some 5 a(1) Inr t by (simp add: split_rest_def)
      from finish [OF _ _ this] show ?thesis using some T a later [OF a(3) t] by fastforce
    qed
  qed
qed

lemma saveSplit_outcome:
  assumes cfg: "cfg_at cs n path" and can: "can_save cs n w" and st: "stats_ok w"
    and run: "saveSplit toml path cfg w = (r, w')"
  shows "\<exists>t M'. becomes w M' w' \<and> split_outcome toml cs n path cfg w r t M'"
proof -
  let ?M = "map_of (w_fs w)" and ?main = "main_part toml path cfg w"
  have cs: "cs \<noteq> []" "list_all ok_comp (cs @ [n])" "path = abs_path (cs @ [n])" using cfg by (simp_all add: cfg_at_def)
  obtain w3 where b3: "becomes w ?M w3" and unf: "saveSplit toml path cfg w =
      (case write_temp (abs_path cs) path (mode_of (?M path)) (\<lambda>f. encode_to toml f ?main) w3 of
         ((Inl e, mt), v) \<Rightarrow> (Inl e, remove_temp mt v)
       | ((Inr _, mt), v) \<Rightarrow> split_rest cs path (auto_part toml path cfg w) ?M mt v)"
    using saveSplit_start [OF cfg can st] by blast
  obtain r4 mt w4 where 4: "write_temp (abs_path cs) path (mode_of (?M path)) (\<lambda>f. encode_to toml f ?main) w3 = ((r4, mt), w4)"
    by (metis prod.exhaust)
  note T = write_temp_law [OF encode_fills 4, unfolded becomes_fs [OF b3]]
  show ?thesis
  proof (cases r4)
    case (Inl e)
    then have out: "\<not> is_ok r" "w' = remove_temp mt w4" using run unf 4 by auto
    have "untouched w w4"
      using T becomes_trans [OF b3] unfolding untouched_def by (cases mt) fastforce+
    then have "untouched w w'" unfolding out(2) using T by (intro untouched_remove) auto
    then show ?thesis using untouched_outcome out(1) by blast
  next
    case (Inr u)
    then obtain m1 where m1: "mt = Some m1" "?M m1 = None" "temp_of (w_env w3) (abs_path cs) path m1"
        "becomes w3 (?M(m1 \<mapsto> FileNode (fst (TomlEncode toml ?main)) (mode_of (?M path)))) w4"
      using T by (cases mt) auto
    obtain k where "m1 = abs_path (cs @ [temp_base n (temp_suffix (w_env w) k)])"
      using temp_of_at [OF cs(1,2)] m1(3) becomes_env [OF b3] cs(3) by auto
    then have "main_temped toml cs n path cfg w m1 (?M(m1 \<mapsto> FileNode (fst (TomlEncode toml ?main)) (mode_of (?M path))))"
      using m1(2) by (auto simp: main_temped_def)
    from split_rest_outcome [OF cfg can this becomes_trans [OF b3 m1(4)]] show ?thesis
      using run 4 Inr m1(1) unfolding unf by simp
  qed
qed

section \<open>Properties\<close>

text \<open>C30: Saving the configuration replaces both files or none. On success the main file holds the
  encoded configuration without the auto-provisioned servers, with the mode it had, and the
  auto file holds those servers (with every line, if no write failed), or is gone if there are
  none. On failure every file that existed still has its old content, whatever failed, unless
  the roll-back failed too; then the error says so and the old content is in the backup beside
  the file. No command is run. The two \<open>Stat\<close> calls at the beginning must not fail for another
  reason than absence: the code takes any error of theirs for absence.\<close>

theorem saveSplit_transactional:
  assumes "cfg_at cs n path" and "can_save cs n w" and "stats_ok w" and "saveSplit toml path cfg w = (r, w')"
  shows "\<exists>t M'. becomes w M' w' \<and> split_outcome toml cs n path cfg w r t M'"
  by (rule saveSplit_outcome [OF assms])

definition small_toml :: tomllib where
  "small_toml = \<lparr>TomlDecode = \<lambda>_ cfg. Inr cfg, TomlServers = \<lambda>_. Inr [], TomlEncode = \<lambda>cfg. (ListenAddr (Global cfg), None)\<rparr>"

definition conf_fs :: fs where
  "conf_fs = [(''/etc'', DirNode), (''/etc/c.toml'', FileNode [] 384)]"

lemma conf_can_save: "cfg_at [''etc''] ''c.toml'' ''/etc/c.toml''" "can_save [''etc''] ''c.toml'' (quiet_world conf_fs)"
proof -
  show "cfg_at [''etc''] ''c.toml'' ''/etc/c.toml''" by (simp add: cfg_at_def ok_comp_def)
  have "p = ''/'' \<or> p = ''/etc''" if "p \<noteq> []" "p \<noteq> q" "under p q" "q = ''/etc'' \<or> q = ''/etc/c.toml''" for p q
    using that by (auto simp: under_def dir_prefix_def HasPrefix_iff append_eq_Cons_conv Cons_eq_append_conv split: if_splits)
  moreover have "\<not> under ''/etc/c.toml'' ''/etc''" by (simp add: under_def dir_prefix_def HasPrefix_iff)
  ultimately have "fs_ok conf_fs" unfolding fs_ok_def conf_fs_def by (auto simp: is_dir_def split: if_splits)
  moreover have "\<not> is_dir conf_fs (abs_path ([''etc''] @ [x]))" if "x \<noteq> []" for x
    using that by (simp add: is_dir_def conf_fs_def)
  moreover have "auto_name ''c.toml'' \<noteq> []" "backup_base x t \<noteq> []" for x t by (simp_all add: auto_name_def backup_base_def)
  ultimately show "can_save [''etc''] ''c.toml'' (quiet_world conf_fs)"
    by (auto simp: can_save_def quiet_env_def)
qed

theorem saveSplit_transactional_witness:
  "\<exists>t M'. becomes (quiet_world conf_fs) M' (snd (saveSplit small_toml ''/etc/c.toml'' DefaultConfig (quiet_world conf_fs))) \<and>
     split_outcome small_toml [''etc''] ''c.toml'' ''/etc/c.toml'' DefaultConfig (quiet_world conf_fs)
       (fst (saveSplit small_toml ''/etc/c.toml'' DefaultConfig (quiet_world conf_fs))) t M'"
proof -
  have "stats_ok (quiet_world conf_fs)" by (simp add: stats_ok_def quiet_env_def)
  from saveSplit_transactional [OF conf_can_save this prod.collapse [symmetric]] show ?thesis .
qed

end
