(* ===== verification/Config_Fields.thy ===== *)
theory Config_Fields
  imports Config
begin

text \<open>
  \<open>internal/engine/config.go\<close>, second part: reading and writing single settings
  (\<open>getXField\<close>, \<open>setXField\<close>), the dotted keys of \<open>GetConfigValue\<close>, and the
  environment overrides. A setter returns the updated section or an error; the code's
  in-place update of the section is the returned value.
\<close>

section \<open>Setters\<close>

definition invalid_field :: "string \<Rightarrow> string \<Rightarrow> 'a result" where
  "invalid_field what val = Inl (Errorf (''invalid '' @ what) [val])"

definition unknown_field :: "string \<Rightarrow> string \<Rightarrow> 'a result" where
  "unknown_field what key = Inl (Errorf (''unknown '' @ what @ '' field'') [key])"

definition setLocalField :: "LocalConfig \<Rightarrow> string \<Rightarrow> string \<Rightarrow> LocalConfig result" where
  "setLocalField v key val =
     (if key = ''dest_root'' then Inr (v\<lparr>LocalDestRoot := normalizeDestRoot val\<rparr>)
      else if key = ''hot_root'' then Inr (v\<lparr>HotRoot := normalizeDestRoot val\<rparr>)
      else unknown_field ''local'' key)"

definition setGlobalField :: "golib \<Rightarrow> GlobalConfig \<Rightarrow> string \<Rightarrow> string \<Rightarrow> GlobalConfig result" where
  "setGlobalField gl v key val =
     (if key = ''listen_addr'' then Inr (v\<lparr>ListenAddr := val\<rparr>)
      else if key = ''api_token'' then Inr (v\<lparr>APIToken := val\<rparr>)
      else if key = ''max_mbps'' then
        (case ParseFloat gl val of
           None \<Rightarrow> invalid_field ''max_mbps'' val
         | Some f \<Rightarrow> if bad_rate f then invalid_field ''max_mbps'' val
                     else Inr (v\<lparr>MaxMBps := f\<rparr>))
      else if key = ''backup_interval'' then
        (case ParseDuration gl val of
           None \<Rightarrow> invalid_field ''backup_interval duration'' val
         | Some d \<Rightarrow> if d \<le> 0 then invalid_field ''backup_interval duration'' val
                     else Inr (v\<lparr>BackupInterval := d\<rparr>))
      else if key = ''initial_delay'' then
        (case ParseDuration gl val of
           None \<Rightarrow> invalid_field ''initial_delay duration'' val
         | Some d \<Rightarrow> if d < 0 then invalid_field ''initial_delay duration'' val
                     else Inr (v\<lparr>InitialDelay := d\<rparr>))
      else if key = ''transfer_delay'' then
        (case ParseDuration gl val of
           None \<Rightarrow> invalid_field ''transfer_delay duration'' val
         | Some d \<Rightarrow> if d < 0 then invalid_field ''transfer_delay duration'' val
                     else Inr (v\<lparr>TransferDelay := d\<rparr>))
      else if key = ''excludes'' then Inr (v\<lparr>GlobalExcludes := parseExcludesValue val\<rparr>)
      else unknown_field ''global'' key)"

definition setNASField :: "NASConfig \<Rightarrow> string \<Rightarrow> string \<Rightarrow> NASConfig result" where
  "setNASField v key val =
     (if key = ''ssh_user'' then Inr (v\<lparr>SSHUser := val\<rparr>)
      else if key = ''ssh_host'' then Inr (v\<lparr>SSHHost := val\<rparr>)
      else if key = ''ssh_port'' then
        (case Atoi val of
           None \<Rightarrow> invalid_field ''ssh_port'' val
         | Some i \<Rightarrow> if i \<le> 0 \<or> 65535 < i then invalid_field ''ssh_port'' val
                     else Inr (v\<lparr>SSHPort := i\<rparr>))
      else if key = ''ssh_key'' then Inr (v\<lparr>SSHKey := val\<rparr>)
      else if key = ''dest_root'' then Inr (v\<lparr>NASDestRoot := normalizeDestRoot val\<rparr>)
      else unknown_field ''nas'' key)"

definition nonneg_field :: "string \<Rightarrow> string \<Rightarrow> (int \<Rightarrow> 'a) \<Rightarrow> 'a result" where
  "nonneg_field key val upd =
     (case Atoi val of
        None \<Rightarrow> invalid_field key val
      | Some i \<Rightarrow> if i < 0 then invalid_field key val else Inr (upd i))"

definition setRetentionField :: "RetentionConfig \<Rightarrow> string \<Rightarrow> string \<Rightarrow> RetentionConfig result" where
  "setRetentionField v key val =
     (if key = ''prune_days'' then nonneg_field key val (\<lambda>i. v\<lparr>PruneDays := i\<rparr>)
      else if key = ''prune_count'' then nonneg_field key val (\<lambda>i. v\<lparr>PruneCount := i\<rparr>)
      else if key = ''hot_prune_days'' then nonneg_field key val (\<lambda>i. v\<lparr>HotPruneDays := i\<rparr>)
      else if key = ''hot_prune_count'' then nonneg_field key val (\<lambda>i. v\<lparr>HotPruneCount := i\<rparr>)
      else unknown_field ''retention'' key)"

definition setServerField :: "ServerConfig \<Rightarrow> string \<Rightarrow> string \<Rightarrow> ServerConfig result" where
  "setServerField s key val =
     (if key = ''enabled'' then
        (case ParseBool val of None \<Rightarrow> invalid_field ''bool for enabled'' val
                             | Some b \<Rightarrow> Inr (s\<lparr>Enabled := b\<rparr>))
      else if key = ''target'' then Inr (s\<lparr>Target := val\<rparr>)
      else if key = ''container_name'' then Inr (s\<lparr>ContainerName := val\<rparr>)
      else if key = ''rcon_password'' then Inr (s\<lparr>RconPassword := val\<rparr>)
      else if key = ''data_dir'' then Inr (s\<lparr>DataDir := val\<rparr>)
      else if key = ''pause_if_no_players'' then
        (case ParseBool val of None \<Rightarrow> invalid_field ''bool for pause_if_no_players'' val
                             | Some b \<Rightarrow> Inr (s\<lparr>PauseIfNoPlayers := b\<rparr>))
      else if key = ''excludes'' then Inr (s\<lparr>ServerExcludes := parseExcludesValue val\<rparr>)
      else unknown_field ''server'' key)"

section \<open>Getters\<close>

definition getLocalField :: "LocalConfig \<Rightarrow> string \<Rightarrow> string" where
  "getLocalField l key =
     (if key = ''dest_root'' then LocalDestRoot l
      else if key = ''hot_root'' then HotRoot l else [])"

definition show_excludes :: "string \<Rightarrow> string list option \<Rightarrow> string" where
  "show_excludes unset ex =
     (case ex of None \<Rightarrow> unset | Some es \<Rightarrow> if es = [] then ''none'' else Join es '','')"

definition getGlobalField :: "golib \<Rightarrow> GlobalConfig \<Rightarrow> string \<Rightarrow> string" where
  "getGlobalField gl g key =
     (if key = ''listen_addr'' then ListenAddr g
      else if key = ''api_token'' then APIToken g
      else if key = ''max_mbps'' then FormatFloat1 gl (MaxMBps g)
      else if key = ''backup_interval'' then DurationString gl (BackupInterval g)
      else if key = ''initial_delay'' then DurationString gl (InitialDelay g)
      else if key = ''transfer_delay'' then DurationString gl (TransferDelay g)
      else if key = ''excludes'' then show_excludes ''default'' (GlobalExcludes g)
      else [])"

definition getNASField :: "NASConfig \<Rightarrow> string \<Rightarrow> string" where
  "getNASField n key =
     (if key = ''ssh_user'' then SSHUser n
      else if key = ''ssh_host'' then SSHHost n
      else if key = ''ssh_port'' then show_int (SSHPort n)
      else if key = ''ssh_key'' then SSHKey n
      else if key = ''dest_root'' then NASDestRoot n
      else [])"

definition getRetentionField :: "RetentionConfig \<Rightarrow> string \<Rightarrow> string" where
  "getRetentionField r key =
     (if key = ''prune_days'' then show_int (PruneDays r)
      else if key = ''prune_count'' then show_int (PruneCount r)
      else if key = ''hot_prune_days'' then show_int (HotPruneDays r)
      else if key = ''hot_prune_count'' then show_int (HotPruneCount r)
      else [])"

definition getServerFieldStr :: "ServerConfig \<Rightarrow> string \<Rightarrow> string" where
  "getServerFieldStr s key =
     (if key = ''enabled'' then show_bool (Enabled s)
      else if key = ''target'' then Target s
      else if key = ''container_name'' then ContainerName s
      else if key = ''rcon_password'' then RconPassword s
      else if key = ''data_dir'' then DataDir s
      else if key = ''pause_if_no_players'' then show_bool (PauseIfNoPlayers s)
      else if key = ''excludes'' then show_excludes ''inherit'' (ServerExcludes s)
      else [])"

definition GetConfigValue :: "golib \<Rightarrow> Config \<Rightarrow> string \<Rightarrow> string" where
  "GetConfigValue gl cfg key =
     (let parts = Split key (CHR ''.'')
      in if length parts < 2 then []
         else if parts ! 0 = ''global'' then getGlobalField gl (Global cfg) (parts ! 1)
         else if parts ! 0 = ''nas'' then getNASField (NAS cfg) (parts ! 1)
         else if parts ! 0 = ''local'' then getLocalField (Local cfg) (parts ! 1)
         else if parts ! 0 = ''retention'' then getRetentionField (Retention cfg) (parts ! 1)
         else if parts ! 0 = ''server'' then
           (if length parts < 3 then []
            else (case map_of (Servers cfg) (ToLower (parts ! 1)) of
                    Some s \<Rightarrow> getServerFieldStr s (parts ! 2)
                  | None \<Rightarrow> []))
         else [])"

section \<open>Environment overrides\<close>

definition serverFieldKeys :: "string list" where
  "serverFieldKeys = [''enabled'', ''target'', ''container_name'', ''rcon_password'',
     ''data_dir'', ''pause_if_no_players'', ''excludes'']"

fun match_field :: "string \<Rightarrow> string list \<Rightarrow> (string \<times> string) option" where
  "match_field rest [] = None"
| "match_field rest (f # fs) =
     (let suffix = CHR ''_'' # f
      in if HasSuffix rest suffix then
           (let name = TrimSuffix rest suffix in if name = [] then None else Some (name, f))
         else match_field rest fs)"

definition parseServerEnvKey :: "string \<Rightarrow> (string \<times> string) option" where
  "parseServerEnvKey rest = match_field rest serverFieldKeys"

text \<open>A failed setter is logged and leaves the section unchanged.\<close>

definition or_keep :: "'a \<Rightarrow> 'a result \<Rightarrow> 'a" where
  "or_keep old r = (case r of Inl _ \<Rightarrow> old | Inr new \<Rightarrow> new)"

definition override_server :: "Config \<Rightarrow> string \<Rightarrow> string \<Rightarrow> Config" where
  "override_server cfg rest val =
     (case parseServerEnvKey rest of
        None \<Rightarrow> cfg
      | Some (name, field) \<Rightarrow>
          (case map_of (Servers cfg) name of
             None \<Rightarrow> cfg
           | Some s \<Rightarrow>
               (case setServerField s field val of
                  Inl _ \<Rightarrow> cfg
                | Inr s' \<Rightarrow> cfg\<lparr>Servers := AList.update name s' (Servers cfg)\<rparr>)))"

definition override_section :: "golib \<Rightarrow> Config \<Rightarrow> string \<Rightarrow> string \<Rightarrow> string \<Rightarrow> Config" where
  "override_section gl cfg section key val =
     (if section = ''global'' then cfg\<lparr>Global := or_keep (Global cfg) (setGlobalField gl (Global cfg) key val)\<rparr>
      else if section = ''nas'' then cfg\<lparr>NAS := or_keep (NAS cfg) (setNASField (NAS cfg) key val)\<rparr>
      else if section = ''local'' then cfg\<lparr>Local := or_keep (Local cfg) (setLocalField (Local cfg) key val)\<rparr>
      else if section = ''retention'' then cfg\<lparr>Retention := or_keep (Retention cfg) (setRetentionField (Retention cfg) key val)\<rparr>
      else cfg)"

definition apply_env_entry :: "golib \<Rightarrow> string \<Rightarrow> Config \<Rightarrow> Config" where
  "apply_env_entry gl e cfg =
     (let kv = SplitN e (CHR ''='') 2
      in if length kv \<noteq> 2 \<or> \<not> HasPrefix (kv ! 0) ''MC_BACKUP_'' then cfg
         else (let parts = Split (ToLower (kv ! 0)) (CHR ''_''); val = kv ! 1
               in if length parts < 3 then cfg
                  else if length parts = 4 \<and> parts ! 2 = ''transfer'' \<and> parts ! 3 = ''delay''
                  then cfg\<lparr>Global := or_keep (Global cfg) (setGlobalField gl (Global cfg) ''transfer_delay'' val)\<rparr>
                  else if length parts < 4 then cfg
                  else if parts ! 2 = ''server'' then override_server cfg (Join (drop 3 parts) ''_'') val
                  else override_section gl cfg (parts ! 2) (Join (drop 3 parts) ''_'') val))"

definition applyEnvOverrides :: "golib \<Rightarrow> string list \<Rightarrow> Config \<Rightarrow> Config" where
  "applyEnvOverrides gl environ cfg = fold (apply_env_entry gl) environ cfg"

section \<open>The interface of a section of settings\<close>

text \<open>
  What the code relies on when it writes one setting: an unknown key is refused, no
  other key is changed, and a later write of a key undoes an earlier one.
\<close>

locale settings =
  fixes set_field :: "'s \<Rightarrow> string \<Rightarrow> string \<Rightarrow> 's result"
    and get_field :: "'s \<Rightarrow> string \<Rightarrow> string"
    and names :: "string list"
  assumes refuses: "k \<notin> set names \<Longrightarrow> \<not> is_ok (set_field s k v)"
    and frame: "set_field s k v = Inr s' \<Longrightarrow> k' \<noteq> k \<Longrightarrow> get_field s' k' = get_field s k'"
    and overwrite: "set_field s k v = Inr s' \<Longrightarrow> set_field s' k v' = set_field s k v'"

text \<open>Writing a list of settings, each failure leaving the section as it was.\<close>

definition set_all :: "('s \<Rightarrow> string \<Rightarrow> string \<Rightarrow> 's result) \<Rightarrow> (string \<times> string) list \<Rightarrow> 's \<Rightarrow> 's" where
  "set_all f kvs s = fold (\<lambda>(k, v) s. or_keep s (f s k v)) kvs s"

lemma set_all_simps [simp]:
  "set_all f [] = (\<lambda>s. s)"
  "set_all f ((k, v) # kvs) s = set_all f kvs (or_keep s (f s k v))"
  by (simp_all add: set_all_def fun_eq_iff)

lemma set_all_append: "set_all f (xs @ ys) s = set_all f ys (set_all f xs s)"
  by (simp add: set_all_def)

context settings begin

lemma or_keep_frame: "k' \<noteq> k \<Longrightarrow> get_field (or_keep s (set_field s k v)) k' = get_field s k'"
  by (auto simp: or_keep_def frame split: sum.splits)

lemma set_all_frame:
  "k \<notin> set (keys kvs) \<Longrightarrow> get_field (set_all set_field kvs s) k = get_field s k"
proof (induction kvs arbitrary: s)
  case Nil
  show ?case by simp
next
  case (Cons kv kvs)
  then show ?case by (cases kv) (simp add: or_keep_frame)
qed

lemma set_all_last:
  assumes "set_field (set_all set_field kvs s) k v = Inr s'" and "k \<notin> set (keys kvs')"
  shows "get_field (set_all set_field (kvs @ (k, v) # kvs') s) k = get_field s' k"
  using assms by (simp add: set_all_append or_keep_def set_all_frame)

lemma set_field_known: "set_field s k v = Inr s' \<Longrightarrow> k \<in> set names"
  using refuses [of k s v] by auto

end

lemmas setter_defs =
  setLocalField_def setGlobalField_def setNASField_def setRetentionField_def setServerField_def
  unknown_field_def invalid_field_def nonneg_field_def

lemmas getter_defs =
  getLocalField_def getGlobalField_def getNASField_def getRetentionField_def getServerFieldStr_def

lemma result_if_Inr:
  "(if b then x else y) = Inr r \<longleftrightarrow> (b \<and> x = Inr r) \<or> (\<not> b \<and> y = Inr r)"
  by simp

lemma invalid_neq_Inr [simp]: "invalid_field w v \<noteq> Inr r" "unknown_field w v \<noteq> Inr r"
    "\<not> is_ok (invalid_field w v)" "\<not> is_ok (unknown_field w v)"
  by (simp_all add: invalid_field_def unknown_field_def)

lemma nonneg_field_Inr:
  "nonneg_field k v f = Inr r \<longleftrightarrow> (\<exists>i. Atoi v = Some i \<and> 0 \<le> i \<and> r = f i)"
  by (auto simp: nonneg_field_def not_less split: option.splits)

text \<open>Which writes succeed, and what they store.\<close>

lemma setLocalField_Inr:
  "setLocalField v k val = Inr v' \<Longrightarrow>
     k = ''dest_root'' \<and> v' = v\<lparr>LocalDestRoot := normalizeDestRoot val\<rparr> \<or>
     k = ''hot_root'' \<and> v' = v\<lparr>HotRoot := normalizeDestRoot val\<rparr>"
  by (simp add: setLocalField_def split: if_splits)

lemma setNASField_Inr:
  "setNASField v k val = Inr v' \<Longrightarrow>
     k = ''ssh_user'' \<and> v' = v\<lparr>SSHUser := val\<rparr> \<or>
     k = ''ssh_host'' \<and> v' = v\<lparr>SSHHost := val\<rparr> \<or>
     k = ''ssh_port'' \<and> (\<exists>i. Atoi val = Some i \<and> 0 < i \<and> i \<le> 65535 \<and> v' = v\<lparr>SSHPort := i\<rparr>) \<or>
     k = ''ssh_key'' \<and> v' = v\<lparr>SSHKey := val\<rparr> \<or>
     k = ''dest_root'' \<and> v' = v\<lparr>NASDestRoot := normalizeDestRoot val\<rparr>"
  by (simp add: setNASField_def not_less not_le split: if_splits option.splits)

lemma setRetentionField_Inr:
  "setRetentionField v k val = Inr v' \<Longrightarrow>
     \<exists>i. Atoi val = Some i \<and> 0 \<le> i \<and>
       (k = ''prune_days'' \<and> v' = v\<lparr>PruneDays := i\<rparr> \<or>
        k = ''prune_count'' \<and> v' = v\<lparr>PruneCount := i\<rparr> \<or>
        k = ''hot_prune_days'' \<and> v' = v\<lparr>HotPruneDays := i\<rparr> \<or>
        k = ''hot_prune_count'' \<and> v' = v\<lparr>HotPruneCount := i\<rparr>)"
  by (auto simp: setRetentionField_def nonneg_field_Inr split: if_splits)

lemma setServerField_Inr:
  "setServerField v k val = Inr v' \<Longrightarrow>
     k = ''enabled'' \<and> (\<exists>b. ParseBool val = Some b \<and> v' = v\<lparr>Enabled := b\<rparr>) \<or>
     k = ''target'' \<and> v' = v\<lparr>Target := val\<rparr> \<or>
     k = ''container_name'' \<and> v' = v\<lparr>ContainerName := val\<rparr> \<or>
     k = ''rcon_password'' \<and> v' = v\<lparr>RconPassword := val\<rparr> \<or>
     k = ''data_dir'' \<and> v' = v\<lparr>DataDir := val\<rparr> \<or>
     k = ''pause_if_no_players'' \<and> (\<exists>b. ParseBool val = Some b \<and> v' = v\<lparr>PauseIfNoPlayers := b\<rparr>) \<or>
     k = ''excludes'' \<and> v' = v\<lparr>ServerExcludes := parseExcludesValue val\<rparr>"
  by (simp add: setServerField_def split: if_splits option.splits)

lemma setGlobalField_Inr:
  "setGlobalField gl v k val = Inr v' \<Longrightarrow>
     k = ''listen_addr'' \<and> v' = v\<lparr>ListenAddr := val\<rparr> \<or>
     k = ''api_token'' \<and> v' = v\<lparr>APIToken := val\<rparr> \<or>
     k = ''max_mbps'' \<and> (\<exists>f. ParseFloat gl val = Some f \<and> \<not> bad_rate f \<and> v' = v\<lparr>MaxMBps := f\<rparr>) \<or>
     k = ''backup_interval'' \<and> (\<exists>d. ParseDuration gl val = Some d \<and> 0 < d \<and> v' = v\<lparr>BackupInterval := d\<rparr>) \<or>
     k = ''initial_delay'' \<and> (\<exists>d. ParseDuration gl val = Some d \<and> 0 \<le> d \<and> v' = v\<lparr>InitialDelay := d\<rparr>) \<or>
     k = ''transfer_delay'' \<and> (\<exists>d. ParseDuration gl val = Some d \<and> 0 \<le> d \<and> v' = v\<lparr>TransferDelay := d\<rparr>) \<or>
     k = ''excludes'' \<and> v' = v\<lparr>GlobalExcludes := parseExcludesValue val\<rparr>"
  by (simp add: setGlobalField_def not_less not_le split: if_splits option.splits)

lemmas setter_Inr =
  setLocalField_Inr setNASField_Inr setRetentionField_Inr setServerField_Inr setGlobalField_Inr

interpretation local_settings: settings setLocalField getLocalField "[''dest_root'', ''hot_root'']"
proof
  fix s v k val v' k' val'
  show "k \<notin> set [''dest_root'', ''hot_root''] \<Longrightarrow> \<not> is_ok (setLocalField s k val)"
    by (simp add: setLocalField_def)
  show "setLocalField s k val = Inr v' \<Longrightarrow> k' \<noteq> k \<Longrightarrow> getLocalField v' k' = getLocalField s k'"
    by (elim setLocalField_Inr [elim_format] disjE conjE) (simp_all add: getLocalField_def)
  show "setLocalField s k val = Inr v' \<Longrightarrow> setLocalField v' k val' = setLocalField s k val'"
    by (elim setLocalField_Inr [elim_format] disjE conjE) (simp_all add: setLocalField_def)
qed

interpretation nas_settings: settings setNASField getNASField
    "[''ssh_user'', ''ssh_host'', ''ssh_port'', ''ssh_key'', ''dest_root'']"
proof
  fix s k val v' k' val'
  show "k \<notin> set [''ssh_user'', ''ssh_host'', ''ssh_port'', ''ssh_key'', ''dest_root''] \<Longrightarrow> \<not> is_ok (setNASField s k val)"
    by (simp add: setNASField_def)
  show "setNASField s k val = Inr v' \<Longrightarrow> k' \<noteq> k \<Longrightarrow> getNASField v' k' = getNASField s k'"
    by (elim setNASField_Inr [elim_format] disjE conjE exE) (simp_all add: getNASField_def)
  show "setNASField s k val = Inr v' \<Longrightarrow> setNASField v' k val' = setNASField s k val'"
    by (elim setNASField_Inr [elim_format] disjE conjE exE) (simp_all add: setNASField_def split: option.split)
qed

interpretation retention_settings: settings setRetentionField getRetentionField
    "[''prune_days'', ''prune_count'', ''hot_prune_days'', ''hot_prune_count'']"
proof
  fix s k val v' k' val'
  show "k \<notin> set [''prune_days'', ''prune_count'', ''hot_prune_days'', ''hot_prune_count''] \<Longrightarrow> \<not> is_ok (setRetentionField s k val)"
    by (simp add: setRetentionField_def)
  show "setRetentionField s k val = Inr v' \<Longrightarrow> k' \<noteq> k \<Longrightarrow> getRetentionField v' k' = getRetentionField s k'"
    by (elim setRetentionField_Inr [elim_format] disjE conjE exE) (simp_all add: getRetentionField_def)
  show "setRetentionField s k val = Inr v' \<Longrightarrow> setRetentionField v' k val' = setRetentionField s k val'"
    by (elim setRetentionField_Inr [elim_format] disjE conjE exE) (simp_all add: setRetentionField_def nonneg_field_def split: option.split)
qed

interpretation server_settings: settings setServerField getServerFieldStr
    "serverFieldKeys"
proof
  fix s k val v' k' val'
  show "k \<notin> set serverFieldKeys \<Longrightarrow> \<not> is_ok (setServerField s k val)"
    by (simp add: setServerField_def serverFieldKeys_def)
  show "setServerField s k val = Inr v' \<Longrightarrow> k' \<noteq> k \<Longrightarrow> getServerFieldStr v' k' = getServerFieldStr s k'"
    by (elim setServerField_Inr [elim_format] disjE conjE exE) (simp_all add: getServerFieldStr_def)
  show "setServerField s k val = Inr v' \<Longrightarrow> setServerField v' k val' = setServerField s k val'"
    by (elim setServerField_Inr [elim_format] disjE conjE exE) (simp_all add: setServerField_def split: option.split)
qed

interpretation global_settings: settings "setGlobalField gl" "getGlobalField gl"
    "[''listen_addr'', ''api_token'', ''max_mbps'', ''backup_interval'', ''initial_delay'', ''transfer_delay'', ''excludes'']" for gl
proof
  fix s k val v' k' val'
  show "k \<notin> set [''listen_addr'', ''api_token'', ''max_mbps'', ''backup_interval'', ''initial_delay'', ''transfer_delay'', ''excludes''] \<Longrightarrow> \<not> is_ok (setGlobalField gl s k val)"
    by (simp add: setGlobalField_def)
  show "setGlobalField gl s k val = Inr v' \<Longrightarrow> k' \<noteq> k \<Longrightarrow> getGlobalField gl v' k' = getGlobalField gl s k'"
    by (elim setGlobalField_Inr [elim_format] disjE conjE exE) (simp_all add: getGlobalField_def)
  show "setGlobalField gl s k val = Inr v' \<Longrightarrow> setGlobalField gl v' k val' = setGlobalField gl s k val'"
    by (elim setGlobalField_Inr [elim_format] disjE conjE exE) (simp_all add: setGlobalField_def split: option.split)
qed

section \<open>Environment overrides as assignments\<close>

text \<open>The setting an environment entry names: its section, its key within the section,
  and the value.\<close>

definition env_assignment :: "string \<Rightarrow> (string \<times> string \<times> string) option" where
  "env_assignment e =
     (let kv = SplitN e (CHR ''='') 2; parts = Split (ToLower (kv ! 0)) (CHR ''_'')
      in if length kv \<noteq> 2 \<or> \<not> HasPrefix (kv ! 0) ''MC_BACKUP_'' then None
         else if drop 2 parts = [''transfer'', ''delay''] then Some (''global'', ''transfer_delay'', kv ! 1)
         else if length parts < 4 then None
         else Some (parts ! 2, Join (drop 3 parts) ''_'', kv ! 1))"

lemma length_4_drop_2:
  "length xs = 4 \<and> xs ! 2 = a \<and> xs ! 3 = b \<longleftrightarrow> drop 2 xs = [a, b]"
proof -
  have two: "ys = [a, b] \<longleftrightarrow> length ys = 2 \<and> ys ! 0 = a \<and> ys ! 1 = b" for ys
    by (cases ys; cases "tl ys") auto
  show ?thesis unfolding two by auto
qed

lemma apply_env_entry_assignment:
  "apply_env_entry gl e cfg =
     (case env_assignment e of
        None \<Rightarrow> cfg
      | Some (sec, key, val) \<Rightarrow>
          if sec = ''server'' then override_server cfg key val
          else override_section gl cfg sec key val)"
proof -
  have len: "length (Split s c) \<ge> 1" for s c
    by (simp add: Split_def Suc_le_eq)
  show ?thesis
    unfolding apply_env_entry_def env_assignment_def Let_def length_4_drop_2 [symmetric]
    by (simp add: override_section_def)
qed

definition section_writes :: "string \<Rightarrow> string list \<Rightarrow> (string \<times> string) list" where
  "section_writes sec env =
     List.map_filter (\<lambda>e. case env_assignment e of
         Some (s, k, v) \<Rightarrow> if s = sec then Some (k, v) else None
       | None \<Rightarrow> None) env"

definition server_writes :: "string \<Rightarrow> string list \<Rightarrow> (string \<times> string) list" where
  "server_writes n env =
     List.map_filter (\<lambda>(k, v). case parseServerEnvKey k of
         Some (n', f) \<Rightarrow> if n' = n then Some (f, v) else None
       | None \<Rightarrow> None) (section_writes ''server'' env)"

lemma map_filter_Cons:
  "List.map_filter f (x # xs) = (case f x of None \<Rightarrow> List.map_filter f xs | Some y \<Rightarrow> y # List.map_filter f xs)"
  by (simp add: map_filter_simps)

lemma map_filter_Nil: "List.map_filter f [] = []"
  by (simp add: map_filter_simps)

lemmas writes_simps =
  section_writes_def server_writes_def map_filter_Cons map_filter_Nil

lemma apply_env_Nil [simp]: "applyEnvOverrides gl [] cfg = cfg"
  and apply_env_Cons [simp]:
    "applyEnvOverrides gl (e # env) cfg = applyEnvOverrides gl env (apply_env_entry gl e cfg)"
  by (simp_all add: applyEnvOverrides_def)

lemma override_server_sections [simp]:
  "Global (override_server cfg k v) = Global cfg"
  "NAS (override_server cfg k v) = NAS cfg"
  "Local (override_server cfg k v) = Local cfg"
  "Retention (override_server cfg k v) = Retention cfg"
  "Watch (override_server cfg k v) = Watch cfg"
  by (simp_all add: override_server_def split: option.split sum.split)

lemma override_section_sections [simp]:
  "Global (override_section gl cfg sec k v) =
     (if sec = ''global'' then or_keep (Global cfg) (setGlobalField gl (Global cfg) k v) else Global cfg)"
  "NAS (override_section gl cfg sec k v) =
     (if sec = ''nas'' then or_keep (NAS cfg) (setNASField (NAS cfg) k v) else NAS cfg)"
  "Local (override_section gl cfg sec k v) =
     (if sec = ''local'' then or_keep (Local cfg) (setLocalField (Local cfg) k v) else Local cfg)"
  "Retention (override_section gl cfg sec k v) =
     (if sec = ''retention'' then or_keep (Retention cfg) (setRetentionField (Retention cfg) k v) else Retention cfg)"
  "Watch (override_section gl cfg sec k v) = Watch cfg"
  "Servers (override_section gl cfg sec k v) = Servers cfg"
  by (simp_all add: override_section_def)

lemma apply_env_Global:
  "Global (applyEnvOverrides gl env cfg) = set_all (setGlobalField gl) (section_writes ''global'' env) (Global cfg)"
  by (induction env arbitrary: cfg)
    (simp_all add: apply_env_entry_assignment writes_simps split: option.split prod.split)

lemma apply_env_NAS:
  "NAS (applyEnvOverrides gl env cfg) = set_all setNASField (section_writes ''nas'' env) (NAS cfg)"
  by (induction env arbitrary: cfg)
    (simp_all add: apply_env_entry_assignment writes_simps split: option.split prod.split)

lemma apply_env_Local:
  "Local (applyEnvOverrides gl env cfg) = set_all setLocalField (section_writes ''local'' env) (Local cfg)"
  by (induction env arbitrary: cfg)
    (simp_all add: apply_env_entry_assignment writes_simps split: option.split prod.split)

lemma apply_env_Retention:
  "Retention (applyEnvOverrides gl env cfg)
     = set_all setRetentionField (section_writes ''retention'' env) (Retention cfg)"
  by (induction env arbitrary: cfg)
    (simp_all add: apply_env_entry_assignment writes_simps split: option.split prod.split)

lemma apply_env_Watch: "Watch (applyEnvOverrides gl env cfg) = Watch cfg"
  by (induction env arbitrary: cfg)
    (simp_all add: apply_env_entry_assignment split: option.split prod.split)

lemma override_server_Servers:
  "map_of (Servers (override_server cfg k v)) n =
     (case parseServerEnvKey k of
        Some (n', f) \<Rightarrow> if n' = n then map_option (\<lambda>s. or_keep s (setServerField s f v)) (map_of (Servers cfg) n)
                       else map_of (Servers cfg) n
      | None \<Rightarrow> map_of (Servers cfg) n)"
  by (auto simp: override_server_def or_keep_def split: option.split sum.split)

lemma apply_env_Servers:
  "map_of (Servers (applyEnvOverrides gl env cfg)) n
     = map_option (set_all setServerField (server_writes n env)) (map_of (Servers cfg) n)"
proof (induction env arbitrary: cfg)
  case Nil
  show ?case by (simp add: writes_simps option.map_ident)
next
  case (Cons e env)
  show ?case
  proof (cases "env_assignment e")
    case None
    then show ?thesis using Cons.IH by (simp add: apply_env_entry_assignment writes_simps)
  next
    case (Some a)
    obtain sec k v where a: "a = (sec, k, v)" by (cases a)
    show ?thesis
    proof (cases "sec = ''server''")
      case False
      then show ?thesis using Cons.IH Some a by (simp add: apply_env_entry_assignment writes_simps)
    next
      case True
      then have step: "apply_env_entry gl e cfg = override_server cfg k v"
        and sw: "section_writes ''server'' (e # env) = (k, v) # section_writes ''server'' env"
        using Some a by (simp_all add: apply_env_entry_assignment section_writes_def map_filter_Cons)
      show ?thesis
        unfolding apply_env_Cons step Cons.IH override_server_Servers server_writes_def sw
        by (cases "map_of (Servers cfg) n") (auto simp: map_filter_Cons split: option.split)
    qed
  qed
qed

lemma HasSuffix_append_cases:
  assumes "HasSuffix (x @ b) a"
  shows "HasSuffix b a \<or> HasSuffix a b"
proof -
  obtain y where "x @ b = y @ a" using assms by (auto simp: HasSuffix_iff)
  then show ?thesis unfolding HasSuffix_iff by (auto simp: append_eq_append_conv2)
qed

lemma serverFieldKeys_no_suffix:
  "f \<in> set serverFieldKeys \<Longrightarrow> g \<in> set serverFieldKeys \<Longrightarrow> f \<noteq> g \<Longrightarrow>
     \<not> HasSuffix (CHR ''_'' # f) (CHR ''_'' # g)"
proof -
  have "list_all (\<lambda>f. list_all (\<lambda>g. f = g \<or> \<not> HasSuffix (CHR ''_'' # f) (CHR ''_'' # g)) serverFieldKeys)
      serverFieldKeys"
    by code_simp
  then show "f \<in> set serverFieldKeys \<Longrightarrow> g \<in> set serverFieldKeys \<Longrightarrow> f \<noteq> g \<Longrightarrow>
     \<not> HasSuffix (CHR ''_'' # f) (CHR ''_'' # g)"
    by (auto simp: list_all_iff)
qed

lemma match_field_append:
  assumes "name \<noteq> []" and "f \<in> set gs" and "set gs \<subseteq> set serverFieldKeys"
  shows "match_field (name @ CHR ''_'' # f) gs = Some (name, f)"
  using assms
proof (induction gs)
  case Nil
  then show ?case by simp
next
  case (Cons g gs)
  show ?case
  proof (cases "g = f")
    case True
    with Cons.prems show ?thesis by simp
  next
    case False
    then have "\<not> HasSuffix (name @ CHR ''_'' # f) (CHR ''_'' # g)"
      using HasSuffix_append_cases [of name "CHR ''_'' # f" "CHR ''_'' # g"]
        serverFieldKeys_no_suffix [of f g] serverFieldKeys_no_suffix [of g f] Cons.prems
      by auto
    with False Cons show ?thesis by simp
  qed
qed

lemma match_field_Some:
  "match_field rest gs = Some (name, f) \<Longrightarrow> name \<noteq> [] \<and> f \<in> set gs \<and> rest = name @ CHR ''_'' # f"
  by (induction gs) (auto simp: Let_def HasSuffix_iff split: if_splits)

definition global_in_range :: "GlobalConfig \<Rightarrow> bool" where
  "global_in_range g \<longleftrightarrow> \<not> bad_rate (MaxMBps g) \<and> 0 < BackupInterval g \<and>
     0 \<le> InitialDelay g \<and> 0 \<le> TransferDelay g"

definition nas_in_range :: "NASConfig \<Rightarrow> bool" where
  "nas_in_range n \<longleftrightarrow> 0 < SSHPort n \<and> SSHPort n \<le> 65535"

definition retention_in_range :: "RetentionConfig \<Rightarrow> bool" where
  "retention_in_range r \<longleftrightarrow> 0 \<le> PruneDays r \<and> 0 \<le> PruneCount r \<and>
     0 \<le> HotPruneDays r \<and> 0 \<le> HotPruneCount r"

definition settings_in_range :: "Config \<Rightarrow> bool" where
  "settings_in_range cfg \<longleftrightarrow> global_in_range (Global cfg) \<and> nas_in_range (NAS cfg) \<and>
     retention_in_range (Retention cfg)"

lemmas in_range_defs =
  settings_in_range_def global_in_range_def nas_in_range_def retention_in_range_def

lemma set_all_inv:
  "(\<And>s k v s'. f s k v = Inr s' \<Longrightarrow> P s \<Longrightarrow> P s') \<Longrightarrow> P s \<Longrightarrow> P (set_all f kvs s)"
proof (induction kvs arbitrary: s)
  case Nil
  then show ?case by simp
next
  case (Cons kv kvs)
  obtain k v where kv: "kv = (k, v)" by (cases kv)
  have "P (or_keep s (f s k v))" using Cons.prems by (auto simp: or_keep_def split: sum.split)
  with Cons kv show ?case by simp
qed

lemma setGlobalField_range:
  "setGlobalField gl v k val = Inr v' \<Longrightarrow> global_in_range v \<Longrightarrow> global_in_range v'"
  by (elim setGlobalField_Inr [elim_format] disjE conjE exE) (simp_all add: global_in_range_def)

lemma setRetentionField_range:
  "setRetentionField v k val = Inr v' \<Longrightarrow> retention_in_range v \<Longrightarrow> retention_in_range v'"
  by (elim setRetentionField_Inr [elim_format] disjE conjE exE) (simp_all add: retention_in_range_def)

lemma setNASField_range:
  "setNASField v k val = Inr v' \<Longrightarrow> nas_in_range v \<Longrightarrow> nas_in_range v'"
  by (elim setNASField_Inr [elim_format] disjE conjE exE) (simp_all add: nas_in_range_def)

lemma parseServerEnvKey_spec:
  "parseServerEnvKey rest = Some (name, f) \<longleftrightarrow>
     name \<noteq> [] \<and> f \<in> set serverFieldKeys \<and> rest = name @ CHR ''_'' # f"
  unfolding parseServerEnvKey_def
  using match_field_append [of name f serverFieldKeys] match_field_Some [of rest serverFieldKeys name f]
  by auto

section \<open>Properties\<close>

text \<open>C17: splitting \<open>MC_BACKUP_SERVER_<NAME>_<FIELD>\<close> into server name and field is unambiguous:
  a string is read as the pair \<open>(name, field)\<close> exactly if it is the non-empty name, an underscore
  and one of the known fields, however many underscores the name itself has.\<close>

theorem parseServerEnvKey_iff:
  "parseServerEnvKey rest = Some (name, f) \<longleftrightarrow>
     name \<noteq> [] \<and> f \<in> set serverFieldKeys \<and> rest = name @ CHR ''_'' # f"
  by (rule parseServerEnvKey_spec)

text \<open>C14: the environment acts as a list of assignments, applied in order, each touching one
  setting of one section: the sections after \<open>applyEnvOverrides\<close> are the old ones with the
  decoded assignments of that section written one by one (a refused value leaving the setting
  as it was), a server gets exactly the assignments that name it, no server is added or
  removed, and the watch list is untouched.\<close>

theorem applyEnvOverrides_refines:
  "Global (applyEnvOverrides gl env cfg) = set_all (setGlobalField gl) (section_writes ''global'' env) (Global cfg)
   \<and> NAS (applyEnvOverrides gl env cfg) = set_all setNASField (section_writes ''nas'' env) (NAS cfg)
   \<and> Local (applyEnvOverrides gl env cfg) = set_all setLocalField (section_writes ''local'' env) (Local cfg)
   \<and> Retention (applyEnvOverrides gl env cfg)
       = set_all setRetentionField (section_writes ''retention'' env) (Retention cfg)
   \<and> (\<lambda>n. map_of (Servers (applyEnvOverrides gl env cfg)) n)
       = (\<lambda>n. map_option (set_all setServerField (server_writes n env)) (map_of (Servers cfg) n))
   \<and> Watch (applyEnvOverrides gl env cfg) = Watch cfg"
  by (simp add: apply_env_Global apply_env_NAS apply_env_Local apply_env_Retention
      apply_env_Servers apply_env_Watch)

text \<open>C15: no environment can push a numeric setting out of its range: if the rate, the interval and
  the delays, the SSH port and the retention numbers are in range before the overrides, they are
  in range after them, whatever the variables say.\<close>

theorem env_keeps_range:
  assumes "settings_in_range cfg"
  shows "settings_in_range (applyEnvOverrides gl env cfg)"
  using assms unfolding settings_in_range_def apply_env_Global apply_env_NAS apply_env_Retention
  by (intro conjI set_all_inv [where P = global_in_range] set_all_inv [where P = nas_in_range]
      set_all_inv [where P = retention_in_range])
    (auto intro: setGlobalField_range setNASField_range setRetentionField_range)

theorem env_keeps_range_witness:
  "settings_in_range DefaultConfig \<and>
   settings_in_range (applyEnvOverrides small_golib [''MC_BACKUP_NAS_SSH_PORT=70000'', ''HOME=/root''] DefaultConfig)"
proof -
  have h: "settings_in_range DefaultConfig"
    by (simp add: in_range_defs DefaultConfig_def bad_rate_def nanos_per_hour_def
        nanos_per_minute_def)
  show ?thesis using h env_keeps_range [OF h] by blast
qed



definition excludes_wf :: "string list option \<Rightarrow> bool" where
  "excludes_wf ex =
     (case ex of None \<Rightarrow> True
      | Some es \<Rightarrow> list_all (\<lambda>e. e \<noteq> [] \<and> TrimSpace e = e \<and> CHR '','' \<notin> set e) es \<and>
          (case es of [e] \<Rightarrow> \<not> EqualFold e ''inherit'' \<and> \<not> EqualFold e ''default'' \<and> \<not> EqualFold e ''none''
           | _ \<Rightarrow> True))"

lemma comma_ToLower [simp]: "CHR '','' \<in> set (ToLower s) \<longleftrightarrow> CHR '','' \<in> set s"
proof -
  have "lower_char c = CHR '','' \<longleftrightarrow> c = CHR '',''" for c
  proof (cases "65 \<le> (of_char c :: nat) \<and> (of_char c :: nat) \<le> 90")
    case True
    then have "(of_char (lower_char c) :: nat) = of_char c + 32" by (simp add: lower_char_def)
    moreover have comma: "(of_char (CHR '','') :: nat) = 44" by simp
    ultimately have "(of_char (lower_char c) :: nat) \<noteq> of_char (CHR '','')"
      and "(of_char c :: nat) \<noteq> of_char (CHR '','')"
      using True by linarith+
    moreover have ne: "(of_char a :: nat) \<noteq> of_char b \<Longrightarrow> a \<noteq> b" for a b by blast
    ultimately show ?thesis using ne by blast
  next
    case False
    then have "lower_char c = c" unfolding lower_char_def by argo
    then show ?thesis by simp
  qed
  then show ?thesis unfolding ToLower_def set_map image_iff by metis
qed

lemma comma_not_EqualFold: "CHR '','' \<in> set s \<Longrightarrow> CHR '','' \<notin> set t \<Longrightarrow> \<not> EqualFold s t"
  unfolding EqualFold_def by (metis comma_ToLower)

lemma hd_Join: "xs \<noteq> [] \<Longrightarrow> hd xs \<noteq> [] \<Longrightarrow> hd (Join xs sep) = hd (hd xs)"
  by (cases xs rule: list.exhaust; cases "tl xs") auto

lemma Join_snoc: "xs \<noteq> [] \<Longrightarrow> Join (xs @ [z]) sep = Join xs sep @ sep @ z"
proof (induction xs)
  case Nil
  then show ?case by simp
next
  case (Cons x xs)
  then show ?case by (cases "xs = []") (simp_all add: Join_Cons)
qed

lemma last_Join: "xs \<noteq> [] \<Longrightarrow> last xs \<noteq> [] \<Longrightarrow> last (Join xs sep) = last (last xs)"
proof (cases xs rule: rev_cases)
  case (snoc ys z)
  assume "last xs \<noteq> []"
  with snoc show ?thesis by (cases "ys = []") (simp_all add: Join_snoc)
qed simp

lemma TrimSpace_fixed: "TrimSpace e = e \<Longrightarrow> e \<noteq> [] \<Longrightarrow> \<not> is_space (hd e) \<and> \<not> is_space (last e)"
  using hd_TrimSpace [of e] last_TrimSpace [of e] by simp

text \<open>C18: an exclude list survives being printed by \<open>config get\<close> and written back by
  \<open>config set\<close>: the unset list, the empty list, and every list of trimmed patterns without
  commas come back unchanged, except the singletons that spell a reserved word.\<close>

theorem excludes_roundtrip:
  assumes "excludes_wf ex" and "unset = ''inherit'' \<or> unset = ''default''"
  shows "parseExcludesValue (show_excludes unset ex) = ex"
proof (cases ex)
  case None
  have "TrimSpace unset = unset" using assms(2) by (auto simp: TrimSpace_id is_space_def)
  with assms(2) None show ?thesis
    by (auto simp: parseExcludesValue_def show_excludes_def)
next
  case (Some es)
  show ?thesis
  proof (cases "es = []")
    case True
    have "TrimSpace ''none'' = ''none''" by (simp add: TrimSpace_id is_space_def)
    moreover have "\<not> EqualFold ''none'' ''inherit''" "\<not> EqualFold ''none'' ''default''" by code_simp+
    ultimately show ?thesis using True Some by (simp add: parseExcludesValue_def show_excludes_def)
  next
    case False
    let ?j = "Join es '',''"
    have wf: "e \<noteq> []" "TrimSpace e = e" "CHR '','' \<notin> set e" if "e \<in> set es" for e
      using assms(1) Some that by (auto simp: excludes_wf_def list_all_iff)
    have ends: "hd es \<in> set es" "last es \<in> set es" using False by auto
    have ne: "?j \<noteq> []" using False wf [OF ends(1)] by (cases es; cases "tl es") auto
    have trim: "TrimSpace ?j = ?j"
      using TrimSpace_fixed [OF wf(2) [OF ends(1)] wf(1) [OF ends(1)]]
        TrimSpace_fixed [OF wf(2) [OF ends(2)] wf(1) [OF ends(2)]]
        hd_Join [OF False wf(1) [OF ends(1)]] last_Join [OF False wf(1) [OF ends(2)]]
      by (intro TrimSpace_id) simp
    have reserved: "\<not> EqualFold ?j ''inherit'' \<and> \<not> EqualFold ?j ''default'' \<and> \<not> EqualFold ?j ''none''"
    proof (cases "tl es = []")
      case True
      then obtain e where "es = [e]" using False by (cases es) auto
      then show ?thesis using assms(1) Some by (simp add: excludes_wf_def)
    next
      case tl: False
      then have "CHR '','' \<in> set ?j" using False by (cases es; cases "tl es") auto
      then show ?thesis by (intro conjI comma_not_EqualFold) simp_all
    qed
    have "Split ?j (CHR '','') = es" using False wf(3) by (intro Split_Join)
    moreover have "List.map TrimSpace es = es" using wf(2) by (simp add: map_idI)
    moreover have "filter (\<lambda>p. p \<noteq> []) es = es" using wf(1) by (auto simp: filter_id_conv)
    ultimately show ?thesis
      using Some False reserved ne unfolding parseExcludesValue_def show_excludes_def Let_def
      by (simp add: trim del: TrimSpace_eq_Nil)
  qed
qed

theorem excludes_roundtrip_witness:
  "excludes_wf (Some [''*.jar'', ''distant horizons'']) \<and>
   parseExcludesValue (show_excludes ''inherit'' (Some [''*.jar'', ''distant horizons'']))
     = Some [''*.jar'', ''distant horizons'']"
proof -
  have h: "excludes_wf (Some [''*.jar'', ''distant horizons''])"
    by (simp add: excludes_wf_def TrimSpace_id is_space_def del: TrimSpace_eq_Nil)
  show ?thesis using h excludes_roundtrip [OF h, of "''inherit''"] by simp
qed

end
