(* ===== verification/Config_Load.thy ===== *)
theory Config_Load
  imports Config_Save_Laws Config_Fields
begin

text \<open>
  Reading the configuration (\<open>config.go\<close>): the auto file and the main file on top of the
  defaults, the environment on top of both, \<open>Validate\<close> last; the live reload by
  \<open>watchConfig\<close>; and \<open>SetConfigValue\<close>, which reads, changes one setting, validates and
  saves.
\<close>

section \<open>Definitions\<close>

text \<open>One entry of the loop that lowers the names of the servers.\<close>

definition normalize_server :: "string list \<Rightarrow> string \<times> ServerConfig \<Rightarrow> string \<times> ServerConfig" where
  "normalize_server autoNames kv = (case kv of (k, v) \<Rightarrow>
     (let lowerK = ToLower k
      in (lowerK,
          if lowerK \<in> set autoNames
          then v\<lparr>Target := if Target v = [] then ''nas'' else Target v,
                 ContainerName := if ContainerName v = [] then fallbackContainerName lowerK else ContainerName v\<rparr>
          else v)))"

definition normalize_config :: "string list \<Rightarrow> Config \<Rightarrow> Config" where
  "normalize_config autoNames cfg =
     cfg\<lparr>Servers := fold (\<lambda>kv m. case normalize_server autoNames kv of (k, s) \<Rightarrow> AList.update k s m) (Servers cfg) [],
         Local := (Local cfg)\<lparr>LocalDestRoot := normalizeDestRoot (LocalDestRoot (Local cfg)),
                              HotRoot := normalizeDestRoot (HotRoot (Local cfg))\<rparr>,
         NAS := (NAS cfg)\<lparr>NASDestRoot := normalizeDestRoot (NASDestRoot (NAS cfg))\<rparr>\<rparr>"

definition loadConfigFile :: "tomllib \<Rightarrow> string \<Rightarrow> world \<Rightarrow> Config result \<times> world" where
  "loadConfigFile toml path w =
     (let (r, w) = DecodeFile (\<lambda>text. TomlDecode toml text DefaultConfig) (TrimSuffix path ''.toml'' @ ''-auto.toml'') w
      in case (case r of Inr cfg \<Rightarrow> Inr cfg
               | Inl e \<Rightarrow> if IsNotExist e then Inr DefaultConfig else Inl (Wrapf ''parse %s'' e)) of
           Inl e \<Rightarrow> (Inl e, w)
         | Inr cfg \<Rightarrow>
             (case DecodeFile (\<lambda>text. TomlDecode toml text cfg) path w of
                (Inl e, w) \<Rightarrow> (Inl (Wrapf ''parse %s'' e), w)
              | (Inr cfg, w) \<Rightarrow>
                  (let (autoNames, w) = loadAutoServerNames toml path w
                   in (Inr (normalize_config autoNames cfg), w))))"

definition LoadConfig :: "golib \<Rightarrow> tomllib \<Rightarrow> string \<Rightarrow> world \<Rightarrow> Config result \<times> world" where
  "LoadConfig gl toml path w =
     (case loadConfigFile toml path w of
        (Inl e, w) \<Rightarrow> (Inl e, w)
      | (Inr cfg, w) \<Rightarrow>
          (let cfg = applyEnvOverrides gl (env_vars (w_env w)) cfg
           in case Validate gl cfg of Inl e \<Rightarrow> (Inl e, w) | Inr _ \<Rightarrow> (Inr cfg, w)))"

text \<open>One assignment \<open>section.key = val\<close> of \<open>SetConfigValue\<close>.\<close>

definition assign_value :: "golib \<Rightarrow> string \<Rightarrow> string \<Rightarrow> Config \<Rightarrow> Config result" where
  "assign_value gl key val cfg =
     (let parts = Split key (CHR ''.'')
      in if length parts < 2 then Inl (Errorf ''invalid key: %s'' [key])
         else if parts ! 0 = ''global'' then
           (case setGlobalField gl (Global cfg) (parts ! 1) val of Inl e \<Rightarrow> Inl e | Inr g \<Rightarrow> Inr (cfg\<lparr>Global := g\<rparr>))
         else if parts ! 0 = ''nas'' then
           (case setNASField (NAS cfg) (parts ! 1) val of Inl e \<Rightarrow> Inl e | Inr n \<Rightarrow> Inr (cfg\<lparr>NAS := n\<rparr>))
         else if parts ! 0 = ''local'' then
           (case setLocalField (Local cfg) (parts ! 1) val of Inl e \<Rightarrow> Inl e | Inr l \<Rightarrow> Inr (cfg\<lparr>Local := l\<rparr>))
         else if parts ! 0 = ''retention'' then
           (case setRetentionField (Retention cfg) (parts ! 1) val of Inl e \<Rightarrow> Inl e | Inr r \<Rightarrow> Inr (cfg\<lparr>Retention := r\<rparr>))
         else if parts ! 0 = ''server'' then
           (if length parts < 3 then Inl (Errorf ''server key requires <name>.<field>'' [])
            else (let serverName = ToLower (parts ! 1);
                      s = (case map_of (Servers cfg) serverName of Some s \<Rightarrow> s | None \<Rightarrow> zero_ServerConfig)
                  in case setServerField s (parts ! 2) val of
                       Inl e \<Rightarrow> Inl e
                     | Inr s \<Rightarrow> Inr (cfg\<lparr>Servers := AList.update serverName s (Servers cfg)\<rparr>)))
         else Inl (Errorf ''unknown section: %s'' [parts ! 0]))"

definition SetConfigValue :: "golib \<Rightarrow> tomllib \<Rightarrow> string \<Rightarrow> string \<Rightarrow> string \<Rightarrow> world \<Rightarrow> unit result \<times> world" where
  "SetConfigValue gl toml path key val w =
     (case loadConfigFile toml path w of
        (Inl e, w) \<Rightarrow> (Inl e, w)
      | (Inr cfg, w) \<Rightarrow>
          (case assign_value gl key val cfg of
             Inl e \<Rightarrow> (Inl e, w)
           | Inr cfg \<Rightarrow>
               (case Validate gl cfg of
                  Inl e \<Rightarrow> (Inl (Wrapf ''invalid config update'' e), w)
                | Inr _ \<Rightarrow> saveSplit toml path cfg w)))"

text \<open>An event of the file watcher (\<open>fsnotify\<close>): the name of the file and whether the operation
  is one of write, create and rename. The state is what \<open>atomicConfig\<close> holds.\<close>

record watch_event =
  EventName :: string
  Changed :: bool

definition handle_event :: "golib \<Rightarrow> tomllib \<Rightarrow> string \<Rightarrow> watch_event \<Rightarrow> Config \<times> world \<Rightarrow> Config \<times> world" where
  "handle_event gl toml path ev st = (case st of (cfg, w) \<Rightarrow>
     (let name = Base (EventName ev)
      in if name \<noteq> Base path \<and> name \<noteq> Base (autoServersPath path) then (cfg, w)
         else if \<not> Changed ev then (cfg, w)
         else (case LoadConfig gl toml path w of
                 (Inl e, w) \<Rightarrow> (cfg, w)
               | (Inr new, w) \<Rightarrow> (new, w))))"

text \<open>The life of the running configuration: events of the watcher, and anything else that happens
  to the files.\<close>

inductive watch_step :: "golib \<Rightarrow> tomllib \<Rightarrow> string \<Rightarrow> Config \<times> world \<Rightarrow> Config \<times> world \<Rightarrow> bool"
  for gl toml path where
  event: "watch_step gl toml path st (handle_event gl toml path ev st)"
| outside: "watch_step gl toml path (cfg, w) (cfg, w')"

inductive_cases watch_stepE: "watch_step gl toml path st st'"

section \<open>Names and validity\<close>

definition lower_names :: "(string \<times> ServerConfig) list \<Rightarrow> bool" where
  "lower_names m \<longleftrightarrow> (\<forall>name. map_of m name \<noteq> None \<longrightarrow> ToLower name = name)"

lemma normalize_config_names: "lower_names (Servers (normalize_config autoNames cfg))"
proof -
  have "lower_names (fold (\<lambda>kv m. case normalize_server autoNames kv of (k, s) \<Rightarrow> AList.update k s m) xs m)"
    if "lower_names m" for xs m
    using that
  proof (induction xs arbitrary: m)
    case (Cons x xs)
    obtain k v where "x = (k, v)" by (cases x)
    then have "lower_names (case normalize_server autoNames x of (k, s) \<Rightarrow> AList.update k s m)"
      using Cons.prems by (auto simp: normalize_server_def lower_names_def Let_def)
    from Cons.IH [OF this] show ?case by simp
  qed simp
  from this [of "[]" "Servers cfg"] show ?thesis by (simp add: normalize_config_def) (simp add: lower_names_def)
qed

lemma loadConfigFile_names: "loadConfigFile toml path w = (Inr cfg, w') \<Longrightarrow> lower_names (Servers cfg)"
  using normalize_config_names
  by (auto simp: loadConfigFile_def Let_def split: sum.splits prod.splits if_splits)

lemma applyEnv_names: "lower_names (Servers cfg) \<Longrightarrow> lower_names (Servers (applyEnvOverrides gl env cfg))"
  by (auto simp: lower_names_def apply_env_Servers)

lemma LoadConfig_Inr:
  "LoadConfig gl toml path w = (Inr cfg, w') \<Longrightarrow>
     (\<exists>file. loadConfigFile toml path w = (Inr file, w') \<and> cfg = applyEnvOverrides gl (env_vars (w_env w')) file) \<and>
     Validate gl cfg = Inr ()"
  by (auto simp: LoadConfig_def Let_def split: sum.splits prod.splits)

section \<open>Properties\<close>

text \<open>C32: Every name of a server in a loaded configuration is in lower case, so an entry for a
  directory whose name has an upper-case letter is never found: whatever the file says about it,
  discovery reports such a server as new, disabled, in every scan.\<close>

theorem upper_case_never_configured:
  assumes "LoadConfig gl toml path w = (Inr cfg, w1)" and "discoverServers ws (Servers cfg) v = Some ((rs, ns), v')"
    and "no_faults v" and "inert_commands (w_env v)" and "(wt, name, server) \<in> set rs" and "ToLower name \<noteq> name"
  shows "map_of (Servers cfg) name = None \<and> \<not> Enabled server \<and> (name, server) \<in> set ns"
proof -
  have "lower_names (Servers cfg)"
    using LoadConfig_Inr [OF assms(1)] loadConfigFile_names applyEnv_names by blast
  then have none: "map_of (Servers cfg) name = None" using assms(6) unfolding lower_names_def by blast
  obtain u where "discoverServersWithWarning (\<lambda>s _ _ w. (s, w)) ws (Servers cfg) () v = Some ((rs, ns), u, v')"
    using assms(2) by (auto simp: discoverServers_def)
  from discover_scanned [OF this _ assms(4)] have "found_ok (Servers cfg) ns (wt, name, server)"
    using assms(5) by (auto simp: scanned_def list_all_iff inert_warn_def)
  with none show ?thesis by (simp add: found_ok_def)
qed

lemma small_load_at:
  assumes "w_fs w = conf_fs" and "w_env w = quiet_env"
  shows "LoadConfig small_golib small_toml ''/etc/c.toml'' w = (Inr DefaultConfig, tick (tick (tick w)))"
proof -
  have t: "TrimSuffix ''/etc/c.toml'' ''.toml'' = ''/etc/c''" by (simp add: TrimSuffix_def HasSuffix_def)
  have f: "\<not> faulty w" "\<not> faulty (tick w)" "\<not> faulty (tick (tick w))"
    using assms(2) by (simp_all add: faulty_def quiet_env_def)
  have "normalize_config [] DefaultConfig = DefaultConfig"
    by (simp add: normalize_config_def DefaultConfig_def normalizeDestRoot_def TrimRightBy_def)
  moreover have "LoopbackIP small_golib ''127.0.0.1''" by (simp add: small_golib_def)
  ultimately show ?thesis
    using f DefaultConfig_valid assms
    by (simp add: LoadConfig_def loadConfigFile_def loadAutoServerNames_def DecodeFile_def autoServersPath_def t os_ReadFile_def
        conf_fs_def IsNotExist_def small_toml_def quiet_env_def)
qed

lemmas small_load = small_load_at [of "quiet_world conf_fs", simplified]

definition upper_fs :: fs where
  "upper_fs = [(''/m'', DirNode), (''/m/S'', DirNode)]"

theorem upper_case_never_configured_witness:
  "case discoverServers [srv_watch] (Servers DefaultConfig) (quiet_world upper_fs) of
     Some (([(wt, name, server)], ns), _) \<Rightarrow> name = ''S'' \<and> map_of (Servers DefaultConfig) name = None \<and> \<not> Enabled server \<and> (name, server) \<in> set ns
   | _ \<Rightarrow> False"
proof -
  have ok: "silent_output (w_env (quiet_world upper_fs))" by (simp add: silent_output_def inert_commands_def quiet_env_def)
  then obtain rs ns v where run: "discoverServers [srv_watch] (Servers DefaultConfig) (quiet_world upper_fs) = Some ((rs, ns), v)"
    using discoverServers_returns [OF ok, of "[srv_watch]" "Servers DefaultConfig"] by auto
  obtain u where "discoverServersWithWarning (\<lambda>s _ _ w. (s, w)) [srv_watch] (Servers DefaultConfig) () (quiet_world upper_fs) = Some ((rs, ns), u, v)"
    using run by (auto simp: discoverServers_def)
  from discover_scanned [OF this] ok have keys: "found_keys rs = servers_in upper_fs (Servers DefaultConfig) [srv_watch]"
    by (simp add: inert_warn_def silent_output_def)
  have "servers_in upper_fs (Servers DefaultConfig) [srv_watch] = [(srv_watch, ''S'')]" by code_simp
  with keys obtain server where rs: "rs = [(srv_watch, ''S'', server)]"
    by (auto simp: found_keys_def)
  have "ToLower ''S'' \<noteq> ''S''" by code_simp
  from upper_case_never_configured [OF small_load run _ _ _ this, of srv_watch server] ok
  show ?thesis by (simp add: run rs silent_output_def)
qed


definition reload_event :: watch_event where
  "reload_event = \<lparr>EventName = ''/etc/c.toml'', Changed = True\<rparr>"


end
