(* ===== verification/Last_Backup.thy ===== *)
theory Last_Backup
  imports File_Replace
begin

text \<open>
  The file \<open>.last-backup\<close> beside the configuration (\<open>config.go\<close>): one line per server with
  the time of its last snapshot and the paths of its newest local, NAS and hot snapshots. It
  is rewritten as a whole by way of a temporary file.
\<close>

section \<open>Definitions\<close>

record lastSnapshotEntry =
  Time :: int
  EntryLocal :: string
  EntryNAS :: string
  EntryHot :: string

definition zero_time :: int where
  "zero_time = - 62135596800 * nanos_per_second"

text \<open>The zero value of the struct, what a missing key of the Go map yields.\<close>

definition zero_entry :: lastSnapshotEntry where
  "zero_entry = \<lparr>Time = zero_time, EntryLocal = [], EntryNAS = [], EntryHot = []\<rparr>"

definition lastBackupPath :: "string \<Rightarrow> string" where
  "lastBackupPath cfgPath = path_join [Dir_of cfgPath, ''.last-backup'']"

definition part_or_empty :: "string list \<Rightarrow> nat \<Rightarrow> string" where
  "part_or_empty parts i = (if i < length parts then parts ! i else [])"

text \<open>One line of the file; \<open>time.Unix(ts, 0)\<close> in nanoseconds.\<close>

definition read_line :: "string \<Rightarrow> (string \<times> lastSnapshotEntry) option" where
  "read_line l =
     (let line = TrimSpace l
      in if line = [] then None
         else (let parts = SplitN line (CHR ''='') 5
               in if length parts < 2 then None
                  else (case ParseInt (parts ! 1) of
                          None \<Rightarrow> None
                        | Some ts \<Rightarrow> Some (parts ! 0, \<lparr>Time = ts * nanos_per_second,
                            EntryLocal = part_or_empty parts 2, EntryNAS = part_or_empty parts 3,
                            EntryHot = part_or_empty parts 4\<rparr>))))"

definition parse_last :: "string \<Rightarrow> (string \<times> lastSnapshotEntry) list" where
  "parse_last content =
     fold (\<lambda>(k, v). AList.update k v) (List.map_filter read_line (Split content (CHR 0x0A))) []"

definition readLastSnapshots :: "string \<Rightarrow> world \<Rightarrow> (string \<times> lastSnapshotEntry) list \<times> world" where
  "readLastSnapshots cfgPath w =
     (case os_ReadFile (lastBackupPath cfgPath) w of
        (Inl _, w) \<Rightarrow> ([], w)
      | (Inr content, w) \<Rightarrow> (parse_last content, w))"

text \<open>\<open>Time.Unix()\<close> rounds down.\<close>

definition unix_seconds :: "int \<Rightarrow> int" where
  "unix_seconds t = t div nanos_per_second"

definition show_line :: "string \<times> lastSnapshotEntry \<Rightarrow> string" where
  "show_line ne = (case ne of (n, e) \<Rightarrow>
     n @ CHR ''='' # show_int (unix_seconds (Time e)) @ CHR ''='' # EntryLocal e
       @ CHR ''='' # EntryNAS e @ CHR ''='' # EntryHot e @ [CHR 0x0A])"

fun write_lines :: "string \<Rightarrow> string list \<Rightarrow> world \<Rightarrow> unit result \<times> world" where
  "write_lines tmp [] w = (Inr (), w)"
| "write_lines tmp (l # ls) w =
     (case os_Write tmp l w of (Inl e, w) \<Rightarrow> (Inl e, w) | (Inr _, w) \<Rightarrow> write_lines tmp ls w)"

text \<open>The part of \<open>writeLastSnapshotAt\<close> after the temporary file was created.\<close>

definition finish_write :: "string \<Rightarrow> string \<Rightarrow> string list \<Rightarrow> world \<Rightarrow> world" where
  "finish_write tmp dst ls w =
     (let w = (case write_lines tmp ls w of
                 (Inl _, w) \<Rightarrow> snd (os_Close tmp w)
               | (Inr _, w) \<Rightarrow>
                   (case os_Sync tmp w of
                      (Inl _, w) \<Rightarrow> snd (os_Close tmp w)
                    | (Inr _, w) \<Rightarrow>
                        (case os_Close tmp w of
                           (Inl _, w) \<Rightarrow> w
                         | (Inr _, w) \<Rightarrow> snd (os_Rename tmp dst w))))
      in snd (os_Remove tmp w))"

definition writeLastSnapshotAt ::
  "string \<Rightarrow> string \<Rightarrow> string \<Rightarrow> string \<Rightarrow> string \<Rightarrow> int \<Rightarrow> world \<Rightarrow> world" where
  "writeLastSnapshotAt cfgPath server localPath nasPath hotPath t w =
     (let (m, w) = readLastSnapshots cfgPath w;
          m = AList.update server \<lparr>Time = t, EntryLocal = localPath, EntryNAS = nasPath, EntryHot = hotPath\<rparr> m;
          dst = lastBackupPath cfgPath
      in case os_CreateTemp (Dir_of dst) (Base dst @ ''.'') ''.tmp'' w of
           (Inl _, w) \<Rightarrow> w
         | (Inr tmp, w) \<Rightarrow> finish_write tmp dst (List.map show_line m) w)"

definition writeLastSnapshot :: "string \<Rightarrow> string \<Rightarrow> string \<Rightarrow> string \<Rightarrow> string \<Rightarrow> world \<Rightarrow> world" where
  "writeLastSnapshot cfgPath server localPath nasPath hotPath w =
     (let (t, w) = now w in writeLastSnapshotAt cfgPath server localPath nasPath hotPath t w)"

section \<open>The format\<close>

text \<open>What the format can hold: no line feed anywhere, no equals sign except in the hot path,
  and no white space at the ends of the line.\<close>

definition plain_field :: "string \<Rightarrow> bool" where
  "plain_field s \<longleftrightarrow> CHR ''='' \<notin> set s \<and> CHR 0x0A \<notin> set s"

definition line_ok :: "string \<times> lastSnapshotEntry \<Rightarrow> bool" where
  "line_ok ne \<longleftrightarrow> (case ne of (n, e) \<Rightarrow>
     plain_field n \<and> plain_field (EntryLocal e) \<and> plain_field (EntryNAS e) \<and>
     CHR 0x0A \<notin> set (EntryHot e) \<and> in_int64 (unix_seconds (Time e)) \<and>
     (n \<noteq> [] \<longrightarrow> \<not> is_space (hd n)) \<and> (EntryHot e \<noteq> [] \<longrightarrow> \<not> is_space (last (EntryHot e))))"

text \<open>Times are kept to the second.\<close>

definition whole_seconds :: "lastSnapshotEntry \<Rightarrow> lastSnapshotEntry" where
  "whole_seconds e = e\<lparr>Time := unix_seconds (Time e) * nanos_per_second\<rparr>"

lemma show_int_plain: "plain_field (show_int i)"
  using show_int_chars [of "CHR ''=''" i] show_int_chars [of "CHR 0x0A" i]
  by (auto simp: plain_field_def is_digit_def)

lemma SplitN_five:
  assumes "c \<notin> set a" "c \<notin> set b" "c \<notin> set d" "c \<notin> set f"
  shows "SplitN (a @ c # b @ c # d @ c # f @ c # g) c 5 = [a, b, d, f, g]"
  using assms by (simp add: numeral_eq_Suc del: SplitN.simps(3))

lemma read_show_line:
  assumes "line_ok (n, e)"
  shows "read_line (butlast (show_line (n, e))) = Some (n, whole_seconds e)"
proof -
  let ?ts = "show_int (unix_seconds (Time e))"
  let ?l = "n @ CHR ''='' # ?ts @ CHR ''='' # EntryLocal e @ CHR ''='' # EntryNAS e @ CHR ''='' # EntryHot e"
  have l: "butlast (show_line (n, e)) = ?l" by (simp add: show_line_def butlast_append)
  have "\<not> is_space (hd ?l)" using assms by (cases n) (auto simp: line_ok_def is_space_def)
  moreover have "\<not> is_space (last ?l)" using assms by (auto simp: line_ok_def is_space_def)
  ultimately have trim: "TrimSpace ?l = ?l" by (intro TrimSpace_id) simp
  have "SplitN ?l (CHR ''='') 5 = [n, ?ts, EntryLocal e, EntryNAS e, EntryHot e]"
    using assms show_int_plain [of "unix_seconds (Time e)"]
    by (intro SplitN_five) (auto simp: line_ok_def plain_field_def)
  moreover have "ParseInt ?ts = Some (unix_seconds (Time e))"
    using assms by (simp add: line_ok_def)
  ultimately show ?thesis
    unfolding l read_line_def trim Let_def
    by (simp add: part_or_empty_def whole_seconds_def numeral_eq_Suc)
qed

interpretation last_lines: codec "\<lambda>ne. butlast (show_line ne)"
    "\<lambda>l. map_option (\<lambda>(n, e). (n, e)) (read_line l)" "\<lambda>(n, e). line_ok (n, e) \<and> whole_seconds e = e"
  by unfold_locales (auto simp: read_show_line)

lemma show_line_butlast: "show_line ne = butlast (show_line ne) @ [CHR 0x0A]"
  by (cases ne) (simp add: show_line_def butlast_append)

lemma line_no_feed: "line_ok ne \<Longrightarrow> CHR 0x0A \<notin> set (butlast (show_line ne))"
  using show_int_plain by (cases ne) (auto simp: show_line_def butlast_append line_ok_def plain_field_def)

lemma Split_lines:
  assumes "list_all line_ok m"
  shows "Split (concat (List.map show_line m)) (CHR 0x0A) = List.map (\<lambda>ne. butlast (show_line ne)) m @ [[]]"
  using assms
proof (induction m)
  case Nil
  show ?case by (simp add: Split_def)
next
  case (Cons ne m)
  have "Split (butlast (show_line ne)) (CHR 0x0A) = [butlast (show_line ne)]"
    using line_no_feed [of ne] Cons.prems unfolding Split_def by (intro split_on_none) auto
  moreover have "concat (List.map show_line (ne # m)) =
      butlast (show_line ne) @ CHR 0x0A # concat (List.map show_line m)"
    using show_line_butlast [of ne] by (metis append.assoc append_Cons append_Nil concat.simps(2) list.map(2))
  moreover have "Split (concat (List.map show_line m)) (CHR 0x0A) = List.map (\<lambda>ne. butlast (show_line ne)) m @ [[]]"
    using Cons by simp
  ultimately show ?case by (simp only: Split_append list.map append_Cons append_Nil)
qed

lemma parse_last_lines:
  assumes "list_all line_ok m"
  shows "map_of (parse_last (concat (List.map show_line m))) n = map_option whole_seconds (map_of (rev m) n)"
proof -
  have empty: "read_line [] = None" by (simp add: read_line_def TrimSpace_def TrimLeftSpace_def TrimRightBy_def)
  have "List.map_filter read_line (List.map (\<lambda>ne. butlast (show_line ne)) m @ [[]]) =
      List.map (\<lambda>(n, e). (n, whole_seconds e)) m"
    using assms empty read_show_line
    by (induction m) (auto simp: List.map_filter_simps)
  moreover have "map_of (fold (\<lambda>(k, v). AList.update k v) xs []) n = map_of (rev xs) n" for xs :: "(string \<times> lastSnapshotEntry) list"
    using map_of_fold_update [of "\<lambda>k. k" "\<lambda>k v. v" xs "[]" n] by (simp split: option.split)
  ultimately have "map_of (parse_last (concat (List.map show_line m))) n =
      map_of (rev (List.map (\<lambda>(n, e). (n, whole_seconds e)) m)) n"
    unfolding parse_last_def Split_lines [OF assms] by simp
  also have "\<dots> = map_option whole_seconds (map_of (rev m) n)"
    by (simp add: rev_map map_of_map)
  finally show ?thesis .
qed

section \<open>The update\<close>

lemma write_lines_drafted:
  assumes "drafted tmp c m w w1" and "write_lines tmp ls w1 = (r, w2)"
  shows "(is_ok r \<longrightarrow> drafted tmp (c @ concat ls) m w w2) \<and> (\<exists>c'. drafted tmp c' m w w2) \<and> (no_faults w \<longrightarrow> is_ok r)"
  using assms
proof (induction ls arbitrary: c w1)
  case Nil
  then show ?case by auto
next
  case (Cons l ls)
  obtain r1 w1' where wr: "os_Write tmp l w1 = (r1, w1')" by (metis prod.exhaust)
  note wd = Write_drafted [OF Cons.prems(1) wr]
  show ?case
  proof (cases r1)
    case (Inl e)
    then have "r = Inl e" "w2 = w1'" using Cons.prems(2) wr by auto
    then show ?thesis using wd Inl by auto
  next
    case (Inr u)
    then have "drafted tmp (c @ l) m w w1'" "write_lines tmp ls w1' = (r, w2)"
      using Cons.prems(2) wr wd(1) by auto
    from Cons.IH [OF this] show ?thesis by simp
  qed
qed

text \<open>The outcome of replacing the file \<open>dst\<close>: all other files are as before, except perhaps a
  temporary file left beside it, and \<open>dst\<close> holds the old text or the new one.\<close>

definition replaced :: "string \<Rightarrow> string \<Rightarrow> bool \<Rightarrow> world \<Rightarrow> world \<Rightarrow> bool" where
  "replaced dst content ok w w' \<longleftrightarrow>
     (\<exists>tmp. map_of (w_fs w) tmp = None \<and>
       (\<forall>q. q \<noteq> tmp \<and> q \<noteq> dst \<longrightarrow> map_of (w_fs w') q = map_of (w_fs w) q)) \<and>
     (if ok then map_of (w_fs w') dst = Some (FileNode content 384)
      else map_of (w_fs w') dst = map_of (w_fs w) dst)"

definition last_dir :: "string \<Rightarrow> string list \<Rightarrow> bool" where
  "last_dir cfgPath cs \<longleftrightarrow> cs \<noteq> [] \<and> list_all ok_comp cs \<and> (\<exists>n. ok_comp n \<and> cfgPath = abs_path (cs @ [n]))"

lemma last_dir_paths:
  assumes "last_dir cfgPath cs"
  shows "lastBackupPath cfgPath = abs_path (cs @ [''.last-backup''])"
    and "Dir_of (lastBackupPath cfgPath) = abs_path cs"
    and "Base (lastBackupPath cfgPath) = ''.last-backup''"
proof -
  have c: "ok_comp ''.last-backup''" by (simp add: ok_comp_def)
  show p: "lastBackupPath cfgPath = abs_path (cs @ [''.last-backup''])"
    using assms c path_join_abs [of cs "[''.last-backup'']"]
    by (auto simp: last_dir_def lastBackupPath_def Dir_abs_path)
  show "Dir_of (lastBackupPath cfgPath) = abs_path cs" "Base (lastBackupPath cfgPath) = ''.last-backup''"
    unfolding p using assms c by (simp_all add: last_dir_def Dir_abs_path Base_abs_path)
qed

lemma temp_beside:
  assumes "tmp = dst @ CHR ''.'' # s" and "dst \<noteq> ''/''" and "dst \<noteq> []"
  shows "tmp \<noteq> dst" "tmp \<noteq> ''/''" "\<not> under tmp dst" "\<not> under dst tmp" "tmp \<noteq> []"
proof -
  show "tmp \<noteq> []" using assms by simp
  show "tmp \<noteq> dst" "tmp \<noteq> ''/''" using assms by (auto simp: Cons_eq_append_conv append_eq_Cons_conv)
  then show "\<not> under tmp dst" using assms(1) under_proper [of tmp dst] by auto
  show "\<not> under dst tmp" using assms(1,2) under_proper [of dst tmp] by auto
qed

lemma replacedI:
  assumes "map_of (w_fs w) tmp = None" and "same_but tmp v w'" and "tmp \<noteq> dst"
    and "map_of (w_fs v) = (if ok then (map_of (w_fs w))(dst \<mapsto> FileNode content 384) else map_of (w_fs w))"
  shows "replaced dst content ok w w'"
  unfolding replaced_def using assms
  by (intro conjI exI [of _ tmp]) (auto simp: same_but_def split: if_splits)

lemma finish_write_replaced:
  assumes ok: "fs_ok (w_fs w)" and d: "drafted tmp [] 384 w w1" and new: "map_of (w_fs w) tmp = None"
    and tmp: "tmp = dst @ CHR ''.'' # s" and dst: "dst \<noteq> ''/''" "dst \<noteq> []"
  shows "\<exists>done. replaced dst (concat ls) done w (finish_write tmp dst ls w1) \<and> runs w [] (finish_write tmp dst ls w1) \<and>
    (no_faults w \<and> is_dir (w_fs w) (Dir_of dst) \<and> \<not> is_dir (w_fs w) dst \<and> Dir_of dst \<noteq> tmp \<longrightarrow> done)"
proof -
  note T = temp_beside [OF tmp dst]
  have end_step: "same_but tmp v (snd (os_Remove tmp v))" for v
    using Remove_same_but [of tmp v "fst (os_Remove tmp v)" "snd (os_Remove tmp v)"] by simp
  have unchanged: "replaced dst (concat ls) False w (snd (os_Remove tmp v)) \<and> runs w [] (snd (os_Remove tmp v))"
    if "drafted tmp c m w v" for c m v
  proof -
    have "same_but tmp w (snd (os_Remove tmp v))"
      using same_but_trans [OF drafted_same_but [OF that] end_step] .
    then show ?thesis using replacedI [OF new _ T(1), of w "snd (os_Remove tmp v)" False] by (simp add: same_but_def)
  qed
  obtain r2 w2 where wl: "write_lines tmp ls w1 = (r2, w2)" by (metis prod.exhaust)
  note W = write_lines_drafted [OF d wl]
  have closed: "drafted tmp c m w (snd (os_Close tmp v))" if "drafted tmp c m w v" for c m v
    using Close_drafted(1) [OF that] by (metis prod.collapse)
  show ?thesis
  proof (cases r2)
    case (Inl e)
    obtain c' where "drafted tmp c' 384 w w2" using W by blast
    moreover have "finish_write tmp dst ls w1 = snd (os_Remove tmp (snd (os_Close tmp w2)))"
      using wl Inl by (simp add: finish_write_def)
    ultimately show ?thesis using unchanged [OF closed] W Inl by (intro exI [of _ False]) auto
  next
    case (Inr u)
    then have d2: "drafted tmp (concat ls) 384 w w2" using W by simp
    obtain r3 w3 where sy: "os_Sync tmp w2 = (r3, w3)" by (metis prod.exhaust)
    note S = Sync_drafted [OF d2 sy]
    obtain r4 w4 where cl: "os_Close tmp w3 = (r4, w4)" by (metis prod.exhaust)
    note C = Close_drafted [OF S(1) cl]
    obtain r5 w5 where rn: "os_Rename tmp dst w4 = (r5, w5)" by (metis prod.exhaust)
    note R = Rename_drafted [OF ok C(1) new T(2) dst(1) T(5) dst(2) rn]
    have out: "finish_write tmp dst ls w1 =
        (case r3 of Inl _ \<Rightarrow> snd (os_Remove tmp (snd (os_Close tmp w3)))
         | Inr _ \<Rightarrow> (case r4 of Inl _ \<Rightarrow> snd (os_Remove tmp w4) | Inr _ \<Rightarrow> snd (os_Remove tmp w5)))"
      using wl Inr sy cl rn by (simp add: finish_write_def split: sum.split)
    show ?thesis
    proof (cases "is_ok r3 \<and> is_ok r4 \<and> is_ok r5")
      case True
      then have fin: "finish_write tmp dst ls w1 = snd (os_Remove tmp w5)"
        using out by (auto simp: is_ok_iff)
      have w5: "runs w [] w5" "map_of (w_fs w5) = (map_of (w_fs w))(dst \<mapsto> FileNode (concat ls) 384)"
        using R(1) True by auto
      have "runs w [] (snd (os_Remove tmp w5))" using runs_quiet [OF w5(1)] end_step [of w5] by (simp add: same_but_def)
      moreover have "replaced dst (concat ls) True w (snd (os_Remove tmp w5))"
        by (rule replacedI [OF new end_step T(1)]) (simp add: w5)
      ultimately show ?thesis unfolding fin by blast
    next
      case False
      have "\<not> (no_faults w \<and> is_dir (w_fs w) (Dir_of dst) \<and> \<not> is_dir (w_fs w) dst \<and> Dir_of dst \<noteq> tmp)"
        using False S(2) C(2) Rename_succeeds [OF _ C(1) _ T(3,4) _ _ new] rn by auto
      moreover have "replaced dst (concat ls) False w (finish_write tmp dst ls w1) \<and> runs w [] (finish_write tmp dst ls w1)"
        using False out unchanged [OF closed [OF S(1)]] unchanged [OF C(1)] unchanged [OF R(2)]
        by (cases r3; cases r4; simp)
      ultimately show ?thesis by blast
    qed
  qed
qed


lemma fresh_path: "\<exists>p. map_of (f :: fs) p = None"
proof -
  have "\<exists>p. p \<notin> dom (map_of f)"
    by (rule ex_new_if_finite [OF infinite_UNIV_listI finite_dom_map_of])
  then show ?thesis by (simp add: domIff)
qed

lemma readLastSnapshots_runs: "runs w [] (snd (readLastSnapshots c w))"
  using readfile.silent_snd [of w "lastBackupPath c"]
  by (simp add: readLastSnapshots_def case_prod_unfold split: sum.split)

lemma readLastSnapshots_fs [simp]: "w_fs (snd (readLastSnapshots c w)) = w_fs w"
  using reads_keep_fs(3) [of "lastBackupPath c" w]
  by (simp add: readLastSnapshots_def case_prod_unfold split: sum.split)

lemma readLastSnapshots_ok:
  "no_faults w \<Longrightarrow> map_of (w_fs w) (lastBackupPath c) = Some (FileNode s m) \<Longrightarrow>
     fst (readLastSnapshots c w) = parse_last s"
  by (simp add: readLastSnapshots_def os_ReadFile_def)

lemma CreateTemp_failed_replaced:
  assumes "runs w [] w1" "w_fs w1 = w_fs w" "os_CreateTemp d p s w1 = (Inl e, w')"
  shows "replaced dst content False w w'"
proof -
  have "w_fs w' = w_fs w" using CreateTemp_failed [OF assms(3)] assms(2) by simp
  then show ?thesis using fresh_path [of "w_fs w"] by (simp add: replaced_def)
qed

text \<open>The list of entries the update writes.\<close>

definition updated_entries ::
  "string \<Rightarrow> string \<Rightarrow> lastSnapshotEntry \<Rightarrow> world \<Rightarrow> (string \<times> lastSnapshotEntry) list" where
  "updated_entries cfgPath server e w = AList.update server e (fst (readLastSnapshots cfgPath w))"

definition entry_at :: "int \<Rightarrow> string \<Rightarrow> string \<Rightarrow> string \<Rightarrow> lastSnapshotEntry" where
  "entry_at t l n h = \<lparr>Time = t, EntryLocal = l, EntryNAS = n, EntryHot = h\<rparr>"

definition temp_free :: "string \<Rightarrow> world \<Rightarrow> bool" where
  "temp_free dst w \<longleftrightarrow> (\<forall>k. map_of (w_fs w) (dst @ CHR ''.'' # temp_suffix (w_env w) k @ ''.tmp'') = None)"

lemma writeLastSnapshotAt_replaced:
  assumes ok: "fs_ok (w_fs w)" and dir: "last_dir cfgPath cs"
  shows "\<exists>done. replaced (lastBackupPath cfgPath)
      (concat (List.map show_line (updated_entries cfgPath server (entry_at t l n h) w))) done w
      (writeLastSnapshotAt cfgPath server l n h t w) \<and>
    runs w [] (writeLastSnapshotAt cfgPath server l n h t w) \<and>
    (no_faults w \<and> is_dir (w_fs w) (abs_path cs) \<and> \<not> is_dir (w_fs w) (lastBackupPath cfgPath) \<and>
       temp_free (lastBackupPath cfgPath) w \<longrightarrow> done)"
proof -
  let ?dst = "lastBackupPath cfgPath" and ?w1 = "snd (readLastSnapshots cfgPath w)"
  let ?ls = "List.map show_line (updated_entries cfgPath server (entry_at t l n h) w)"
  note P = last_dir_paths [OF dir]
  have cs: "cs \<noteq> []" "list_all ok_comp cs" using dir by (simp_all add: last_dir_def)
  have dst: "?dst \<noteq> ''/''" "?dst \<noteq> []"
    unfolding P(1) using cs by (cases cs; auto simp: abs_path_append ok_comp_def)+
  obtain r w2 where ct: "os_CreateTemp (Dir_of ?dst) (Base ?dst @ ''.'') ''.tmp'' ?w1 = (r, w2)"
    by (metis prod.exhaust)
  have def: "writeLastSnapshotAt cfgPath server l n h t w =
      (case r of Inl _ \<Rightarrow> w2 | Inr tmp \<Rightarrow> finish_write tmp ?dst ?ls w2)"
    using ct by (simp add: writeLastSnapshotAt_def updated_entries_def entry_at_def case_prod_unfold Let_def
        split: sum.split)
  have pre: "dir_prefix (Dir_of ?dst) @ (Base ?dst @ ''.'') @ s = ?dst @ CHR ''.'' # s" for s
    using cs unfolding P(2,3) unfolding P(1) by (simp add: dir_prefix_abs abs_path_append)
  have env1: "w_env ?w1 = w_env w" using readLastSnapshots_runs [of w cfgPath] by (simp add: runs_def)
  show ?thesis
  proof (cases r)
    case (Inl e)
    have "\<not> (no_faults w \<and> is_dir (w_fs w) (abs_path cs) \<and> temp_free ?dst w)"
    proof
      assume h: "no_faults w \<and> is_dir (w_fs w) (abs_path cs) \<and> temp_free ?dst w"
      have free: "map_of (w_fs ?w1) (dir_prefix (Dir_of ?dst) @ (Base ?dst @ ''.'') @
          temp_suffix (w_env ?w1) (w_tick ?w1) @ ''.tmp'') = None"
        unfolding pre using h by (simp add: temp_free_def env1)
      have "is_ok (fst (os_CreateTemp (Dir_of ?dst) (Base ?dst @ ''.'') ''.tmp'' ?w1))"
        using h no_faults_env [OF env1] P(2) by (intro CreateTemp_succeeds [OF _ _ free]) simp_all
      then show False using ct Inl by simp
    qed
    moreover have "replaced ?dst (concat ?ls) False w w2"
      using CreateTemp_failed_replaced [OF readLastSnapshots_runs readLastSnapshots_fs] ct Inl by blast
    moreover have "runs w [] w2"
      using runs_quiet [OF readLastSnapshots_runs createtemp.silent [OF ct]] .
    ultimately show ?thesis unfolding def Inl by (intro exI [of _ False]) simp
  next
    case (Inr tmp)
    note C = CreateTemp_drafted [OF ct [unfolded Inr]]
    have tmp: "tmp = ?dst @ CHR ''.'' # (temp_suffix (w_env w) (w_tick ?w1) @ ''.tmp'')"
      using C(4) pre env1 by simp
    have d: "drafted tmp [] 384 w w2"
      using C(1) runs_quiet [OF readLastSnapshots_runs [of w cfgPath]] by (simp add: drafted_def)
    have "map_of (w_fs w) tmp = None" using C(2) by simp
    from finish_write_replaced [OF ok d this tmp dst, of ?ls]
    obtain dn where dn: "replaced ?dst (concat ?ls) dn w (finish_write tmp ?dst ?ls w2)"
      "runs w [] (finish_write tmp ?dst ?ls w2)"
      "no_faults w \<and> is_dir (w_fs w) (Dir_of ?dst) \<and> \<not> is_dir (w_fs w) ?dst \<and> Dir_of ?dst \<noteq> tmp \<longrightarrow> dn"
      by blast
    have "length (Dir_of ?dst) < length tmp" unfolding P(2) unfolding tmp P(1) by (simp add: abs_path_append)
    then have "Dir_of ?dst \<noteq> tmp" by auto
    then show ?thesis using dn unfolding def Inr P(2) by (intro exI [of _ dn]) simp
  qed
qed

section \<open>What is read back\<close>

lemma first_split: "c \<notin> set s \<or> (\<exists>a b. s = a @ c # b \<and> c \<notin> set a)"
  by (meson split_list_first)

lemma set_TrimSpace: "set (TrimSpace s) \<subseteq> set s"
  unfolding TrimSpace_def TrimLeftSpace_def TrimRightBy_def
  by (auto dest!: set_dropWhileD)

text \<open>Every line the program accepts is one the format can hold, with a time in seconds.\<close>

lemma read_line_ok:
  assumes r: "read_line l = Some (n, e)" and lf: "CHR 0x0A \<notin> set l"
  shows "line_ok (n, e) \<and> whole_seconds e = e"
proof -
  define L where "L = TrimSpace l"
  have ne: "L \<noteq> []" using r by (auto simp: read_line_def L_def Let_def split: if_splits)
  have ends: "\<not> is_space (hd L)" "\<not> is_space (last L)" "CHR 0x0A \<notin> set L"
    using ne hd_TrimSpace last_TrimSpace lf set_TrimSpace by (auto simp: L_def)
  obtain ts where p: "length (SplitN L (CHR ''='') 5) \<ge> 2"
    "ParseInt (SplitN L (CHR ''='') 5 ! 1) = Some ts" "n = SplitN L (CHR ''='') 5 ! 0"
    and e: "e = \<lparr>Time = ts * nanos_per_second, EntryLocal = part_or_empty (SplitN L (CHR ''='') 5) 2,
      EntryNAS = part_or_empty (SplitN L (CHR ''='') 5) 3, EntryHot = part_or_empty (SplitN L (CHR ''='') 5) 4\<rparr>"
    using r by (auto simp: read_line_def L_def Let_def split: if_splits option.splits)
  have five: "(5 :: nat) = Suc (Suc (Suc (Suc (Suc 0))))" by simp
  note S = five part_or_empty_def line_ok_def whole_seconds_def unix_seconds_def plain_field_def numeral_eq_Suc
  have ts: "in_int64 ts" using p(2) by (rule ParseInt_in_int64)
  have nn: "(0 :: int) < nanos_per_second" by (simp add: nanos_per_second_def)
  have hd1: "\<not> is_space (hd a)" if "L = a @ b" "a \<noteq> []" for a b using that ends by simp
  have last1: "\<not> is_space (last b)" if "L = a @ b" "b \<noteq> []" for a b using that ends by simp
  obtain a b where 1: "L = a @ CHR ''='' # b" "CHR ''='' \<notin> set a"
    using first_split [of "CHR ''=''" L] p(1) SplitN_none [of "CHR ''=''" L 4] by auto
  note n1 = hd1 [OF 1(1)]
  from first_split [of "CHR ''=''" b] show ?thesis
  proof (elim disjE exE conjE)
    assume 2: "CHR ''='' \<notin> set b"
    show ?thesis using p e 1 2 ts nn n1 ends(3) by (simp add: S del: SplitN.simps(3))
  next
    fix b1 b2 assume 2: "b = b1 @ CHR ''='' # b2" "CHR ''='' \<notin> set b1"
    from first_split [of "CHR ''=''" b2] show ?thesis
    proof (elim disjE exE conjE)
      assume 3: "CHR ''='' \<notin> set b2"
      show ?thesis using p e 1 2 3 ts nn n1 ends(3) by (simp add: S del: SplitN.simps(3))
    next
      fix c1 c2 assume 3: "b2 = c1 @ CHR ''='' # c2" "CHR ''='' \<notin> set c1"
      from first_split [of "CHR ''=''" c2] show ?thesis
      proof (elim disjE exE conjE)
        assume 4: "CHR ''='' \<notin> set c2"
        show ?thesis using p e 1 2 3 4 ts nn n1 ends(3) by (simp add: S del: SplitN.simps(3))
      next
        fix d1 d2 assume 4: "c2 = d1 @ CHR ''='' # d2" "CHR ''='' \<notin> set d1"
        have "d2 \<noteq> [] \<Longrightarrow> \<not> is_space (last d2)"
          using last1 [of "a @ CHR ''='' # b1 @ CHR ''='' # c1 @ CHR ''='' # d1 @ [CHR ''='']" d2] 1 2 3 4 by simp
        then show ?thesis using p e 1 2 3 4 ts nn n1 ends(3) by (simp add: S del: SplitN.simps(3))
      qed
    qed
  qed
qed

lemma set_AList_update: "set (AList.update k v m) \<subseteq> insert (k, v) (set m)"
  by (induction m) auto

lemma set_fold_update: "set (fold (\<lambda>(k, v). AList.update k v) xs m) \<subseteq> set xs \<union> set m"
proof (induction xs arbitrary: m)
  case Nil
  show ?case by simp
next
  case (Cons x xs)
  then show ?case using set_AList_update by (cases x) fastforce
qed

lemma parse_last_ok:
  assumes "(n, e) \<in> set (parse_last s)"
  shows "line_ok (n, e) \<and> whole_seconds e = e"
proof -
  have "(n, e) \<in> set (List.map_filter read_line (Split s (CHR 0x0A)))"
    using assms set_fold_update [of "List.map_filter read_line (Split s (CHR 0x0A))" "[]"]
    by (auto simp: parse_last_def)
  then obtain l where "l \<in> set (Split s (CHR 0x0A))" "read_line l = Some (n, e)"
    by (auto simp: map_filter_def)
  then show ?thesis using split_on_pieces [of l "\<lambda>x. x = CHR 0x0A" s "CHR 0x0A"]
    by (intro read_line_ok) (auto simp: Split_def)
qed

lemma parse_last_map_ok: "map_ok (parse_last s)"
proof -
  have "map_ok (fold (\<lambda>(k, v). AList.update k v) xs m)" if "map_ok m" for xs and m :: "(string \<times> lastSnapshotEntry) list"
    using that by (induction xs arbitrary: m) auto
  then show ?thesis by (simp add: parse_last_def)
qed

lemma readLastSnapshots_parsed:
  "fst (readLastSnapshots c w) = [] \<or> (\<exists>s. fst (readLastSnapshots c w) = parse_last s)"
  by (auto simp: readLastSnapshots_def case_prod_unfold split: sum.split)

lemma readLastSnapshots_entries:
  shows "map_ok (fst (readLastSnapshots c w))"
    and "(n, e) \<in> set (fst (readLastSnapshots c w)) \<Longrightarrow> line_ok (n, e) \<and> whole_seconds e = e"
  using readLastSnapshots_parsed [of c w] parse_last_ok parse_last_map_ok by auto

lemma map_of_rev_ok: "map_ok m \<Longrightarrow> map_of (rev m) = map_of m"
  by (intro map_of_perm) (auto simp: map_ok_def rev_map [symmetric])

lemma updated_entries_read:
  assumes "line_ok (server, e)"
  shows "map_of (parse_last (concat (List.map show_line (updated_entries c server e w)))) =
    (map_of (fst (readLastSnapshots c w)))(server \<mapsto> whole_seconds e)"
proof
  fix n
  let ?m = "fst (readLastSnapshots c w)" and ?u = "updated_entries c server e w"
  have "list_all line_ok ?u"
    using assms readLastSnapshots_entries(2) [of _ _ c w] set_AList_update [of server e ?m]
    unfolding updated_entries_def list_all_iff by fastforce
  then have "map_of (parse_last (concat (List.map show_line ?u))) n = map_option whole_seconds (map_of (rev ?u) n)"
    by (rule parse_last_lines)
  also have "map_of (rev ?u) = (map_of ?m)(server \<mapsto> e)"
    using readLastSnapshots_entries(1) [of c w] by (simp add: updated_entries_def map_of_rev_ok)
  also have "map_option whole_seconds (((map_of ?m)(server \<mapsto> e)) n) = ((map_of ?m)(server \<mapsto> whole_seconds e)) n"
    using readLastSnapshots_entries(2) [of n _ c w] by (auto simp: map_option_case split: option.split dest: map_of_SomeD)
  finally show "map_of (parse_last (concat (List.map show_line ?u))) n = ((map_of ?m)(server \<mapsto> whole_seconds e)) n" .
qed


section \<open>Properties\<close>


text \<open>A configuration in \<open>/etc\<close> and a record of one server.\<close>

definition etc_world :: world where
  "etc_world = quiet_world [(''/etc'', DirNode),
     (''/etc/.last-backup'', FileNode (''a=5=/x=='' @ [CHR 0x0A]) 384)]"

lemma etc_world_ok: "fs_ok (w_fs etc_world)"
proof -
  have "p = ''/'' \<or> p = ''/etc''" if "p \<noteq> []" "p \<noteq> q" "under p q" "q = ''/etc'' \<or> q = ''/etc/.last-backup''" for p q
    using that by (auto simp: under_def dir_prefix_def HasPrefix_iff append_eq_Cons_conv Cons_eq_append_conv split: if_splits)
  moreover have "\<not> under ''/etc/.last-backup'' ''/etc''"
    by (simp add: under_def dir_prefix_def HasPrefix_iff)
  ultimately show ?thesis
    unfolding fs_ok_def etc_world_def by (auto simp: is_dir_def split: if_splits)
qed

lemma etc_last_dir: "last_dir ''/etc/c.toml'' [''etc'']"
  by (auto simp: last_dir_def ok_comp_def intro!: exI [of _ "''c.toml''"])


text \<open>C27: When nothing fails, the recorded snapshot is read back, to the second, and the entries of
  all other servers are what they were, whatever the file held before (unreadable lines
  included). The server's name and its local and NAS paths must be free of equals signs and line
  feeds, which the format does not escape.\<close>

theorem last_backup_roundtrip:
  assumes "fs_ok (w_fs w)" and "last_dir cfgPath cs" and "no_faults w"
    and "is_dir (w_fs w) (abs_path cs)" and "\<not> is_dir (w_fs w) (lastBackupPath cfgPath)"
    and "temp_free (lastBackupPath cfgPath) w" and "line_ok (server, entry_at t l n h)"
  shows "map_of (fst (readLastSnapshots cfgPath (writeLastSnapshotAt cfgPath server l n h t w))) =
    (map_of (fst (readLastSnapshots cfgPath w)))(server \<mapsto> whole_seconds (entry_at t l n h))"
proof -
  let ?w' = "writeLastSnapshotAt cfgPath server l n h t w"
  let ?c = "concat (List.map show_line (updated_entries cfgPath server (entry_at t l n h) w))"
  have "replaced (lastBackupPath cfgPath) ?c True w ?w'" "runs w [] ?w'"
    using writeLastSnapshotAt_replaced [OF assms(1,2), of server t l n h] assms(3-6) by auto
  then have "map_of (w_fs ?w') (lastBackupPath cfgPath) = Some (FileNode ?c 384)" "no_faults ?w'"
    using no_faults_env assms(3) by (auto simp: replaced_def runs_def)
  then have "fst (readLastSnapshots cfgPath ?w') = parse_last ?c" by (intro readLastSnapshots_ok)
  then show ?thesis using updated_entries_read [OF assms(7)] by simp
qed

theorem last_backup_roundtrip_witness:
  "map_of (fst (readLastSnapshots ''/etc/c.toml'' (writeLastSnapshotAt ''/etc/c.toml'' ''b'' ''/y'' [] [] 7 etc_world))) =
    (map_of (fst (readLastSnapshots ''/etc/c.toml'' etc_world)))(''b'' \<mapsto> whole_seconds (entry_at 7 ''/y'' [] []))"
proof (rule last_backup_roundtrip [OF etc_world_ok etc_last_dir])
  have p: "lastBackupPath ''/etc/c.toml'' = ''/etc/.last-backup''"
    using last_dir_paths(1) [OF etc_last_dir] by simp
  show "no_faults etc_world" by (simp add: etc_world_def)
  show "is_dir (w_fs etc_world) (abs_path [''etc''])" by (simp add: is_dir_def etc_world_def)
  show "\<not> is_dir (w_fs etc_world) (lastBackupPath ''/etc/c.toml'')"
    by (simp add: p is_dir_def etc_world_def)
  show "temp_free (lastBackupPath ''/etc/c.toml'') etc_world"
    by (simp add: p temp_free_def etc_world_def quiet_env_def)
  show "line_ok (''b'', entry_at 7 ''/y'' [] [])"
    by (simp add: line_ok_def plain_field_def entry_at_def unix_seconds_def nanos_per_second_def in_int64_def
        min_int64_def max_int64_def is_space_def)
qed


end
