(* ===== verification/Status.thy ===== *)
theory Status
  imports Config
begin

text \<open>
  \<open>internal/engine/status.go\<close>: the job tracker shared by the backup cycle, the offload worker
  and the status API, the handlers of the HTTP API with their token check, and the rows of
  the dashboard. Each method of the tracker holds its mutex for its whole body, so a run of
  several goroutines is a sequence of these operations.
\<close>

section \<open>The job tracker\<close>

record JobInfo =
  ServerName :: string
  JobSnapshot :: string
  State :: string
  BytesMoved :: int
  TotalSize :: int

type_synonym JobTracker = "(string \<times> JobInfo) list"

definition NewJobTracker :: JobTracker where
  "NewJobTracker = []"

definition tracker_Add :: "string \<Rightarrow> JobInfo \<Rightarrow> JobTracker \<Rightarrow> JobTracker" where
  "tracker_Add key info jt = AList.update key info jt"

definition tracker_Remove :: "string \<Rightarrow> JobTracker \<Rightarrow> JobTracker" where
  "tracker_Remove key jt = AList.delete key jt"

definition UpdateIfSnapshot :: "string \<Rightarrow> string \<Rightarrow> JobInfo \<Rightarrow> JobTracker \<Rightarrow> bool \<times> JobTracker" where
  "UpdateIfSnapshot key snap info jt =
     (case map_of jt key of
        None \<Rightarrow> (True, AList.update key info jt)
      | Some current \<Rightarrow>
          if JobSnapshot current = snap then (True, AList.update key info jt) else (False, jt))"

definition RemoveIfSnapshot :: "string \<Rightarrow> string \<Rightarrow> JobTracker \<Rightarrow> bool \<times> JobTracker" where
  "RemoveIfSnapshot key snap jt =
     (case map_of jt key of
        None \<Rightarrow> (False, jt)
      | Some current \<Rightarrow>
          if JobSnapshot current = snap then (True, AList.delete key jt) else (False, jt))"

text \<open>A copy of the table; the entries are values, so the copy shares nothing.\<close>

definition tracker_Snapshot :: "JobTracker \<Rightarrow> JobTracker" where
  "tracker_Snapshot jt = fold (\<lambda>(k, v). AList.update k v) jt []"

section \<open>HTTP\<close>

record request =
  Method :: string
  UrlPath :: string
  Query :: "(string \<times> string) list"
  Authorization :: string

datatype body = NoBody | TextBody string | JobsBody JobTracker

record response =
  StatusCode :: int
  Body :: body

datatype callback = OnCancel | OnScan | OnBackup string bool

definition query_Get :: "request \<Rightarrow> string \<Rightarrow> string" where
  "query_Get r k = (case map_of (Query r) k of None \<Rightarrow> [] | Some v \<Rightarrow> v)"

definition checkBearerToken :: "request \<Rightarrow> string \<Rightarrow> bool" where
  "checkBearerToken r token =
     (if token = [] then True
      else if \<not> HasPrefix (Authorization r) ''Bearer '' then False
      else TrimPrefix (Authorization r) ''Bearer '' = token)"

definition reply :: "int \<Rightarrow> body \<Rightarrow> response" where
  "reply c b = \<lparr>StatusCode = c, Body = b\<rparr>"

text \<open>The common beginning of the three handlers that act: method, token, callback, answer.\<close>

definition guarded_post :: "request \<Rightarrow> string \<Rightarrow> callback \<Rightarrow> string \<Rightarrow> response \<times> callback option" where
  "guarded_post r token cb text =
     (if Method r \<noteq> ''POST'' then (reply 405 NoBody, None)
      else if \<not> checkBearerToken r token then (reply 401 NoBody, None)
      else (reply 200 (TextBody text), Some cb))"

text \<open>\<open>http.ServeMux\<close> redirects a path that is not clean, except for \<open>CONNECT\<close>.\<close>

definition clean_url :: "string \<Rightarrow> string" where
  "clean_url p =
     (let q = (if p = [] then ''/'' else if hd p \<noteq> CHR ''/'' then CHR ''/'' # p else p);
          c = Clean q
      in if last q = CHR ''/'' \<and> c \<noteq> ''/'' then c @ ''/'' else c)"

text \<open>The mux on the registered paths; any other clean path is not found. The token is what the
  supplier returns at the time of the request.\<close>

definition newStatusMux :: "JobTracker \<Rightarrow> string \<Rightarrow> request \<Rightarrow> response \<times> callback option" where
  "newStatusMux jt token r =
     (if UrlPath r = ''/status'' then (reply 200 (JobsBody (tracker_Snapshot jt)), None)
      else if UrlPath r = ''/health'' then (reply 200 (TextBody ''ok''), None)
      else if UrlPath r = ''/cancel'' then guarded_post r token OnCancel ''canceled''
      else if UrlPath r = ''/scan'' then guarded_post r token OnScan ''scan triggered''
      else if UrlPath r = ''/backup'' then
        guarded_post r token (OnBackup (query_Get r ''server'') (query_Get r ''offline'' = ''true'')) ''backup triggered''
      else if Method r \<noteq> ''CONNECT'' \<and> clean_url (UrlPath r) \<noteq> UrlPath r then (reply 301 NoBody, None)
      else (reply 404 (TextBody ''404 page not found''), None))"

section \<open>The dashboard\<close>

text \<open>\<open>%.2fG\<close> of a number of bytes is an argument (\<open>fmt\<close> on floating-point numbers); the cells
  of a line are aligned by \<open>tabwriter\<close>.\<close>

definition dashboard_name :: "string \<Rightarrow> string" where
  "dashboard_name n = (if 15 < length n then take 12 n @ ''...'' else n)"

definition dashboard_row :: "(int \<Rightarrow> string) \<Rightarrow> JobInfo \<Rightarrow> string list" where
  "dashboard_row gib job =
     [dashboard_name (ServerName job), JobSnapshot job, State job,
      (if TotalSize job = 0 then ''Calculating...'' else gib (BytesMoved job) @ '' / '' @ gib (TotalSize job))]"

text \<open>\<open>PrintDashboardTo\<close>: the answer of the daemon (or the error of connecting or of decoding) to
  the lines written, each a list of cells.\<close>

definition PrintDashboardTo :: "(int \<Rightarrow> string) \<Rightarrow> string \<Rightarrow> (JobTracker result) result \<Rightarrow> string list list result" where
  "PrintDashboardTo gib addr answer =
     (case answer of
        Inl e \<Rightarrow> Inl (Wrapf ''cannot connect to daemon at %s'' e)
      | Inr (Inl e) \<Rightarrow> Inl (Wrapf ''parse response'' e)
      | Inr (Inr jobs) \<Rightarrow>
          Inr ([[], [''[Minecraft Backup & Archive - Live Status]''], []] @
            (if jobs = [] then [[''  No active transfers.'']]
             else [''SERVER'', ''SNAPSHOT'', ''STATE'', ''PROGRESS''] # List.map (dashboard_row gib \<circ> snd) jobs)))"

section \<open>The tracker as a map, and its users\<close>

text \<open>What a goroutine may do to the tracker.\<close>

datatype tracker_op =
    Add_op string JobInfo
  | Remove_op string
  | Update_op string string JobInfo
  | Drop_op string string

fun apply_op :: "tracker_op \<Rightarrow> JobTracker \<Rightarrow> JobTracker" where
  "apply_op (Add_op k i) jt = tracker_Add k i jt"
| "apply_op (Remove_op k) jt = tracker_Remove k jt"
| "apply_op (Update_op k s i) jt = snd (UpdateIfSnapshot k s i jt)"
| "apply_op (Drop_op k s) jt = snd (RemoveIfSnapshot k s jt)"

definition apply_ops :: "tracker_op list \<Rightarrow> JobTracker \<Rightarrow> JobTracker" where
  "apply_ops os jt = fold apply_op os jt"

text \<open>The offload worker only uses the two conditional operations, on the snapshots it works on.\<close>

fun worker_op :: "string \<Rightarrow> string set \<Rightarrow> tracker_op \<Rightarrow> bool" where
  "worker_op k S (Update_op k' s i) \<longleftrightarrow> k' = k \<and> s \<in> S \<and> JobSnapshot i \<in> S"
| "worker_op k S (Drop_op k' s) \<longleftrightarrow> k' = k \<and> s \<in> S"
| "worker_op k S _ \<longleftrightarrow> False"

lemma tracker_maps:
  "map_of (tracker_Add k i jt) = (map_of jt)(k \<mapsto> i)"
  "map_of (tracker_Remove k jt) = (map_of jt)(k := None)"
  by (simp_all add: tracker_Add_def tracker_Remove_def)

lemma apply_op_ok [simp]: "map_ok jt \<Longrightarrow> map_ok (apply_op a jt)"
  by (cases a) (simp_all add: tracker_Add_def tracker_Remove_def UpdateIfSnapshot_def RemoveIfSnapshot_def
      split: option.split)

lemma tracker_Snapshot_map: "map_ok jt \<Longrightarrow> map_of (tracker_Snapshot jt) = map_of jt"
proof -
  assume ok: "map_ok jt"
  have "map_of (fold (\<lambda>(k, v). AList.update k v) jt []) k = map_of (rev jt) k" for k
    using map_of_fold_update [of "\<lambda>k. k" "\<lambda>k v. v" jt "[]" k] by (simp split: option.split)
  moreover have "map_of (rev jt) = map_of jt" using map_of_perm [OF ok, of "rev jt"] by simp
  ultimately show ?thesis by (simp add: tracker_Snapshot_def fun_eq_iff)
qed

lemma worker_op_keeps:
  assumes "worker_op k S a" and "map_of jt k' = Some info" and "k' = k \<longrightarrow> JobSnapshot info \<notin> S"
  shows "map_of (apply_op a jt) k' = Some info"
  using assms by (cases a) (auto simp: UpdateIfSnapshot_def RemoveIfSnapshot_def split: option.splits)

section \<open>Properties\<close>

text \<open>C28: the offload worker never disturbs a newer job. Whatever sequence of its operations for
  the snapshots it works on is interleaved into the use of the tracker, an entry that stands
  for another snapshot of the server, or for another server, is neither overwritten nor
  removed; and what the status API then shows for it is that entry.\<close>

theorem tracker_isolation:
  assumes "map_ok jt" and "list_all (worker_op k S) os"
    and "map_of jt k' = Some info" and "k' = k \<longrightarrow> JobSnapshot info \<notin> S"
  shows "map_of (tracker_Snapshot (apply_ops os jt)) k' = Some info"
proof -
  have "map_ok (apply_ops os jt) \<and> map_of (apply_ops os jt) k' = Some info"
    using assms unfolding apply_ops_def
  proof (induction os arbitrary: jt)
    case (Cons a os)
    then show ?case using worker_op_keeps [of k S a jt k' info] by simp
  qed simp
  then show ?thesis by (simp add: tracker_Snapshot_map)
qed

definition demo_job :: "string \<Rightarrow> JobInfo" where
  "demo_job s = \<lparr>ServerName = ''s'', JobSnapshot = s, State = ''Saving'', BytesMoved = 0, TotalSize = 0\<rparr>"

theorem tracker_isolation_witness:
  "map_of (tracker_Snapshot (apply_ops [Update_op ''mc/s'' ''20260101-0000'' (demo_job ''20260101-0000''),
       Drop_op ''mc/s'' ''20260101-0000''] [(''mc/s'', demo_job ''20260102-0000'')])) ''mc/s''
     = Some (demo_job ''20260102-0000'')"
  by (rule tracker_isolation [where k = "''mc/s''" and S = "{''20260101-0000''}"])
    (simp_all add: map_ok_def demo_job_def)

text \<open>C29: the API acts only on a POST request to one of its three action paths, and when a token
  is configured only if the request carries exactly that token as bearer token. Every other
  request changes nothing; a refused one is answered with 401, 404 or 405, or
  redirected.\<close>

theorem mutating_requests_authorized:
  "case newStatusMux jt token r of (resp, cb) \<Rightarrow>
     (cb \<noteq> None \<longleftrightarrow> UrlPath r \<in> {''/cancel'', ''/scan'', ''/backup''} \<and> Method r = ''POST'' \<and>
        (token = [] \<or> Authorization r = ''Bearer '' @ token)) \<and>
     (cb \<noteq> None \<longrightarrow> StatusCode resp = 200) \<and>
     (cb = None \<longrightarrow> StatusCode resp \<in> {301, 401, 404, 405} \<or> UrlPath r \<in> {''/status'', ''/health''})"
proof -
  have token: "checkBearerToken r token \<longleftrightarrow> token = [] \<or> Authorization r = ''Bearer '' @ token"
    unfolding checkBearerToken_def HasPrefix_iff by (auto simp: TrimPrefix_def HasPrefix_def)
  show ?thesis unfolding newStatusMux_def guarded_post_def token by (simp add: reply_def)
qed

theorem mutating_requests_authorized_witness:
  "snd (newStatusMux [] ''secret'' \<lparr>Method = ''POST'', UrlPath = ''/backup'', Query = [(''server'', ''s'')],
      Authorization = ''Bearer secret''\<rparr>) \<noteq> None \<and>
   snd (newStatusMux [] ''secret'' \<lparr>Method = ''POST'', UrlPath = ''/backup'', Query = [(''server'', ''s'')],
      Authorization = ''Bearer Secret''\<rparr>) = None"
  using mutating_requests_authorized [where jt = "[]" and token = "''secret''" and r = "\<lparr>Method = ''POST'', UrlPath = ''/backup'',
      Query = [(''server'', ''s'')], Authorization = ''Bearer secret''\<rparr>"]
    mutating_requests_authorized [where jt = "[]" and token = "''secret''" and r = "\<lparr>Method = ''POST'', UrlPath = ''/backup'',
      Query = [(''server'', ''s'')], Authorization = ''Bearer Secret''\<rparr>"]
  by (auto split: prod.splits)

end
