(* ===== verification/Daemon.thy ===== *)
theory Daemon
  imports Backup Config_Load Last_Backup Status
begin

text \<open>
  \<open>internal/engine/daemon.go\<close>: the state of the daemon, start-up (waiting for the containers,
  finding the snapshots that exist), the backup cycle over the discovered servers, the queue of
  offload jobs and the worker that processes it, and discovery. The fields guarded by
  \<open>stateMu\<close>, \<open>autoMu\<close>, \<open>legacyMu\<close> and the tracker's mutex are fields of one record that each
  operation returns updated. What calls the scan of the watch paths returns an \<open>option\<close>, as the
  scan does.
\<close>

section \<open>State\<close>

record lastBackup =
  LastHot :: string
  LastLocal :: string
  LastNAS :: string

record offloadJob =
  JobKey :: string
  JobNamespace :: string
  JobServer :: string
  JobHotPath :: string
  JobTimestamp :: string
  ColdTarget :: string
  JobCfg :: Config
  JobWatch :: WatchConfig

record Daemon =
  cfgPath :: string
  ac :: Config
  jobTracker :: JobTracker
  lastBackups :: "(string \<times> lastBackup) list"
  offloadCh :: "offloadJob list"
  chCap :: nat
  autoServers :: "string list"
  legacyWarned :: "string list"
  cancelFn :: bool

definition NewDaemon :: "tomllib \<Rightarrow> string \<Rightarrow> Config \<Rightarrow> world \<Rightarrow> Daemon \<times> world" where
  "NewDaemon toml path cfg w =
     (let (names, w) = loadAutoServerNames toml path w
      in (\<lparr>cfgPath = path, ac = cfg, jobTracker = NewJobTracker, lastBackups = [], offloadCh = [],
           chCap = (if length (Servers cfg) < 1 then 16 else length (Servers cfg)),
           autoServers = names, legacyWarned = [], cancelFn = False\<rparr>, w))"

text \<open>\<open>Cancel\<close> cancels the context of the running cycle, if there is one.\<close>

definition Cancel :: "Daemon \<Rightarrow> bool" where
  "Cancel d = cancelFn d"

definition warnLegacyBackupDirOnce ::
  "string list \<Rightarrow> WatchConfig \<Rightarrow> string \<Rightarrow> world \<Rightarrow> string list \<times> world" where
  "warnLegacyBackupDirOnce warned watch serverName w =
     (let path = backupDir watch serverName
      in case os_ReadDir path w of
           (Inl e, w) \<Rightarrow> (warned, w)
         | (Inr entries, w) \<Rightarrow>
             if entries = [] \<or> path \<in> set warned then (warned, w)
             else (path # warned, warnLegacyBackupDir watch serverName w))"

definition scan :: "Config \<Rightarrow> Daemon \<Rightarrow> world \<Rightarrow>
    ((found list \<times> (string \<times> ServerConfig) list) \<times> Daemon \<times> world) option" where
  "scan cfg d w =
     map_option (\<lambda>(r, warned, w). (r, d\<lparr>legacyWarned := warned\<rparr>, w))
       (discoverServersWithWarning warnLegacyBackupDirOnce (Watch cfg) (Servers cfg) (legacyWarned d) w)"

definition no_backup :: lastBackup where
  "no_backup = \<lparr>LastHot = [], LastLocal = [], LastNAS = []\<rparr>"

definition last_of :: "string \<Rightarrow> Daemon \<Rightarrow> lastBackup" where
  "last_of key d = (case map_of (lastBackups d) key of Some b \<Rightarrow> b | None \<Rightarrow> no_backup)"

definition set_last :: "string \<Rightarrow> lastBackup \<Rightarrow> Daemon \<Rightarrow> Daemon" where
  "set_last key b d = d\<lparr>lastBackups := AList.update key b (lastBackups d)\<rparr>"

definition track :: "(JobTracker \<Rightarrow> JobTracker) \<Rightarrow> Daemon \<Rightarrow> Daemon" where
  "track f d = d\<lparr>jobTracker := f (jobTracker d)\<rparr>"

definition server_key :: "WatchConfig \<Rightarrow> string \<Rightarrow> string" where
  "server_key watch name = Namespace watch @ ''/'' @ name"

section \<open>Start-up\<close>

text \<open>One round over the servers: whether all are ready, whether one could be asked.\<close>

fun check_ready :: "int \<Rightarrow> found list \<Rightarrow> world \<Rightarrow> (bool \<times> bool) \<times> world" where
  "check_ready delay [] w = ((True, False), w)"
| "check_ready delay ((watch, name, server) # ss) w =
     (case containerUptime (container_of server name) w of
        (Inl e, w) \<Rightarrow> check_ready delay ss w
      | (Inr uptime, w) \<Rightarrow>
          (let ((allReady, anyCheckable), w) = check_ready delay ss w
           in ((allReady \<and> \<not> uptime < delay, True), w)))"

partial_function (option) wait_loop :: "int \<Rightarrow> int \<Rightarrow> found list \<Rightarrow> world \<Rightarrow> world option" where
  "wait_loop deadline delay servers w =
     (let (t, w) = now w
      in if deadline < t then Some w
         else (let ((allReady, anyCheckable), w) = check_ready delay servers w
               in if \<not> anyCheckable then Some (snd (wait_or_done CycleCtx w))
                  else if allReady then Some w
                  else (let (canceled, w) = wait_or_done CycleCtx w
                        in if canceled then Some w else wait_loop deadline delay servers w)))"

definition waitForContainers :: "Config \<Rightarrow> Daemon \<Rightarrow> world \<Rightarrow> (Daemon \<times> world) option" where
  "waitForContainers cfg d w =
     (case scan cfg d w of
        None \<Rightarrow> None
      | Some ((servers, _), d, w) \<Rightarrow>
          if servers = [] then Some (d, w)
          else (let (t, w) = now w; delay = InitialDelay (Global cfg)
                in map_option (\<lambda>w. (d, w)) (wait_loop (t + wrap64 (5 * delay)) delay servers w)))"

text \<open>The newest snapshot in a local directory.\<close>

definition newest_in :: "string \<Rightarrow> world \<Rightarrow> string \<times> world" where
  "newest_in dir w =
     (case os_ReadDir dir w of
        (Inl e, w) \<Rightarrow> ([], w)
      | (Inr es, w) \<Rightarrow> (let latest = latest_snapshot es in (if latest \<noteq> [] then path_join [dir, latest] else [], w)))"

definition newest_on_nas :: "NASConfig \<Rightarrow> string \<Rightarrow> world \<Rightarrow> string \<times> world" where
  "newest_on_nas nas nasDir w =
     (let ((ok, out), w) = run_cmd CycleCtx (sshBaseArgs (env_vars (w_env w)) nas @
              [ssh_host nas, latestNASSnapshotCommand nasDir]) [] w;
          nasSnap = TrimSpace out
      in (if ok \<and> nasSnap \<noteq> [] then nasDir @ ''/'' @ Base nasSnap else [], w))"

definition newer_path :: "string \<Rightarrow> string \<Rightarrow> string" where
  "newer_path stored discovered =
     (if discovered \<noteq> [] \<and> (stored = [] \<or> Base stored < Base discovered) then discovered else stored)"

definition time_of_path :: "location \<Rightarrow> string \<Rightarrow> int" where
  "time_of_path l p = (case snapshotTime l p of Some t \<Rightarrow> t | None \<Rightarrow> zero_time)"

text \<open>The time recorded for the paths found: that of the hot, local or NAS snapshot, in this
  order, or the current time.\<close>

definition found_time :: "string \<Rightarrow> string \<Rightarrow> string \<Rightarrow> world \<Rightarrow> int \<times> world" where
  "found_time hot lcl nas w =
     (let l = loc (w_env w); t1 = time_of_path l hot; t2 = time_of_path l lcl; t3 = time_of_path l (Base nas)
      in if t1 \<noteq> zero_time then (t1, w)
         else if t2 \<noteq> zero_time then (t2, w)
         else if t3 \<noteq> zero_time then (t3, w)
         else now w)"

definition discover_server ::
  "Config \<Rightarrow> (string \<times> lastSnapshotEntry) list \<Rightarrow> found \<Rightarrow> Daemon \<Rightarrow> world \<Rightarrow> Daemon \<times> world" where
  "discover_server cfg stored s d w = (case s of (watch, name, server) \<Rightarrow>
     (case resolveBackupTarget name server (Local cfg) (NAS cfg) of
        Inl e \<Rightarrow> (d, w)
      | Inr tgt \<Rightarrow>
          (let st = (case map_of stored name of Some e \<Rightarrow> e | None \<Rightarrow> zero_entry);
               (hot, w) = (if tgt = ''tiered-local'' \<or> tgt = ''tiered-nas''
                           then newest_in (path_join [HotRoot (Local cfg), Namespace watch, name]) w else ([], w));
               (lcl, w) = (if tgt = ''local'' \<or> tgt = ''tiered-local''
                           then newest_in (path_join [LocalDestRoot (Local cfg), Namespace watch, name]) w else ([], w));
               (nas, w) = (if tgt = ''nas'' \<or> tgt = ''tiered-nas''
                           then newest_on_nas (NAS cfg) (server_dir (NASDestRoot (NAS cfg)) (Namespace watch) name) w
                           else ([], w));
               finalHot = newer_path (EntryHot st) hot;
               finalLocal = newer_path (EntryLocal st) lcl;
               finalNAS = newer_path (EntryNAS st) nas;
               w = (if finalHot \<noteq> EntryHot st \<or> finalLocal \<noteq> EntryLocal st \<or> finalNAS \<noteq> EntryNAS st \<or> Time st = zero_time
                    then (let (t, w) = found_time finalHot finalLocal finalNAS w
                          in if finalHot \<noteq> [] \<or> finalLocal \<noteq> [] \<or> finalNAS \<noteq> []
                             then writeLastSnapshotAt (cfgPath d) name finalLocal finalNAS finalHot t w else w)
                    else w)
           in (set_last (server_key watch name) \<lparr>LastHot = finalHot, LastLocal = finalLocal, LastNAS = finalNAS\<rparr> d, w))))"

definition discoverSnapshots :: "Config \<Rightarrow> Daemon \<Rightarrow> world \<Rightarrow> (Daemon \<times> world) option" where
  "discoverSnapshots cfg d w =
     (let (stored, w) = readLastSnapshots (cfgPath d) w
      in case scan cfg d w of
           None \<Rightarrow> None
         | Some ((servers, _), d, w) \<Rightarrow> Some (fold (\<lambda>s (d, w). discover_server cfg stored s d w) servers (d, w)))"

section \<open>New servers\<close>

definition provisionServers :: "Config \<Rightarrow> (string \<times> ServerConfig) list \<Rightarrow> Daemon \<Rightarrow> world \<Rightarrow> Config \<times> Daemon \<times> world" where
  "provisionServers cfg newServers d w =
     (if newServers = [] then (cfg, d, w)
      else (let cfg = (cloneConfig cfg)\<lparr>Servers := fold (\<lambda>(n, s). AList.update n s) newServers (Servers (cloneConfig cfg))\<rparr>;
                names = fold (\<lambda>(n, _) ns. if n \<in> set ns then ns else ns @ [n]) newServers (autoServers d);
                auto = List.map_filter (\<lambda>n. map_option (Pair n) (map_of (Servers cfg) n)) names;
                (_, w) = SaveAutoServers (cfgPath d) auto w
            in (cfg, d\<lparr>autoServers := names\<rparr>, w)))"

section \<open>The backup cycle\<close>

definition serverMatches :: "string \<Rightarrow> string \<Rightarrow> bool" where
  "serverMatches onlyServer name \<longleftrightarrow> onlyServer = [] \<or> EqualFold onlyServer name"

definition serverNames :: "found list \<Rightarrow> string list" where
  "serverNames servers = List.map (\<lambda>(_, name, _). name) servers"

text \<open>Whether the state of the container lets the backup start. An offline backup only warns.\<close>

definition may_start :: "bool \<Rightarrow> found \<Rightarrow> world \<Rightarrow> bool \<times> world" where
  "may_start offline s w = (case s of (watch, name, server) \<Rightarrow>
     (let container = container_of server name; (running, w) = containerRunning container w
      in if offline then (True, w)
         else if \<not> running then (False, w)
         else if PauseIfNoPlayers server then
           (let (rconPass, w) = resolveRconPassword server watch name w;
                (r, w) = rconOutput CycleCtx container rconPass ''list'' w
            in case r of Inl e \<Rightarrow> (False, w) | Inr out \<Rightarrow> (countPlayers out \<noteq> 0, w))
         else (True, w)))"

definition saving_job :: "string \<Rightarrow> string \<Rightarrow> int \<times> int \<Rightarrow> JobInfo" where
  "saving_job name ts p = \<lparr>ServerName = name, JobSnapshot = ts, State = ''Saving'', BytesMoved = fst p, TotalSize = snd p\<rparr>"

text \<open>The progress shown: the bytes as reported, the largest total so far.\<close>

fun shown_progress :: "int \<Rightarrow> progress \<Rightarrow> progress" where
  "shown_progress maxTotal [] = []"
| "shown_progress maxTotal ((b, t) # ps) =
     (let m = (if maxTotal < t then t else maxTotal) in (b, m) # shown_progress m ps)"

text \<open>A finished backup with target nas or local: record it, prune, write \<open>.last-backup\<close>.\<close>

definition finish_direct :: "Config \<Rightarrow> WatchConfig \<Rightarrow> string \<Rightarrow> backupResult \<Rightarrow> Daemon \<Rightarrow> world \<Rightarrow> Daemon \<times> world" where
  "finish_direct cfg watch name res d w =
     (let key = server_key watch name;
          b = (if target res = ''nas'' then (last_of key d)\<lparr>LastNAS := destination res\<rparr>
               else (last_of key d)\<lparr>LastLocal := destination res\<rparr>);
          d = set_last key b d;
          w = (if target res = ''nas'' then
                 (let (_, w) = pruneNASByDays CycleCtx (NAS cfg) (NASDestRoot (NAS cfg)) (Namespace watch) name (PruneDays (Retention cfg)) w
                  in snd (pruneNASByCount CycleCtx (NAS cfg) (NASDestRoot (NAS cfg)) (Namespace watch) name (PruneCount (Retention cfg)) w))
               else
                 (let localPath = path_join [LocalDestRoot (Local cfg), Namespace watch, name]; (t, w) = now w
                  in pruneLocalByCount localPath (PruneCount (Retention cfg))
                       (pruneLocalByDays localPath (PruneDays (Retention cfg)) t w)))
      in (track (tracker_Remove key) d, writeLastSnapshot (cfgPath d) name (LastLocal b) (LastNAS b) (LastHot b) w))"

text \<open>A finished hot backup: record it and queue its offload; a full queue drops the job.\<close>

definition queue_offload :: "Config \<Rightarrow> WatchConfig \<Rightarrow> string \<Rightarrow> backupResult \<Rightarrow> Daemon \<Rightarrow> world \<Rightarrow> Daemon \<times> world" where
  "queue_offload cfg watch name res d w =
     (let key = server_key watch name;
          b = (last_of key d)\<lparr>LastHot := destination res\<rparr>;
          d = set_last key b d;
          w = writeLastSnapshot (cfgPath d) name (LastLocal b) (LastNAS b) (LastHot b) w;
          d = track (tracker_Add key \<lparr>ServerName = name, JobSnapshot = timestamp res, State = ''Waiting Offload'',
                BytesMoved = 0, TotalSize = 0\<rparr>) d;
          job = \<lparr>JobKey = key, JobNamespace = Namespace watch, JobServer = name, JobHotPath = destination res,
                JobTimestamp = timestamp res, ColdTarget = (if target res = ''tiered-nas'' then ''nas'' else ''local''),
                JobCfg = cfg, JobWatch = watch\<rparr>
      in if length (offloadCh d) < chCap d then (d\<lparr>offloadCh := offloadCh d @ [job]\<rparr>, w)
         else (track (\<lambda>jt. snd (RemoveIfSnapshot key (timestamp res) jt)) d, w))"

text \<open>The body of the loop over the servers, once the context was found not to be done.\<close>

definition backup_found :: "Config \<Rightarrow> string \<Rightarrow> bool \<Rightarrow> found \<Rightarrow> Daemon \<Rightarrow> world \<Rightarrow> Daemon \<times> world" where
  "backup_found cfg onlyServer offline s d w = (case s of (watch, name, server) \<Rightarrow>
     if \<not> Enabled server \<or> \<not> serverMatches onlyServer name then (d, w)
     else
       (let (start, w) = may_start offline s w
        in if \<not> start then (d, w)
           else
             (let key = server_key watch name; prev = last_of key d; (ts, w) = now_stamp w;
                  d = track (tracker_Add key (saving_job name ts (0, 0))) d;
                  ((r, pg), w) = BackupServer cfg watch name server (LastHot prev) (LastLocal prev) (LastNAS prev) offline w;
                  d = track (fold (\<lambda>p. tracker_Add key (saving_job name ts p)) (shown_progress 0 pg)) d
              in case r of
                   Inl e \<Rightarrow> (track (tracker_Remove key) d, w)
                 | Inr res \<Rightarrow>
                     if \<not> offloadPending res then finish_direct cfg watch name res d w
                     else queue_offload cfg watch name res d w)))"

fun cycle_loop :: "Config \<Rightarrow> string \<Rightarrow> bool \<Rightarrow> found list \<Rightarrow> Daemon \<Rightarrow> world \<Rightarrow> Daemon \<times> world" where
  "cycle_loop cfg onlyServer offline [] d w = (d, w)"
| "cycle_loop cfg onlyServer offline (s # ss) d w =
     (let (canceled, w) = wait_or_done CycleCtx w
      in if canceled then (d, w)
         else (let (d, w) = backup_found cfg onlyServer offline s d w
               in cycle_loop cfg onlyServer offline ss d w))"

text \<open>The beginning of a cycle: the configuration it works with and the servers.\<close>

definition cycle_start :: "Daemon \<Rightarrow> world \<Rightarrow> ((Config \<times> found list) \<times> Daemon \<times> world) option" where
  "cycle_start d w =
     (case scan (ac d) (d\<lparr>cancelFn := True\<rparr>) w of
        None \<Rightarrow> None
      | Some ((servers, newServers), d', w) \<Rightarrow>
          (let (cfg, d', w) = provisionServers (ac d) newServers d' w in Some ((cfg, servers), d', w)))"

definition runBackupCycle :: "string \<Rightarrow> bool \<Rightarrow> Daemon \<Rightarrow> world \<Rightarrow> (Daemon \<times> world) option" where
  "runBackupCycle onlyServer offline d w =
     map_option (\<lambda>((cfg, servers), d, w).
         (let (d, w) = cycle_loop cfg onlyServer offline servers d w in (d\<lparr>cancelFn := False\<rparr>, w)))
       (cycle_start d w)"

text \<open>\<open>runDiscovery\<close>; the flag says whether it starts a backup cycle.\<close>

definition runDiscovery :: "Daemon \<Rightarrow> world \<Rightarrow> (bool \<times> Daemon \<times> world) option" where
  "runDiscovery d w =
     (case scan (ac d) d w of
        None \<Rightarrow> None
      | Some ((_, newServers), d, w) \<Rightarrow>
          (let (_, d, w) = provisionServers (ac d) newServers d w in Some (newServers \<noteq> [], d, w)))"

end
