(* ===== verification/Daemon_Run.thy ===== *)
theory Daemon_Run
  imports Daemon
begin

text \<open>
  \<open>internal/engine/daemon.go\<close>: the offload worker, the start-up of \<open>RunContext\<close> and the running
  daemon as a step relation. A step is the beginning of a cycle, the backup of one server, the end
  of a cycle, one offload job, one discovery, one reload of the configuration, or a change
  made by something outside the program. The cycle holds \<open>cycleMu\<close>, so there is one at a
  time; the worker is a single goroutine and processes one job after the other.
\<close>

section \<open>The offload worker\<close>

definition cold_of :: "string \<Rightarrow> lastBackup \<Rightarrow> string" where
  "cold_of tgt b = (if tgt = ''nas'' then LastNAS b else LastLocal b)"

definition cold_info :: "offloadJob \<Rightarrow> string \<Rightarrow> int \<times> int \<Rightarrow> JobInfo" where
  "cold_info job snap p =
     \<lparr>ServerName = JobServer job, JobSnapshot = snap,
      State = (if ColdTarget job = ''nas'' then ''Transferring (NAS)'' else ''Transferring (Local HDD)''),
      BytesMoved = fst p, TotalSize = snd p\<rparr>"

definition drop_job :: "offloadJob \<Rightarrow> string \<Rightarrow> Daemon \<Rightarrow> Daemon" where
  "drop_job job snap d = track (\<lambda>jt. snd (RemoveIfSnapshot (JobKey job) snap jt)) d"

definition show_job :: "offloadJob \<Rightarrow> string \<Rightarrow> int \<times> int \<Rightarrow> Daemon \<Rightarrow> Daemon" where
  "show_job job snap p d = track (\<lambda>jt. snd (UpdateIfSnapshot (JobKey job) snap (cold_info job snap p) jt)) d"

text \<open>\<open>onProgress\<close>: the entry of the snapshot that is moved, then that of the job.\<close>

definition show_progress :: "offloadJob \<Rightarrow> string \<Rightarrow> int \<times> int \<Rightarrow> Daemon \<Rightarrow> Daemon" where
  "show_progress job ts p d =
     (let d = show_job job ts p d
      in if ts \<noteq> JobTimestamp job then show_job job (JobTimestamp job) p d else d)"

text \<open>The two removals at the end of a job.\<close>

definition drop_both :: "offloadJob \<Rightarrow> string \<Rightarrow> Daemon \<Rightarrow> Daemon" where
  "drop_both job ts d = drop_job job ts (drop_job job (JobTimestamp job) d)"

definition offloaded :: "string \<Rightarrow> string \<Rightarrow> string \<Rightarrow> lastBackup \<Rightarrow> lastBackup" where
  "offloaded tgt hot cold b =
     (let b = (if tgt = ''nas'' then b\<lparr>LastNAS := cold\<rparr> else b\<lparr>LastLocal := cold\<rparr>)
      in if LastHot b = [] \<or> Base (LastHot b) \<le> Base hot then b\<lparr>LastHot := hot\<rparr> else b)"

text \<open>The pruning after a successful offload: the cold place, then the hot one.\<close>

definition prune_cold :: "offloadJob \<Rightarrow> world \<Rightarrow> world" where
  "prune_cold job w =
     (let cfg = JobCfg job; ns = JobNamespace job; name = JobServer job
      in if ColdTarget job = ''nas'' then
           (let (_, w) = pruneNASByDays CycleCtx (NAS cfg) (NASDestRoot (NAS cfg)) ns name (PruneDays (Retention cfg)) w
            in snd (pruneNASByCount CycleCtx (NAS cfg) (NASDestRoot (NAS cfg)) ns name (PruneCount (Retention cfg)) w))
         else
           (let localPath = path_join [LocalDestRoot (Local cfg), ns, name]; (t, w) = now w
            in pruneLocalByCount localPath (PruneCount (Retention cfg))
                 (pruneLocalByDays localPath (PruneDays (Retention cfg)) t w)))"

definition prune_hot :: "offloadJob \<Rightarrow> world \<Rightarrow> world" where
  "prune_hot job w =
     (let cfg = JobCfg job;
          hotPath = path_join [HotRoot (Local cfg), JobNamespace job, JobServer job]; (t, w) = now w
      in pruneLocalByCount hotPath (HotPruneCount (Retention cfg))
           (pruneLocalByDays hotPath (HotPruneDays (Retention cfg)) t w))"

text \<open>What follows a successful transfer of \<open>hot\<close> to \<open>cold\<close>.\<close>

definition finish_offload :: "offloadJob \<Rightarrow> string \<Rightarrow> string \<Rightarrow> Daemon \<Rightarrow> world \<Rightarrow> Daemon \<times> world" where
  "finish_offload job hot cold d w =
     (let b = offloaded (ColdTarget job) hot cold (last_of (JobKey job) d);
          d = set_last (JobKey job) b d;
          w = writeLastSnapshotAt (cfgPath d) (JobServer job) (LastLocal b) (LastNAS b) (LastHot b)
                (time_of_path (loc (w_env w)) hot) w
      in (drop_both job (Base hot) d, prune_hot job (prune_cold job w)))"

definition transfer_job :: "offloadJob \<Rightarrow> string \<Rightarrow> string \<Rightarrow> Daemon \<Rightarrow> world \<Rightarrow> unit result \<times> Daemon \<times> world" where
  "transfer_job job hot prevCold d w =
     (let ts = Base hot;
          d = show_job job (JobTimestamp job) (0, 0) d;
          d = (if ts \<noteq> JobTimestamp job then show_job job ts (0, 0) d else d);
          ((r, pg), w) = offloadSnapshot (JobCfg job) (JobWatch job) (JobServer job) hot ts (ColdTarget job) prevCold w;
          d = fold (show_progress job ts) (shown_progress 0 pg) d
      in case r of
           Inl e \<Rightarrow> (Inl e, drop_both job ts d, w)
         | Inr cold \<Rightarrow> (Inr (), finish_offload job hot cold d w))"

definition processOffloadJob :: "offloadJob \<Rightarrow> Daemon \<Rightarrow> world \<Rightarrow> unit result \<times> Daemon \<times> world" where
  "processOffloadJob job d w =
     (let (hot, w) = newest_in (path_join [HotRoot (Local (JobCfg job)), JobNamespace job, JobServer job]) w;
          prevCold = cold_of (ColdTarget job) (last_of (JobKey job) d)
      in if hot = [] \<or> (prevCold \<noteq> [] \<and> Base hot \<le> Base prevCold)
         then (Inr (), drop_job job (JobTimestamp job) d, w)
         else if 0 < TransferDelay (Global (JobCfg job)) then
           (let (canceled, w) = wait_or_done CycleCtx w
            in if canceled then (Inl CtxCanceled, drop_job job (JobTimestamp job) d, w)
               else transfer_job job hot prevCold d w)
         else transfer_job job hot prevCold d w)"

section \<open>Start-up\<close>

fun watchKey :: "WatchConfig list \<Rightarrow> string \<Rightarrow> world \<Rightarrow> string \<times> world" where
  "watchKey [] serverName w = ([], w)"
| "watchKey (wc # ws) serverName w =
     (case os_ReadDir (path_join [Path wc, serverName]) w of
        (Inr _, w) \<Rightarrow> (Namespace wc @ ''/'' @ serverName, w)
      | (Inl _, w) \<Rightarrow> watchKey ws serverName w)"

definition disabled :: "Config \<Rightarrow> string \<Rightarrow> bool" where
  "disabled cfg name = (case map_of (Servers cfg) name of Some s \<Rightarrow> \<not> Enabled s | None \<Rightarrow> False)"

text \<open>The stored paths are taken over for the servers that were not discovered.\<close>

definition merge_stored :: "Config \<Rightarrow> string \<times> lastSnapshotEntry \<Rightarrow> Daemon \<Rightarrow> world \<Rightarrow> Daemon \<times> world" where
  "merge_stored cfg s d w = (case s of (name, snap) \<Rightarrow>
     if disabled cfg name then (d, w)
     else (let (key, w) = watchKey (Watch cfg) name w
           in if key \<noteq> [] \<and> map_of (lastBackups d) key = None
              then (set_last key \<lparr>LastHot = EntryHot snap, LastLocal = EntryLocal snap, LastNAS = EntryNAS snap\<rparr> d, w)
              else (d, w)))"

text \<open>The names backed up within the interval, and the others.\<close>

fun recent_due :: "Config \<Rightarrow> (string \<times> lastSnapshotEntry) list \<Rightarrow> world \<Rightarrow> (string list \<times> string list) \<times> world" where
  "recent_due cfg [] w = (([], []), w)"
| "recent_due cfg ((name, snap) # ss) w =
     (if disabled cfg name then recent_due cfg ss w
      else (let (t, w) = now w; ((rec, due), w) = recent_due cfg ss w
            in (if saturate64 (t - Time snap) < BackupInterval (Global cfg)
                then (name # rec, due) else (rec, name # due), w)))"

text \<open>\<open>RunContext\<close> up to its loop. The flag says whether there is an initial cycle.\<close>

definition start_up :: "Daemon \<Rightarrow> world \<Rightarrow> (bool \<times> Daemon \<times> world) option" where
  "start_up d w =
     (let cfg = ac d
      in case waitForContainers cfg d w of
           None \<Rightarrow> None
         | Some (d, w) \<Rightarrow>
        (case discoverSnapshots cfg d w of
           None \<Rightarrow> None
         | Some (d, w) \<Rightarrow>
             (let (snapshots, w) = readLastSnapshots (cfgPath d) w;
                  (d, w) = fold (\<lambda>s (d, w). merge_stored cfg s d w) snapshots (d, w);
                  ((rec, due), w) = recent_due cfg snapshots w
              in Some (due \<noteq> [] \<or> rec = [], d, w))))"

text \<open>After a cycle of the backup ticker: the configuration the loop remembers, and the new period if the
  ticker is reset.\<close>

definition after_tick :: "Config \<Rightarrow> Config \<Rightarrow> Config \<times> int option" where
  "after_tick cfg newCfg =
     (let newInterval = BackupInterval (Global newCfg)
      in if newInterval \<noteq> BackupInterval (Global cfg) then (newCfg, Some newInterval) else (cfg, None))"

section \<open>The running daemon\<close>

text \<open>A running cycle: its configuration, the server it is for, whether it is an offline one,
  and the servers left.\<close>

record cycle =
  CycleCfg :: Config
  OnlyServer :: string
  Offline :: bool
  Pending :: "found list"

type_synonym sys = "Daemon \<times> cycle option \<times> world"

inductive daemon_step :: "sys \<Rightarrow> sys \<Rightarrow> bool" where
  cycle_begins:
    "cycle_start d w = Some ((cfg, servers), d', w') \<Longrightarrow>
     daemon_step (d, None, w)
       (d', Some \<lparr>CycleCfg = cfg, OnlyServer = only, Offline = off, Pending = servers\<rparr>, w')"
| server_done:
    "Pending c = s # ss \<Longrightarrow> wait_or_done CycleCtx w = (False, w1) \<Longrightarrow>
     backup_found (CycleCfg c) (OnlyServer c) (Offline c) s d w1 = (d', w') \<Longrightarrow>
     daemon_step (d, Some c, w) (d', Some (c\<lparr>Pending := ss\<rparr>), w')"
| cycle_canceled:
    "Pending c = s # ss \<Longrightarrow> wait_or_done CycleCtx w = (True, w1) \<Longrightarrow>
     daemon_step (d, Some c, w) (d, Some (c\<lparr>Pending := []\<rparr>), w1)"
| cycle_ends:
    "Pending c = [] \<Longrightarrow> daemon_step (d, Some c, w) (d\<lparr>cancelFn := False\<rparr>, None, w)"
| job_done:
    "offloadCh d = job # jobs \<Longrightarrow>
     processOffloadJob job (d\<lparr>offloadCh := jobs\<rparr>) w = (r, d', w') \<Longrightarrow>
     daemon_step (d, c, w) (d', c, w')"
| discovery:
    "runDiscovery d w = Some (starts, d', w') \<Longrightarrow> daemon_step (d, c, w) (d', c, w')"
| reload:
    "handle_event gl toml (cfgPath d) ev (ac d, w) = (cfg', w') \<Longrightarrow>
     daemon_step (d, c, w) (d\<lparr>ac := cfg'\<rparr>, c, w')"
| outside:
    "daemon_step (d, c, w) (d, c, w\<lparr>w_fs := f, w_tick := k\<rparr>)"

definition daemon_runs :: "sys \<Rightarrow> sys \<Rightarrow> bool" where
  "daemon_runs = daemon_step\<^sup>*\<^sup>*"

inductive_cases daemon_stepE: "daemon_step (d, c, w) s"

end
