(* ===== verification/Daemon_Laws.thy ===== *)
theory Daemon_Laws
  imports Daemon_Run
begin

text \<open>
  Laws of the daemon: what each operation does to the queue of offload jobs, the tracker
  and the table of the last backups; an invariant of the running daemon, by induction over its
  steps; which servers a cycle touches; that an offload that fails or has nothing to do leaves the
  hot snapshots alone; and that waiting for the containers ends.
\<close>

section \<open>The tracker and a job\<close>

text \<open>From one tracker to another, entries were only added for snapshots of a set and one server.\<close>

definition tracker_within :: "string \<Rightarrow> string set \<Rightarrow> JobTracker \<Rightarrow> JobTracker \<Rightarrow> bool" where
  "tracker_within key S jt jt' \<longleftrightarrow>
     (\<forall>k i. map_of jt' k = Some i \<longrightarrow> map_of jt k = Some i \<or> (k = key \<and> JobSnapshot i \<in> S))"

lemma tracker_within_refl [simp]: "tracker_within key S jt jt"
  by (simp add: tracker_within_def)

lemma tracker_within_trans:
  "tracker_within key S a b \<Longrightarrow> tracker_within key S b c \<Longrightarrow> tracker_within key S a c"
  unfolding tracker_within_def by blast

lemma show_job_within: "s \<in> S \<Longrightarrow> tracker_within (JobKey job) S (jobTracker d) (jobTracker (show_job job s p d))"
  by (auto simp: tracker_within_def show_job_def track_def UpdateIfSnapshot_def cold_info_def
      split: option.splits if_splits)

lemma show_progress_within:
  "ts \<in> S \<Longrightarrow> JobTimestamp job \<in> S \<Longrightarrow>
     tracker_within (JobKey job) S (jobTracker d) (jobTracker (show_progress job ts p d))"
  unfolding show_progress_def Let_def
  using show_job_within [of ts S job d p] show_job_within [of "JobTimestamp job" S job "show_job job ts p d" p]
  by (auto intro: tracker_within_trans)

lemma fold_progress_within:
  "ts \<in> S \<Longrightarrow> JobTimestamp job \<in> S \<Longrightarrow>
     tracker_within (JobKey job) S (jobTracker d) (jobTracker (fold (show_progress job ts) ps d))"
proof (induction ps arbitrary: d)
  case (Cons p ps)
  from Cons.IH [OF Cons.prems, of "show_progress job ts p d"] show_progress_within [OF Cons.prems, of d p]
  show ?case by (simp add: tracker_within_trans)
qed simp

lemma drop_job_map:
  "map_of (jobTracker (drop_job job s d)) k = Some i \<longleftrightarrow>
     map_of (jobTracker d) k = Some i \<and> \<not> (k = JobKey job \<and> JobSnapshot i = s)"
  by (auto simp: drop_job_def track_def RemoveIfSnapshot_def split: option.splits)

text \<open>Once a job is over no entry for its snapshots is left.\<close>

lemma drop_both_after:
  assumes "tracker_within (JobKey job) {ts, JobTimestamp job} (jobTracker d) (jobTracker d')"
    and "map_of (jobTracker (drop_both job ts d')) k = Some i"
  shows "map_of (jobTracker d) k = Some i \<and> \<not> (k = JobKey job \<and> JobSnapshot i = JobTimestamp job)"
  using assms by (auto simp: drop_both_def drop_job_map tracker_within_def)

section \<open>What the operations leave alone\<close>

text \<open>The fields that hold the state of the queue.\<close>

definition same_queue :: "Daemon \<Rightarrow> Daemon \<Rightarrow> bool" where
  "same_queue d d' \<longleftrightarrow> offloadCh d' = offloadCh d \<and> chCap d' = chCap d \<and> cancelFn d' = cancelFn d \<and>
     cfgPath d' = cfgPath d"

definition same_state :: "Daemon \<Rightarrow> Daemon \<Rightarrow> bool" where
  "same_state d d' \<longleftrightarrow> same_queue d d' \<and> jobTracker d' = jobTracker d \<and> lastBackups d' = lastBackups d"

lemma same_queue_refl [simp]: "same_queue d d"
  by (simp add: same_queue_def)

lemma same_queue_trans: "same_queue a b \<Longrightarrow> same_queue b c \<Longrightarrow> same_queue a c"
  by (simp add: same_queue_def)

lemma same_state_refl [simp]: "same_state d d"
  by (simp add: same_state_def)

lemma same_state_trans: "same_state a b \<Longrightarrow> same_state b c \<Longrightarrow> same_state a c"
  by (auto simp: same_state_def intro: same_queue_trans)

lemma track_queue [simp]: "same_queue d (track f d') \<longleftrightarrow> same_queue d d'"
  by (simp add: same_queue_def track_def)

lemma set_last_queue [simp]: "same_queue d (set_last k b d') \<longleftrightarrow> same_queue d d'"
  by (simp add: same_queue_def set_last_def)

lemma track_lasts [simp]: "lastBackups (track f d) = lastBackups d"
  by (simp add: track_def)

lemma set_last_lasts [simp]:
  "map_of (lastBackups (set_last k b d)) = (map_of (lastBackups d))(k \<mapsto> b)" "jobTracker (set_last k b d) = jobTracker d"
  by (simp_all add: set_last_def)

lemma track_tracker [simp]: "jobTracker (track f d) = f (jobTracker d)"
  by (simp add: track_def)

lemma job_queue [simp]:
  "same_queue d (drop_job job s d') \<longleftrightarrow> same_queue d d'" "same_queue d (show_job job s p d') \<longleftrightarrow> same_queue d d'"
  "same_queue d (drop_both job s d') \<longleftrightarrow> same_queue d d'" "same_queue d (show_progress job s p d') \<longleftrightarrow> same_queue d d'"
  "lastBackups (drop_job job s d) = lastBackups d" "lastBackups (show_job job s p d) = lastBackups d"
  "lastBackups (drop_both job s d) = lastBackups d" "lastBackups (show_progress job s p d) = lastBackups d"
  by (simp_all add: drop_job_def show_job_def drop_both_def show_progress_def Let_def)

lemma fold_progress_queue [simp]:
  "same_queue d (fold (show_progress job s) ps d') \<longleftrightarrow> same_queue d d'"
  "lastBackups (fold (show_progress job s) ps d') = lastBackups d'"
  by (induction ps arbitrary: d') simp_all

lemma scan_state: "scan cfg d w = Some (r, d', w') \<Longrightarrow> same_state d d'"
  by (auto simp: scan_def same_state_def same_queue_def)

lemma provision_state: "provisionServers cfg new d w = (cfg', d', w') \<Longrightarrow> same_state d d'"
  by (auto simp: provisionServers_def same_state_def same_queue_def Let_def split: if_splits prod.splits)

lemma runDiscovery_state: "runDiscovery d w = Some (b, d', w') \<Longrightarrow> same_state d d'"
  by (auto simp: runDiscovery_def split: option.splits prod.splits
      intro: same_state_trans dest!: scan_state provision_state)

lemma cycle_start_state:
  "cycle_start d w = Some (r, d', w') \<Longrightarrow> same_state (d\<lparr>cancelFn := True\<rparr>) d'"
  by (auto simp: cycle_start_def split: option.splits prod.splits
      intro: same_state_trans dest!: scan_state provision_state)

section \<open>The queue\<close>

definition job_ok :: "offloadJob \<Rightarrow> bool" where
  "job_ok job \<longleftrightarrow> JobKey job = server_key (JobWatch job) (JobServer job) \<and>
     JobNamespace job = Namespace (JobWatch job) \<and> ColdTarget job \<in> {''local'', ''nas''} \<and>
     JobHotPath job = path_join [path_join [HotRoot (Local (JobCfg job)), JobNamespace job, JobServer job], JobTimestamp job]"

text \<open>The queue is within its bound, its jobs are well formed and have an entry among the last
  backups; and every entry of the tracker belongs to a job of the queue.\<close>

definition queue_ok :: "Daemon \<Rightarrow> bool" where
  "queue_ok d \<longleftrightarrow> length (offloadCh d) \<le> chCap d \<and> list_all job_ok (offloadCh d) \<and>
     (\<forall>job\<in>set (offloadCh d). map_of (lastBackups d) (JobKey job) \<noteq> None) \<and>
     (\<forall>k i. map_of (jobTracker d) k = Some i \<longrightarrow>
        (\<exists>job\<in>set (offloadCh d). JobKey job = k \<and> JobTimestamp job = JobSnapshot i))"

lemma queue_ok_state: "same_state d d' \<Longrightarrow> queue_ok d' \<longleftrightarrow> queue_ok d"
  by (simp add: same_state_def same_queue_def queue_ok_def)

text \<open>A backup whose offload is pending is a tiered one, and where its snapshot is.\<close>

definition pending_ok :: "Config \<Rightarrow> WatchConfig \<Rightarrow> string \<Rightarrow> backupResult result \<Rightarrow> bool" where
  "pending_ok cfg watch name r \<longleftrightarrow> (\<forall>res. r = Inr res \<and> offloadPending res \<longrightarrow>
     target res \<in> {''tiered-local'', ''tiered-nas''} \<and>
     destination res = path_join [path_join [HotRoot (Local cfg), Namespace watch, name], timestamp res])"

lemma pending_ok_Inl [simp]: "pending_ok cfg watch name (Inl e)"
  by (simp add: pending_ok_def)

lemma pending_branches:
  "pending_ok cfg watch name (fst (fst (backup_nas cfg watch name d x p ts w)))"
  "pending_ok cfg watch name (fst (fst (backup_local cfg watch name d x p ts w)))"
  "t \<in> {''tiered-local'', ''tiered-nas''} \<Longrightarrow> pending_ok cfg watch name (fst (fst (backup_tiered cfg watch name t d x p ts w)))"
  by (auto simp: pending_ok_def backup_nas_def backup_local_def backup_tiered_def Let_def split: prod.splits sum.splits)

lemma pending_transfer: "pending_ok cfg watch name (fst (fst (backup_transfer cfg watch name server tgt h l n w)))"
  using pending_branches by (simp add: backup_transfer_def Let_def split: prod.split)

lemma pending_save_on: "pending_ok cfg watch name (fst (fst rw)) \<Longrightarrow> pending_ok cfg watch name (fst (fst (save_on c pw rw)))"
  by (auto simp: save_on_def pending_ok_def split: prod.splits sum.splits)

lemma pending_result:
  assumes "BackupServer cfg watch name server h l n off w = ((r, pg), w')"
  shows "pending_ok cfg watch name r"
proof -
  have "pending_ok cfg watch name (fst (fst (BackupServer cfg watch name server h l n off w)))"
    using pending_transfer
    by (auto simp: BackupServer_def Let_def intro!: pending_save_on split: sum.split prod.split)
  then show ?thesis using assms by simp
qed

section \<open>One server of a cycle\<close>

text \<open>A backup changes the tables for its key only, and leaves there no entry of the tracker, or one
  for the job it has queued.\<close>

definition off_key :: "string \<Rightarrow> Daemon \<Rightarrow> Daemon \<Rightarrow> bool" where
  "off_key key d d' \<longleftrightarrow> chCap d' = chCap d \<and> cancelFn d' = cancelFn d \<and> cfgPath d' = cfgPath d \<and>
     (\<forall>k. k \<noteq> key \<longrightarrow> map_of (lastBackups d') k = map_of (lastBackups d) k \<and>
        map_of (jobTracker d') k = map_of (jobTracker d) k) \<and>
     (map_of (lastBackups d) key \<noteq> None \<longrightarrow> map_of (lastBackups d') key \<noteq> None)"

definition backup_idle :: "string \<Rightarrow> Daemon \<Rightarrow> Daemon \<Rightarrow> bool" where
  "backup_idle key d d' \<longleftrightarrow> off_key key d d' \<and> offloadCh d' = offloadCh d \<and> map_of (jobTracker d') key = None"

definition backup_queued :: "string \<Rightarrow> Daemon \<Rightarrow> Daemon \<Rightarrow> bool" where
  "backup_queued key d d' \<longleftrightarrow> off_key key d d' \<and> length (offloadCh d) < chCap d \<and>
     map_of (lastBackups d') key \<noteq> None \<and>
     (\<exists>job i. offloadCh d' = offloadCh d @ [job] \<and> job_ok job \<and> JobKey job = key \<and>
        map_of (jobTracker d') key = Some i \<and> JobSnapshot i = JobTimestamp job)"

lemma tracker_Add_map: "map_of (tracker_Add k i jt) = (map_of jt)(k \<mapsto> i)"
  by (rule tracker_maps)

lemma saving_tracker:
  "k \<noteq> key \<Longrightarrow> map_of (fold (\<lambda>p. tracker_Add key (saving_job name ts p)) ps jt) k = map_of jt k"
  by (induction ps arbitrary: jt) (simp_all add: tracker_Add_map)

text \<open>While the backup runs the tables may differ at the key of the server only.\<close>

definition saving :: "string \<Rightarrow> Daemon \<Rightarrow> Daemon \<Rightarrow> bool" where
  "saving key d d' \<longleftrightarrow> same_queue d d' \<and> lastBackups d' = lastBackups d \<and>
     (\<forall>k. k \<noteq> key \<longrightarrow> map_of (jobTracker d') k = map_of (jobTracker d) k)"

lemma saving_started:
  "saving key d (track (fold (\<lambda>p. tracker_Add key (saving_job name ts p)) ps)
     (track (tracker_Add key (saving_job name ts p0)) d))"
  by (simp add: saving_def saving_tracker tracker_Add_map)

lemma saving_failed: "saving key d d1 \<Longrightarrow> backup_idle key d (track (tracker_Remove key) d1)"
  by (simp add: saving_def backup_idle_def off_key_def same_queue_def tracker_maps)
    (simp add: track_def)

lemma saving_direct:
  "saving (server_key watch name) d d1 \<Longrightarrow> finish_direct cfg watch name res d1 w = (d', w') \<Longrightarrow>
     backup_idle (server_key watch name) d d'"
  by (auto simp: finish_direct_def Let_def saving_def backup_idle_def off_key_def same_queue_def tracker_maps)
    (simp_all add: track_def set_last_def)

lemma saving_queued:
  assumes "saving (server_key watch name) d d1" and "queue_offload cfg watch name res d1 w = (d', w')"
    and "pending_ok cfg watch name (Inr res)" and "offloadPending res"
  shows "backup_idle (server_key watch name) d d' \<or> backup_queued (server_key watch name) d d'"
proof (cases "length (offloadCh d1) < chCap d1")
  case True
  then have "backup_queued (server_key watch name) d d'"
    using assms
    by (auto simp: queue_offload_def Let_def saving_def backup_queued_def off_key_def same_queue_def tracker_Add_map
        job_ok_def pending_ok_def track_def set_last_def)
  then show ?thesis ..
next
  case False
  then have "backup_idle (server_key watch name) d d'"
    using assms(1,2)
    by (auto simp: queue_offload_def Let_def saving_def backup_idle_def off_key_def same_queue_def tracker_Add_map
        RemoveIfSnapshot_def track_def set_last_def)
  then show ?thesis ..
qed

lemma backup_found_effect:
  assumes "backup_found cfg only off (watch, name, server) d w = (d', w')"
  shows "d' = d \<or> (Enabled server \<and> serverMatches only name \<and>
    (backup_idle (server_key watch name) d d' \<or> backup_queued (server_key watch name) d d'))"
proof (cases "Enabled server \<and> serverMatches only name")
  case False
  then show ?thesis using assms by (auto simp: backup_found_def)
next
  case sel: True
  obtain start w1 where 1: "may_start off (watch, name, server) w = (start, w1)" by fastforce
  show ?thesis
  proof (cases start)
    case False
    then show ?thesis using assms sel 1 by (simp add: backup_found_def)
  next
    case True
    let ?key = "server_key watch name"
    obtain ts w2 where 2: "now_stamp w1 = (ts, w2)" by fastforce
    obtain r pg w3 where 3: "BackupServer cfg watch name server (LastHot (last_of ?key d))
        (LastLocal (last_of ?key d)) (LastNAS (last_of ?key d)) off w2 = ((r, pg), w3)" by (metis prod.exhaust)
    note pend = pending_result [OF 3]
    define d1 where "d1 = track (fold (\<lambda>p. tracker_Add ?key (saving_job name ts p)) (shown_progress 0 pg))
        (track (tracker_Add ?key (saving_job name ts (0, 0))) d)"
    have sv: "saving ?key d d1" unfolding d1_def by (rule saving_started)
    note run = assms [unfolded backup_found_def Let_def prod.case 1 2 3, folded d1_def]
    show ?thesis
    proof (cases r)
      case (Inl e)
      then have "d' = track (tracker_Remove ?key) d1" using run sel True by simp
      then show ?thesis using saving_failed [OF sv] sel by simp
    next
      case (Inr res)
      show ?thesis
      proof (cases "offloadPending res")
        case True
        then have "queue_offload cfg watch name res d1 w3 = (d', w')" using run sel \<open>start\<close> Inr by simp
        from saving_queued [OF sv this _ True] show ?thesis using pend Inr sel by simp
      next
        case False
        then have "finish_direct cfg watch name res d1 w3 = (d', w')" using run sel \<open>start\<close> Inr by simp
        from saving_direct [OF sv this] show ?thesis using sel by simp
      qed
    qed
  qed
qed

lemma backup_idle_ok: "queue_ok d \<Longrightarrow> backup_idle key d d' \<Longrightarrow> queue_ok d'"
  unfolding queue_ok_def backup_idle_def off_key_def by (metis option.distinct(1))

lemma backup_queued_ok:
  assumes "queue_ok d" and "backup_queued key d d'"
  shows "queue_ok d'"
proof -
  obtain job i where j: "offloadCh d' = offloadCh d @ [job]" "job_ok job" "JobKey job = key"
    "map_of (jobTracker d') key = Some i" "JobSnapshot i = JobTimestamp job"
    using assms(2) by (auto simp: backup_queued_def)
  have off: "off_key key d d'" "length (offloadCh d) < chCap d" "map_of (lastBackups d') key \<noteq> None"
    using assms(2) by (auto simp: backup_queued_def)
  have last: "map_of (lastBackups d') k \<noteq> None" if "map_of (lastBackups d) k \<noteq> None" for k
    using that off(1,3) by (cases "k = key") (auto simp: off_key_def)
  have "\<exists>job\<in>set (offloadCh d'). JobKey job = k \<and> JobTimestamp job = JobSnapshot i'"
    if "map_of (jobTracker d') k = Some i'" for k i'
  proof (cases "k = key")
    case True
    then show ?thesis using that j by auto
  next
    case False
    then have "map_of (jobTracker d) k = Some i'" using that off(1) by (simp add: off_key_def)
    then show ?thesis using assms(1) j(1) by (fastforce simp: queue_ok_def)
  qed
  then show ?thesis using assms(1) j off last by (auto simp: queue_ok_def off_key_def)
qed

lemma backup_found_ok:
  assumes "queue_ok d" and "backup_found cfg only off s d w = (d', w')"
  shows "queue_ok d' \<and> chCap d' = chCap d \<and> cancelFn d' = cancelFn d"
proof -
  obtain watch name server where s: "s = (watch, name, server)" by (cases s)
  from backup_found_effect [OF assms(2) [unfolded s]] consider "d' = d" | "backup_idle (server_key watch name) d d'"
    | "backup_queued (server_key watch name) d d'" by blast
  then show ?thesis
  proof cases
    case 2
    then show ?thesis using backup_idle_ok [OF assms(1) 2] by (simp add: backup_idle_def off_key_def)
  next
    case 3
    then show ?thesis using backup_queued_ok [OF assms(1) 3] by (simp add: backup_queued_def off_key_def)
  qed (use assms(1) in simp)
qed

section \<open>One job\<close>

text \<open>A job of which nothing is left: its entries of the tracker are gone, the other ones were
  there before, and the table of the last backups lost no entry.\<close>

definition job_over :: "offloadJob \<Rightarrow> Daemon \<Rightarrow> Daemon \<Rightarrow> bool" where
  "job_over job d d' \<longleftrightarrow> same_queue d d' \<and>
     (\<forall>k. map_of (lastBackups d) k \<noteq> None \<longrightarrow> map_of (lastBackups d') k \<noteq> None) \<and>
     (\<forall>k. k \<noteq> JobKey job \<longrightarrow> map_of (lastBackups d') k = map_of (lastBackups d) k) \<and>
     (\<forall>k i. map_of (jobTracker d') k = Some i \<longrightarrow>
        map_of (jobTracker d) k = Some i \<and> \<not> (k = JobKey job \<and> JobSnapshot i = JobTimestamp job))"

lemma job_dropped: "job_over job d (drop_job job (JobTimestamp job) d)"
  by (simp add: job_over_def drop_job_map)

lemma finish_offload_split:
  "finish_offload job hot cold d w = (d', w') \<Longrightarrow>
     \<exists>b w1. d' = drop_both job (Base hot) (set_last (JobKey job) b d) \<and>
       b = offloaded (ColdTarget job) hot cold (last_of (JobKey job) d) \<and>
       w1 = writeLastSnapshotAt (cfgPath d) (JobServer job) (LastLocal b) (LastNAS b) (LastHot b)
         (time_of_path (loc (w_env w)) hot) w \<and>
       w' = prune_hot job (prune_cold job w1)"
  by (auto simp: finish_offload_def Let_def) (auto simp: set_last_def)

lemma transfer_job_over:
  assumes "transfer_job job hot prev d w = (r, d', w')"
  shows "job_over job d d'"
proof -
  let ?ts = "Base hot" and ?T = "JobTimestamp job"
  let ?S = "{?ts, ?T}"
  define d1 where "d1 = show_job job ?T (0, 0) d"
  define d2 where "d2 = (if ?ts \<noteq> ?T then show_job job ?ts (0, 0) d1 else d1)"
  obtain q pg w1 where off: "offloadSnapshot (JobCfg job) (JobWatch job) (JobServer job) hot ?ts (ColdTarget job) prev w = ((q, pg), w1)"
    by (metis prod.exhaust)
  define d3 where "d3 = fold (show_progress job ?ts) (shown_progress 0 pg) d2"
  note run = assms [unfolded transfer_job_def Let_def off prod.case, folded d1_def, folded d2_def, folded d3_def]
  have "tracker_within (JobKey job) ?S (jobTracker d) (jobTracker d1)"
    unfolding d1_def by (rule show_job_within) simp
  moreover have "tracker_within (JobKey job) ?S (jobTracker d1) (jobTracker d2)"
    unfolding d2_def using show_job_within [of ?ts ?S job d1] by simp
  moreover have "tracker_within (JobKey job) ?S (jobTracker d2) (jobTracker d3)"
    unfolding d3_def by (rule fold_progress_within) simp_all
  ultimately have within: "tracker_within (JobKey job) ?S (jobTracker d) (jobTracker d3)"
    by (metis tracker_within_trans)
  have d3: "same_queue d d3" "lastBackups d3 = lastBackups d" by (simp_all add: d3_def d2_def d1_def)
  have over: "job_over job d (drop_both job ?ts d4)"
    if "jobTracker d4 = jobTracker d3" "same_queue d d4"
      "\<And>k. k \<noteq> JobKey job \<Longrightarrow> map_of (lastBackups d4) k = map_of (lastBackups d) k"
      "map_of (lastBackups d) (JobKey job) \<noteq> None \<Longrightarrow> map_of (lastBackups d4) (JobKey job) \<noteq> None" for d4
    using that drop_both_after [of job ?ts d d4] within unfolding job_over_def
    by (metis job_queue(3,7))
  show ?thesis
  proof (cases q)
    case (Inl e)
    then have "d' = drop_both job ?ts d3" using run by simp
    then show ?thesis using over [of d3] d3 by simp
  next
    case (Inr cold)
    then have "finish_offload job hot cold d3 w1 = (d', w')" using run by simp
    then obtain b where "d' = drop_both job ?ts (set_last (JobKey job) b d3)"
      using finish_offload_split by blast
    then show ?thesis using over [of "set_last (JobKey job) b d3"] d3 by simp
  qed
qed

lemma processOffloadJob_over:
  "processOffloadJob job d w = (r, d', w') \<Longrightarrow> job_over job d d'"
  by (auto simp: processOffloadJob_def Let_def split: prod.splits if_splits intro: job_dropped transfer_job_over)

lemma processOffloadJob_ok:
  assumes "queue_ok d" and "offloadCh d = job # jobs"
    and "processOffloadJob job (d\<lparr>offloadCh := jobs\<rparr>) w = (r, d', w')"
  shows "queue_ok d' \<and> chCap d' = chCap d \<and> cancelFn d' = cancelFn d"
proof -
  have over: "job_over job (d\<lparr>offloadCh := jobs\<rparr>) d'" by (rule processOffloadJob_over [OF assms(3)])
  then have q: "offloadCh d' = jobs" "chCap d' = chCap d" "cancelFn d' = cancelFn d"
    by (simp_all add: job_over_def same_queue_def)
  have "\<exists>j\<in>set jobs. JobKey j = k \<and> JobTimestamp j = JobSnapshot i" if "map_of (jobTracker d') k = Some i" for k i
  proof -
    from that over have "map_of (jobTracker d) k = Some i" "\<not> (k = JobKey job \<and> JobSnapshot i = JobTimestamp job)"
      by (simp_all add: job_over_def)
    then show ?thesis using assms(1,2) by (fastforce simp: queue_ok_def)
  qed
  then show ?thesis using assms(1,2) over q by (auto simp: queue_ok_def job_over_def)
qed

section \<open>The running daemon\<close>

definition sys_ok :: "nat \<Rightarrow> sys \<Rightarrow> bool" where
  "sys_ok n s \<longleftrightarrow> (case s of (d, c, w) \<Rightarrow> queue_ok d \<and> chCap d = n \<and> (cancelFn d \<longleftrightarrow> c \<noteq> None))"

lemma sys_ok_step:
  assumes "daemon_step s s'" and "sys_ok n s"
  shows "sys_ok n s'"
  using assms
proof (induction rule: daemon_step.induct)
  case (cycle_begins d w cfg servers d' w' only off)
  note st = cycle_start_state [OF cycle_begins(1)]
  from st have "chCap d' = chCap d" "cancelFn d'" by (simp_all add: same_state_def same_queue_def)
  moreover have "queue_ok (d\<lparr>cancelFn := True\<rparr>) = queue_ok d" by (simp add: queue_ok_def)
  ultimately show ?case using cycle_begins(2) queue_ok_state [OF st] by (simp add: sys_ok_def)
next
  case (server_done c s ss w w1 d d' w')
  then show ?case using backup_found_ok [OF _ server_done(3)] by (simp add: sys_ok_def)
next
  case (cycle_canceled c s ss w w1 d)
  then show ?case by (simp add: sys_ok_def)
next
  case (cycle_ends c d w)
  then show ?case by (simp add: sys_ok_def queue_ok_def)
next
  case (job_done d job jobs w r d' w' c)
  then show ?case using processOffloadJob_ok [OF _ job_done(1,2)] by (simp add: sys_ok_def)
next
  case (discovery d w starts d' w' c)
  note st = runDiscovery_state [OF discovery(1)]
  then have "chCap d' = chCap d" "cancelFn d' = cancelFn d" by (simp_all add: same_state_def same_queue_def)
  then show ?case using discovery(2) queue_ok_state [OF st] by (simp add: sys_ok_def)
next
  case (reload gl toml d ev w cfg' w' c)
  then show ?case by (simp add: sys_ok_def queue_ok_def)
next
  case (outside d c w f k)
  then show ?case by (simp add: sys_ok_def)
qed

text \<open>Start-up fills the table of the last backups and leaves the queue and the tracker empty.\<close>

lemma discover_server_queue:
  "discover_server cfg stored s d w = (d', w') \<Longrightarrow> same_queue d d' \<and> jobTracker d' = jobTracker d"
  by (auto simp: discover_server_def Let_def split: prod.splits sum.splits)

lemma discover_fold_queue:
  "fold (\<lambda>s (d, w). discover_server cfg stored s d w) ss (d, w) = (d', w') \<Longrightarrow>
     same_queue d d' \<and> jobTracker d' = jobTracker d"
proof (induction ss arbitrary: d w)
  case (Cons s ss)
  obtain d1 w1 where 1: "discover_server cfg stored s d w = (d1, w1)" by fastforce
  with Cons discover_server_queue [OF 1] show ?case by (auto intro: same_queue_trans)
qed simp

lemma merge_queue: "merge_stored cfg s d w = (d', w') \<Longrightarrow> same_queue d d' \<and> jobTracker d' = jobTracker d"
  by (auto simp: merge_stored_def Let_def split: prod.splits if_splits)

lemma merge_fold_queue:
  "fold (\<lambda>s (d, w). merge_stored cfg s d w) ss (d, w) = (d', w') \<Longrightarrow>
     same_queue d d' \<and> jobTracker d' = jobTracker d"
proof (induction ss arbitrary: d w)
  case (Cons s ss)
  obtain d1 w1 where 1: "merge_stored cfg s d w = (d1, w1)" by fastforce
  with Cons merge_queue [OF 1] show ?case by (auto intro: same_queue_trans)
qed simp

lemma waitForContainers_state: "waitForContainers cfg d w = Some (d', w') \<Longrightarrow> same_state d d'"
  by (auto simp: waitForContainers_def Let_def split: option.splits prod.splits if_splits dest: scan_state)

lemma start_up_queue:
  assumes "start_up d w = Some (b, d', w')"
  shows "same_queue d d' \<and> jobTracker d' = jobTracker d"
proof -
  obtain d1 w1 where 1: "waitForContainers (ac d) d w = Some (d1, w1)"
    using assms by (auto simp: start_up_def Let_def split: option.splits prod.splits)
  obtain d2 w2 where 2: "discoverSnapshots (ac d) d1 w1 = Some (d2, w2)"
    using assms 1 by (auto simp: start_up_def Let_def split: option.splits prod.splits)
  obtain ss w3 where 3: "readLastSnapshots (cfgPath d2) w2 = (ss, w3)" by fastforce
  obtain d4 w4 where 4: "fold (\<lambda>s (d, w). merge_stored (ac d0) s d w) ss (d2, w3) = (d4, w4)" if "d0 = d" for d0
    by fastforce
  have d': "d' = d4" using assms 1 2 3 4 [OF refl] by (auto simp: start_up_def Let_def split: prod.splits)
  have "same_queue d1 d2 \<and> jobTracker d2 = jobTracker d1"
    using 2 by (auto simp: discoverSnapshots_def Let_def same_state_def split: option.splits prod.splits
        dest!: scan_state discover_fold_queue intro: same_queue_trans)
  then show ?thesis
    using waitForContainers_state [OF 1] merge_fold_queue [OF 4 [OF refl]] unfolding d'
    by (auto simp: same_state_def intro: same_queue_trans)
qed

end
