(* ===== verification/Daemon_Demo.thy ===== *)
theory Daemon_Demo
  imports Daemon_Laws Config_Save_Laws
begin

text \<open>
  A small running daemon, on which the properties of the daemon are tried: one watch path with one
  server, whose target is \<open>tiered-nas\<close>, in the world in which every command succeeds and prints
  nothing. It starts up, and an offline backup queues an offload job.
\<close>

section \<open>The world\<close>

definition run_config :: Config where
  "run_config = demo_config\<lparr>Watch := [srv_watch], Servers := [(''s'', demo_server ''tiered-nas'')]\<rparr>"
definition run_fs :: fs where
  "run_fs = [(''/m'', DirNode), (''/m/s'', DirNode), (''/hot'', DirNode),(''/hot/mc'', DirNode),(''/hot/mc/s'', DirNode)]"

definition run_part :: string where "run_part = ''/hot/mc/s/20260101-0000.inprogress''"
definition run_snap :: string where "run_snap = ''/hot/mc/s/20260101-0000''"

lemma run_paths:
  "path_join [''/hot'', ''mc'', ''s''] = ''/hot/mc/s''"
  "path_join [''/hot/mc/s'', ''20260101-0000.inprogress''] = run_part"
  "path_join [''/hot/mc/s'', ''20260101-0000''] = run_snap"
  by code_simp+

section \<open>One backup\<close>

lemma run_stamp: "w_env w = quiet_env \<Longrightarrow> now_stamp w = (''20260101-0000'', tick w)"
proof -
  assume "w_env w = quiet_env"
  then have "fst (now_stamp w) = format_stamp (Civil 2026 1 1 0 0)" "snd (now_stamp w) = tick w"
    by (simp_all add: now_stamp_def now_def quiet_env_def Let_def)
  moreover have "format_stamp (Civil 2026 1 1 0 0) = ''20260101-0000''" by code_simp
  ultimately show ?thesis by (metis prod.collapse)
qed

lemma quiet_cmds: "cmd_fs quiet_env k a f = f" "cmd_ok quiet_env k a"
  by (simp_all add: quiet_env_def)

lemma run_rsync:
  "w_env w = quiet_env \<Longrightarrow> \<exists>pg. runRsync c args w = ((Inr (), pg), snd (run_cmd c (hd args # ''--info=progress2'' # tl args) [] w))"
  by (simp add: runRsync_def run_cmd_def quiet_cmds Let_def)

lemma run_dirs:
  "list_ex (is_file run_fs) (ancestors ''/hot/mc/s'') = False" "mkdir_fs ''/hot/mc/s'' run_fs = run_fs"
  "filter (\<lambda>(q, _). \<not> under run_part q) run_fs = run_fs"
  "list_ex (is_file run_fs) (ancestors run_part) = False" "mkdir_fs run_part run_fs = run_fs @ [(run_part, DirNode)]"
  "can_rename (run_fs @ [(run_part, DirNode)]) run_part run_snap"
  by code_simp+

lemma run_tiered:
  assumes "w_env w = quiet_env" "w_fs w = run_fs"
  shows "fst (fst (backup_tiered run_config srv_watch ''s'' ''tiered-nas'' d x p ''20260101-0000'' w)) =
    Inr \<lparr>destination = run_snap, timestamp = ''20260101-0000'', target = ''tiered-nas'', offloadPending = True\<rparr>"
proof -
  have nf: "\<not> faulty v" if "w_env v = quiet_env" for v using that by (simp add: faulty_def quiet_env_def)
  have dirs: "HotRoot (Local run_config) = ''/hot''" "Namespace srv_watch = ''mc''"
    by (simp_all add: run_config_def demo_config_def srv_watch_def)
  obtain w1 w2 where steps: "os_RemoveAll run_part w = (Inr (), w1)" "os_MkdirAll ''/hot/mc/s'' w1 = (Inr (), w2)"
    and w2: "w_env w2 = quiet_env" "w_fs w2 = run_fs"
    using assms by (simp add: os_RemoveAll_def os_MkdirAll_def nf run_dirs)
  obtain w3 where mk: "os_MkdirAll run_part w2 = (Inr (), w3)"
    and w3: "w_env w3 = quiet_env" "w_fs w3 = run_fs @ [(run_part, DirNode)]"
    using w2 by (simp add: os_MkdirAll_def nf run_dirs)
  let ?args = "localRsyncArgs d p run_part x"
  define w4 where "w4 = snd (run_cmd CycleCtx (hd ?args # ''--info=progress2'' # tl ?args) [] w3)"
  have w4: "w_env w4 = quiet_env" "w_fs w4 = run_fs @ [(run_part, DirNode)]"
    using w3 by (simp_all add: w4_def run_cmd_def quiet_cmds Let_def)
  obtain pg where cp: "runRsync CycleCtx ?args w3 = ((Inr (), pg), w4)" using run_rsync [OF w3(1)] unfolding w4_def by blast
  have mv: "fst (os_Rename run_part run_snap w4) = Inr ()" using w4 by (simp add: os_Rename_def nf run_dirs)
  show ?thesis
    unfolding backup_tiered_def Let_def dirs run_paths append.simps steps mk cp prod.case sum.case
    using mv by (simp add: case_prod_unfold)
qed

definition at_run :: "world \<Rightarrow> bool" where
  "at_run w \<longleftrightarrow> w_env w = quiet_env \<and> w_fs w = run_fs"

lemma at_run_steps [simp]:
  "at_run w \<Longrightarrow> at_run (tick w)" "at_run w \<Longrightarrow> at_run (snd (run_cmd c a e w))"
  by (simp_all add: at_run_def run_cmd_def Let_def quiet_cmds)

lemma run_entries:
  "is_dir run_fs ''/m''" "dir_entries run_fs ''/m'' = [(''s'', True)]" "\<not> isIgnoredServerDir ''s''" "isValidServerName ''s''"
  "\<not> is_dir run_fs (backupDir srv_watch ''s'')" "map_of run_fs (lastBackupPath ''/etc/c.toml'') = None"
  "map_of run_fs (autoServersPath ''/etc/c.toml'') = None"
  "dir_entries run_fs ''/hot/mc/s'' = []"  "is_dir run_fs ''/hot/mc/s''" "latest_snapshot [] = []" "TrimSpace [] = []"
  "parse_rfc3339 [] = None" 
  by code_simp+

lemma run_cfg:
  "Watch run_config = [srv_watch]" "Servers run_config = [(''s'', demo_server ''tiered-nas'')]" "Path srv_watch = ''/m''"
  "Enabled (demo_server t)" "Namespace srv_watch = ''mc''" "HotRoot (Local run_config) = ''/hot''"
  by (simp_all add: run_config_def srv_watch_def demo_server_def demo_config_def)

lemma run_readdir: "at_run w \<Longrightarrow> is_dir run_fs p \<Longrightarrow> os_ReadDir p w = (Inr (dir_entries run_fs p), tick w)"
  "at_run w \<Longrightarrow> \<not> is_dir run_fs p \<Longrightarrow> os_ReadDir p w = (Inl (NotExist p), tick w)"
  by (simp_all add: os_ReadDir_def at_run_def faulty_def quiet_env_def)

definition run_daemon :: Daemon where
  "run_daemon = set_last ''mc/s'' no_backup (fst (NewDaemon small_toml ''/etc/c.toml'' run_config (quiet_world run_fs)))"

section \<open>Start-up\<close>

lemma run_scan:
  assumes "at_run w"
  shows "scan run_config d w = Some (([(srv_watch, ''s'', demo_server ''tiered-nas'')], []), d, tick (tick w))"
  using assms
  by (simp add: scan_def run_cfg run_readdir run_entries warnLegacyBackupDirOnce_def)

lemma run_wait:
  assumes "at_run w"
  shows "\<exists>v. waitForContainers run_config d w = Some (d, v) \<and> at_run v"
proof -
  have up: "at_run v \<Longrightarrow> \<exists>e. containerUptime c v = (Inl e, snd (run_cmd BackgroundCtx (docker_inspect c) [] v))" for c v
    by (simp add: containerUptime_def run_cmd_def Let_def at_run_def quiet_env_def run_entries)
  let ?ss = "[(srv_watch, ''s'', demo_server ''tiered-nas'')]"
  have ready: "\<exists>v'. check_ready dl ?ss v = ((True, False), v') \<and> at_run v'" if v: "at_run v" for dl v
  proof -
    obtain e where "containerUptime (container_of (demo_server ''tiered-nas'') ''s'') v =
        (Inl e, snd (run_cmd BackgroundCtx (docker_inspect (container_of (demo_server ''tiered-nas'') ''s'')) [] v))"
      using up [OF v] by blast
    then show ?thesis using v by simp
  qed
  have clock: "now v = (0, tick v)" if "at_run v" for v
    using that by (simp add: now_def at_run_def quiet_env_def)
  have wait: "wait_or_done c v = (False, tick v)" if "at_run v" for c v
    using that by (simp add: wait_or_done_def at_run_def quiet_env_def)
  have loop: "\<exists>v'. wait_loop dl dy ?ss v = Some v' \<and> at_run v'" if v: "at_run v" "\<not> dl < 0" for dl dy v
  proof -
    obtain v' where "check_ready dy ?ss (tick v) = ((True, False), v')" "at_run v'"
      using ready [OF at_run_steps(1) [OF v(1)]] by blast
    then show ?thesis using v by (simp add: wait_loop.simps clock wait)
  qed
  have dl: "\<not> 0 + wrap64 (5 * InitialDelay (Global run_config)) < 0"
    by code_simp
  have "at_run (tick (tick (tick w)))" using assms by simp
  from loop [OF this dl] show ?thesis
    using assms by (simp add: waitForContainers_def run_scan clock Let_def)
qed

lemma run_last: "at_run w \<Longrightarrow> readLastSnapshots ''/etc/c.toml'' w = ([], tick w)"
  by (simp add: readLastSnapshots_def os_ReadFile_def at_run_def run_entries faulty_def quiet_env_def)

lemma run_auto: "at_run w \<Longrightarrow> loadAutoServerNames small_toml ''/etc/c.toml'' w = ([], tick w)"
  by (simp add: loadAutoServerNames_def DecodeFile_def os_ReadFile_def at_run_def run_entries faulty_def quiet_env_def)

lemma run_newest: "at_run w \<Longrightarrow> newest_in ''/hot/mc/s'' w = ([], tick w)"
  by (simp add: newest_in_def run_readdir run_entries)

lemma run_nas: "at_run w \<Longrightarrow> \<exists>v. newest_on_nas nas dir w = ([], v) \<and> at_run v"
  by (simp add: newest_on_nas_def run_cmd_def at_run_def Let_def quiet_env_def run_entries present_def)

lemma run_discover:
  assumes "at_run w"
  shows "\<exists>b v. discover_server run_config [] (srv_watch, ''s'', demo_server ''tiered-nas'') d w = (set_last ''mc/s'' b d, v) \<and> at_run v"
proof -
  have tgt: "resolveBackupTarget ''s'' (demo_server ''tiered-nas'') (Local run_config) (NAS run_config) = Inr ''tiered-nas''"
    using demo_targets(3) by (simp add: run_config_def)
  obtain v where nas: "newest_on_nas (NAS run_config) (server_dir (NASDestRoot (NAS run_config)) ''mc'' ''s'') (tick w) = ([], v)" "at_run v"
    using run_nas [OF at_run_steps(1) [OF assms]] by blast
  show ?thesis
    using assms nas
    by (simp add: discover_server_def tgt run_cfg run_paths run_newest newer_path_def zero_entry_def found_time_def
        server_key_def case_prod_unfold Let_def time_of_path_def now_def) blast
qed

lemma run_start:
  assumes "at_run w" "ac d = run_config" "cfgPath d = ''/etc/c.toml''"
  shows "\<exists>d' v. start_up d w = Some (True, d', v) \<and> at_run v \<and> ac d' = run_config \<and> cfgPath d' = ''/etc/c.toml'' \<and> same_queue d d'"
proof -
  obtain w1 where 1: "waitForContainers run_config d w = Some (d, w1)" "at_run w1" using run_wait [OF assms(1)] by blast
  obtain b w2 where 2: "discover_server run_config [] (srv_watch, ''s'', demo_server ''tiered-nas'') d (tick (tick (tick w1))) =
      (set_last ''mc/s'' b d, w2)" "at_run w2"
    using run_discover 1(2) at_run_steps(1) by metis
  have 3: "discoverSnapshots run_config d w1 = Some (set_last ''mc/s'' b d, w2)"
    using 1(2) 2 by (simp add: discoverSnapshots_def assms(3) run_last run_scan)
  show ?thesis
    using 1(1) 2(2) 3 assms(2,3) by (simp add: start_up_def run_last set_last_def same_queue_def)
qed

section \<open>A cycle\<close>

lemma run_cycle_start:
  assumes "at_run w" "ac d = run_config"
  shows "\<exists>v. cycle_start d w = Some ((run_config, [(srv_watch, ''s'', demo_server ''tiered-nas'')]), d\<lparr>cancelFn := True\<rparr>, v) \<and> at_run v"
  using assms by (simp add: cycle_start_def run_scan provisionServers_def)

lemma run_backup:
  assumes "at_run w"
  shows "fst (fst (BackupServer run_config srv_watch ''s'' (demo_server ''tiered-nas'') h l n True w)) =
    Inr \<lparr>destination = run_snap, timestamp = ''20260101-0000'', target = ''tiered-nas'', offloadPending = True\<rparr>"
proof -
  have tgt: "resolveBackupTarget ''s'' (demo_server ''tiered-nas'') (Local run_config) (NAS run_config) = Inr ''tiered-nas''"
    using demo_targets(3) by (simp add: run_config_def)
  have sync: "at_run (runSync CycleCtx w)"
    using assms by (simp add: runSync_def at_run_def run_cmd_def quiet_cmds Let_def)
  then have "w_env (runSync CycleCtx w) = quiet_env" by (simp add: at_run_def)
  note stamp = run_stamp [OF this]
  have "w_env (tick (runSync CycleCtx w)) = quiet_env" "w_fs (tick (runSync CycleCtx w)) = run_fs"
    using sync by (simp_all add: at_run_def)
  note tiered = run_tiered [OF this]
  show ?thesis by (simp add: BackupServer_def tgt backup_transfer_def stamp tiered Let_def)
qed

lemma queue_offload_room:
  "queue_offload cfg watch name res d w = (d', w') \<Longrightarrow> length (offloadCh d) < chCap d \<Longrightarrow>
     \<exists>job. offloadCh d' = offloadCh d @ [job]"
  by (auto simp: queue_offload_def Let_def track_def set_last_def)

lemma run_backup_found:
  assumes "at_run w" "offloadCh d = []" "0 < chCap d"
  shows "\<exists>job d' v. backup_found run_config [] True (srv_watch, ''s'', demo_server ''tiered-nas'') d w = (d', v) \<and> offloadCh d' = [job]"
proof -
  obtain d' v where run: "backup_found run_config [] True (srv_watch, ''s'', demo_server ''tiered-nas'') d w = (d', v)" by fastforce
  have start: "\<exists>w1. may_start True (srv_watch, ''s'', demo_server ''tiered-nas'') w = (True, w1) \<and> at_run w1"
    using assms(1) by (simp add: may_start_def containerRunning_def run_cmd_def quiet_cmds at_run_def Let_def)
  then obtain w1 where w1: "may_start True (srv_watch, ''s'', demo_server ''tiered-nas'') w = (True, w1)" "at_run w1" by blast
  let ?prev = "last_of (server_key srv_watch ''s'') d"
  obtain r pg w2 where bs: "BackupServer run_config srv_watch ''s'' (demo_server ''tiered-nas'') (LastHot ?prev) (LastLocal ?prev)
      (LastNAS ?prev) True (tick w1) = ((r, pg), w2)" by (metis prod.exhaust)
  have r: "r = Inr \<lparr>destination = run_snap, timestamp = ''20260101-0000'', target = ''tiered-nas'', offloadPending = True\<rparr>"
    using run_backup [OF at_run_steps(1) [OF w1(2)]] bs by (metis fst_conv)
  have st: "now_stamp w1 = (''20260101-0000'', tick w1)" using w1(2) by (simp add: run_stamp at_run_def)
  define d1 where "d1 = track (fold (\<lambda>p. tracker_Add (server_key srv_watch ''s'') (saving_job ''s'' ''20260101-0000'' p)) (shown_progress 0 pg))
      (track (tracker_Add (server_key srv_watch ''s'') (saving_job ''s'' ''20260101-0000'' (0, 0))) d)"
  have "queue_offload run_config srv_watch ''s'' \<lparr>destination = run_snap, timestamp = ''20260101-0000'', target = ''tiered-nas'',
      offloadPending = True\<rparr> d1 w2 = (d', v)"
    using run by (simp add: backup_found_def run_cfg serverMatches_def w1 st bs r Let_def d1_def)
  from queue_offload_room [OF this] show ?thesis using run assms(2,3) by (simp add: d1_def track_def)
qed

end
