(* ===== verification/Daemon_Safety.thy ===== *)
theory Daemon_Safety
  imports Daemon_Demo
begin

text \<open>
  The properties of the daemon: the invariant of the queue and of the job tracker over all its runs,
  which servers a cycle touches, what a failed offload leaves alone, and that the wait for the
  containers ends.
\<close>

section \<open>The queue over all runs\<close>

lemma queue_ok_new: "offloadCh d = [] \<Longrightarrow> jobTracker d = [] \<Longrightarrow> queue_ok d"
  by (simp add: queue_ok_def)

lemma daemon_runs_ok: "daemon_runs s s' \<Longrightarrow> sys_ok n s \<Longrightarrow> sys_ok n s'"
  unfolding daemon_runs_def by (induction rule: rtranclp_induct) (auto intro: sys_ok_step)



section \<open>A cycle for one server\<close>

text \<open>What a cycle leaves alone at the key \<open>k\<close>.\<close>

definition untouched :: "string \<Rightarrow> Daemon \<Rightarrow> Daemon \<Rightarrow> bool" where
  "untouched k d d' \<longleftrightarrow> map_of (lastBackups d') k = map_of (lastBackups d) k \<and>
     map_of (jobTracker d') k = map_of (jobTracker d) k \<and>
     (\<exists>jobs. offloadCh d' = offloadCh d @ jobs \<and> list_all (\<lambda>job. JobKey job \<noteq> k \<and> job_ok job) jobs)"

lemma untouched_refl [simp]: "untouched k d d"
  by (simp add: untouched_def)

lemma untouched_trans: "untouched k a b \<Longrightarrow> untouched k b c \<Longrightarrow> untouched k a c"
  by (fastforce simp: untouched_def)

lemma backup_found_untouched:
  assumes "backup_found cfg only off s d w = (d', w')"
    and other: "\<And>watch name. k = server_key watch name \<Longrightarrow> \<not> serverMatches only name"
  shows "untouched k d d'"
proof -
  obtain watch name server where s: "s = (watch, name, server)" by (cases s)
  from backup_found_effect [OF assms(1) [unfolded s]]
  consider "d' = d" | "k \<noteq> server_key watch name" "backup_idle (server_key watch name) d d'"
    | "k \<noteq> server_key watch name" "backup_queued (server_key watch name) d d'"
    using other by blast
  then show ?thesis
    by cases (auto simp: untouched_def backup_idle_def backup_queued_def off_key_def)
qed

lemma cycle_loop_untouched:
  assumes "\<And>watch name. k = server_key watch name \<Longrightarrow> \<not> serverMatches only name"
  shows "cycle_loop cfg only off ss d w = (d', w') \<Longrightarrow> untouched k d d'"
proof (induction ss arbitrary: d w)
  case (Cons s ss)
  obtain c w1 where 1: "wait_or_done CycleCtx w = (c, w1)" by fastforce
  obtain d2 w2 where 2: "backup_found cfg only off s d w1 = (d2, w2)" by fastforce
  have "untouched k d d2" by (rule backup_found_untouched [OF 2 assms])
  then show ?case using Cons 1 2 by (auto split: if_splits intro: untouched_trans)
qed simp



section \<open>Waiting for the containers\<close>

lemma containerUptime_clock:
  "containerUptime c w = (r, w') \<Longrightarrow> w_env w' = w_env w \<and> w_tick w \<le> w_tick w'"
  by (auto simp: containerUptime_def run_cmd_def now_def tick_def Let_def split: if_splits option.splits)

lemma check_ready_clock:
  "check_ready dl ss w = (r, w') \<Longrightarrow> w_env w' = w_env w \<and> w_tick w \<le> w_tick w'"
proof (induction ss arbitrary: w r w')
  case (Cons s ss)
  obtain watch name server where s: "s = (watch, name, server)" by (cases s)
  obtain u w1 where up: "containerUptime (container_of server name) w = (u, w1)" by fastforce
  obtain p w2 where rest: "check_ready dl ss w1 = (p, w2)" by fastforce
  have "w' = w2" using Cons.prems unfolding s check_ready.simps up prod.case
    by (cases u) (simp_all add: rest case_prod_unfold)
  then show ?case using Cons.IH [OF rest] containerUptime_clock [OF up] by auto
qed simp

lemma wait_loop_returns:
  assumes "\<forall>k\<ge>n. deadline < now_ns (w_env w) k"
  shows "\<exists>w'. wait_loop deadline dl ss w = Some w'"
  using assms
proof (induction "n - w_tick w" arbitrary: w rule: less_induct)
  case less
  show ?case
  proof (cases "deadline < now_ns (w_env w) (w_tick w)")
    case True
    then show ?thesis by (simp add: wait_loop.simps now_def)
  next
    case False
    then have before: "w_tick w < n" using less.prems not_less by blast
    obtain allReady anyCheckable w1 where 1: "check_ready dl ss (tick w) = ((allReady, anyCheckable), w1)"
      by (metis prod.exhaust)
    have w1: "w_env w1 = w_env w" "w_tick w < w_tick (tick w1)"
      using check_ready_clock [OF 1] by (simp_all add: tick_def)
    then have "n - w_tick (tick w1) < n - w_tick w" using before by linarith
    from less.hyps [OF this] less.prems w1 have "\<exists>w'. wait_loop deadline dl ss (tick w1) = Some w'" by simp
    then show ?thesis
      using False 1 by (subst wait_loop.simps) (simp add: now_def wait_or_done_def)
  qed
qed

text \<open>C38: start-up does not wait for ever. Whatever the containers answer, and also when they never get
  ready, \<open>waitForContainers\<close> ends once the scan of the watch paths has ended, if only the
  clock goes on; and it changes nothing but the list of directories warned about.\<close>

theorem wait_ends:
  assumes "scan cfg d w = Some (r, d1, w1)" and "\<And>t. \<exists>n. \<forall>k\<ge>n. t < now_ns (w_env w1) k"
  shows "\<exists>w'. waitForContainers cfg d w = Some (d1, w') \<and> same_state d d1"
proof -
  obtain ss ns where r: "r = (ss, ns)" by fastforce
  obtain t w2 where 1: "now w1 = (t, w2)" by fastforce
  then have env: "w_env w2 = w_env w1" by (auto simp: now_def)
  obtain w' where "wait_loop (t + wrap64 (5 * InitialDelay (Global cfg))) (InitialDelay (Global cfg)) ss w2 = Some w'"
    using wait_loop_returns assms(2) env by metis
  then show ?thesis
    using assms(1) scan_state [OF assms(1)] by (auto simp: waitForContainers_def r 1 Let_def)
qed

theorem wait_ends_witness:
  "\<exists>w'. waitForContainers run_config run_daemon (quiet_world run_fs\<lparr>w_env := quiet_env\<lparr>now_ns := int\<rparr>\<rparr>) = Some (run_daemon, w')"
proof -
  let ?w = "quiet_world run_fs\<lparr>w_env := quiet_env\<lparr>now_ns := int\<rparr>\<rparr>"
  have rd: "os_ReadDir p v = (if is_dir run_fs p then Inr (dir_entries run_fs p) else Inl (NotExist p), tick v)"
    if "w_fs v = run_fs" "w_env v = quiet_env\<lparr>now_ns := int\<rparr>" for p v
    using that by (simp add: os_ReadDir_def faulty_def quiet_env_def)
  have run: "scan run_config run_daemon ?w = Some (([(srv_watch, ''s'', demo_server ''tiered-nas'')], []), run_daemon, tick (tick ?w))"
    by (simp add: scan_def run_cfg rd run_entries warnLegacyBackupDirOnce_def)
  have "\<exists>n. \<forall>k\<ge>n. t < now_ns (w_env (tick (tick ?w))) k" for t
    by (intro exI [of _ "Suc (nat t)"]) auto
  from wait_ends [OF run this] show ?thesis by blast
qed

end
