(* ===== verification/Offload_Safety.thy ===== *)
theory Offload_Safety
  imports Daemon_Demo
begin

text \<open>
  What an offload job does to the hot snapshots of its server: nothing before the copy in the cold
  place is complete and on record.
\<close>

section \<open>Runs that spare a set of paths\<close>

definition calm :: "(string \<Rightarrow> bool) \<Rightarrow> world \<Rightarrow> world \<Rightarrow> bool" where
  "calm P w w' \<longleftrightarrow> spares P w w' \<and> w_env w' = w_env w"

lemma calm_refl [simp]: "calm P w w"
  by (simp add: calm_def)

lemma calm_trans: "calm P w w1 \<Longrightarrow> calm P w1 w2 \<Longrightarrow> calm P w w2"
  by (auto simp: calm_def intro: spares_trans)

lemma calm_cmds: "calm P w w' \<Longrightarrow> commands_spare P (w_env w) \<Longrightarrow> commands_spare P (w_env w')"
  by (simp add: calm_def)

lemma calm_tick: "calm P w (tick w)"
  by (simp add: calm_def spares_same_fs)

lemma calm_SSH: "commands_spare P (w_env w) \<Longrightarrow> runSSH c nas cmd w = (r, w') \<Longrightarrow> calm P w w'"
  by (simp add: calm_def spares_runSSH runs_env [OF runSSH_runs])

lemma calm_Rsync: "commands_spare P (w_env w) \<Longrightarrow> runRsync c args w = ((r, pg), w') \<Longrightarrow> calm P w w'"
  by (simp add: calm_def spares_runRsync runs_env [OF runRsync_runs])

lemma calm_RemoveAll: "(\<And>q. P q \<Longrightarrow> \<not> under a q) \<Longrightarrow> calm P w (snd (os_RemoveAll a w))"
  unfolding calm_def
  by (metis prod.collapse spares_RemoveAll removeall.env_unchanged)

lemma calm_MkdirAll: "(\<And>q. P q \<Longrightarrow> \<not> under q a) \<Longrightarrow> os_MkdirAll a w = (r, w') \<Longrightarrow> calm P w w'"
  unfolding calm_def using spares_MkdirAll [of P a w r w'] mkdirall.env_unchanged [of a w] by simp

lemma calm_Rename:
  assumes "os_Rename a b w = (r, w')" and "a \<noteq> ''/''" "b \<noteq> ''/''" and "\<And>q. P q \<Longrightarrow> \<not> under a q \<and> \<not> under b q"
  shows "calm P w w'"
proof -
  have "w_fs w' = w_fs w \<or> w_fs w' = rename_fs a b (w_fs w)"
    using assms(1) by (auto simp: os_Rename_def split: if_splits)
  then have "spares P w w'"
    using rename_fs_other [OF assms(2,3)] assms(4) by (auto simp: spares_def)
  then show ?thesis using rename.env_unchanged [of a b w] assms(1) by (simp add: calm_def)
qed

section \<open>Paths that have nothing in common\<close>

lemma under_comparable:
  assumes "under a q" and "under b q" and root: "a \<noteq> ''/''" "b \<noteq> ''/''"
  shows "under a b \<or> under b a"
proof -
  obtain s where s: "q = a @ s" "s = [] \<or> hd s = CHR ''/''" using assms(1) under_proper [OF root(1)] by blast
  obtain t where t: "q = b @ t" "t = [] \<or> hd t = CHR ''/''" using assms(2) under_proper [OF root(2)] by blast
  note st = s(2) t(2)
  from s(1) t(1) have "a @ s = b @ t" by simp
  then consider u where "a = b @ u" "u @ s = t" | u where "b = a @ u" "u @ t = s"
    by (auto simp: append_eq_append_conv2)
  then show ?thesis
  proof cases
    case 1
    then have "u = [] \<or> hd u = CHR ''/''" using st(2) by (cases u) auto
    then show ?thesis using 1(1) root by (auto simp: under_proper)
  next
    case 2
    then have "u = [] \<or> hd u = CHR ''/''" using st(1) by (cases u) auto
    then show ?thesis using 2(1) root by (auto simp: under_proper)
  qed
qed

definition apart :: "string \<Rightarrow> string \<Rightarrow> bool" where
  "apart a b \<longleftrightarrow> proper_dir a \<and> proper_dir b \<and> \<not> under a b \<and> \<not> under b a"

lemma proper_dir_not_root: "proper_dir a \<Longrightarrow> a \<noteq> ''/''"
  by (auto simp: proper_dir_def neq_Nil_conv ok_comp_def)

lemma apart_root: "apart a b \<Longrightarrow> a \<noteq> ''/'' \<and> b \<noteq> ''/''"
  by (auto simp: apart_def dest: proper_dir_not_root)

lemma apart_paths:
  assumes "apart hot cold" and "under hot q" and "under cold a"
  shows "\<not> under a q" and "\<not> under q a"
proof -
  show "\<not> under a q"
  proof
    assume "under a q"
    then have "under cold q" using assms(3) under_trans by blast
    then show False using under_comparable [OF assms(2)] apart_root [OF assms(1)] assms(1) by (auto simp: apart_def)
  qed
  show "\<not> under q a"
  proof
    assume "under q a"
    then have "under hot a" using assms(2) under_trans by blast
    then show False using under_comparable [OF _ assms(3)] apart_root [OF assms(1)] assms(1) by (auto simp: apart_def)
  qed
qed

section \<open>The transfer\<close>

lemma offload_nas_calm:
  assumes "offload_nas cfg watch name d ts prev w = ((r, pg), w')" and "commands_spare P (w_env w)"
  shows "calm P w w'"
proof -
  let ?nas = "NAS cfg"
  define dir where "dir = server_dir (NASDestRoot (NAS cfg)) (Namespace watch) name"
  define a where "a = dir @ ''/'' @ ts @ ''.inprogress''"
  define b where "b = dir @ ''/'' @ ts"
  note run = assms(1) [unfolded offload_nas_def Let_def, folded dir_def, folded a_def b_def]
  obtain r1 w1 where 1: "checkNASReady CycleCtx ?nas w = (r1, w1)" by fastforce
  obtain r2 w2 where 2: "ensureNASDir CycleCtx ?nas dir w1 = (r2, w2)" by fastforce
  obtain r3 w3 where 3: "runSSH CycleCtx ?nas (nasRemoveDirCommand a) w2 = (r3, w3)" by fastforce
  obtain r4 pg4 w4 where 4: "runRsync CycleCtx (nasRsyncArgs (env_vars (w_env w3)) d prev a ?nas
      (MaxMBps (Global cfg)) []) w3 = ((r4, pg4), w4)" by (metis prod.exhaust)
  obtain r5 w5 where 5: "runSSH CycleCtx ?nas (nasRenameCommand a b) w4 = (r5, w5)" by fastforce
  have c1: "calm P w w1" using 1 assms(2) by (auto simp: checkNASReady_def split: prod.splits sum.splits dest: calm_SSH)
  have c2: "calm P w w2" using calm_trans [OF c1 calm_SSH [OF calm_cmds [OF c1 assms(2)] 2 [unfolded ensureNASDir_def]]] .
  have c3: "calm P w w3" using calm_trans [OF c2 calm_SSH [OF calm_cmds [OF c2 assms(2)] 3]] .
  have c4: "calm P w w4" using calm_trans [OF c3 calm_Rsync [OF calm_cmds [OF c3 assms(2)] 4]] .
  have c5: "calm P w w5" using calm_trans [OF c4 calm_SSH [OF calm_cmds [OF c4 assms(2)] 5]] .
  have cl: "calm P w (snd (runSSH DetachedCtx ?nas cmd v))" if "calm P w v" for cmd v
    by (rule calm_trans [OF that calm_SSH [OF calm_cmds [OF that assms(2)]]]) (rule prod.collapse [symmetric])
  have "w' \<in> {w1, w2, snd (runSSH DetachedCtx ?nas (nasRemoveDirCommand a) w4),
      snd (runSSH DetachedCtx ?nas (nasRemoveDirCommand a) w5), w5}"
    using run by (cases r1; cases r2; cases r4; cases r5) (auto simp: 1 2 3 4 5)
  then show ?thesis using c1 c2 c5 cl [OF c4] cl [OF c5] by auto
qed

text \<open>A copy to a local cold directory apart from \<open>hot\<close>.\<close>

lemma offload_local_calm:
  assumes "offload_local cfg watch name d ts prev w = ((r, pg), w')" and "commands_spare (under hot) (w_env w)"
    and cold: "cold = path_join [LocalDestRoot (Local cfg), Namespace watch, name]" "apart hot cold" and ts: "isBackupDir ts"
  shows "calm (under hot) w w'"
proof -
  define a where "a = path_join [cold, ts @ ''.inprogress'']"
  define b where "b = path_join [cold, ts]"
  have st: "staging cold ts a b" using cold(2) ts by (simp add: staging_def a_def b_def apart_def)
  have in_cold: "under cold a" "under cold b"
    unfolding staging_paths(1,2) [OF st] by (simp_all add: under_def HasPrefix_def)
  note off = apart_paths [OF cold(2)]
  note run = assms(1) [unfolded offload_local_def Let_def, folded cold(1), folded a_def b_def]
  obtain r0 w0 where 0: "os_RemoveAll a w = (r0, w0)" by fastforce
  obtain r1 w1 where 1: "os_MkdirAll a w0 = (r1, w1)" by fastforce
  obtain r2 pg2 w2 where 2: "runRsync CycleCtx (localRsyncArgs d prev a []) w1 = ((r2, pg2), w2)" by (metis prod.exhaust)
  obtain r3 w3 where 3: "os_Rename a b w2 = (r3, w3)" by fastforce
  have rm: "calm (under hot) v (snd (os_RemoveAll a v))" for v
    using off(1) in_cold(1) by (blast intro: calm_RemoveAll)
  have c0: "calm (under hot) w w0" using rm [of w] by (simp add: 0)
  have "calm (under hot) w0 w1" using calm_MkdirAll [OF _ 1] off(2) in_cold(1) by blast
  then have c1: "calm (under hot) w w1" by (rule calm_trans [OF c0])
  have c2: "calm (under hot) w w2" using calm_trans [OF c1 calm_Rsync [OF calm_cmds [OF c1 assms(2)] 2]] .
  have "calm (under hot) w2 w3"
    using calm_Rename [OF 3 staging_paths(3,4) [OF st]] off(1) in_cold by blast
  then have c3: "calm (under hot) w w3" by (rule calm_trans [OF c2])
  have "w' \<in> {w1, snd (os_RemoveAll a w2), snd (os_RemoveAll a w3), w3}"
    using run by (cases r1; cases r2; cases r3) (auto simp: 0 1 2 3 split: prod.splits)
  then show ?thesis using c1 c3 calm_trans [OF c2 rm] calm_trans [OF c3 rm] by auto
qed

lemma offloadSnapshot_calm:
  assumes "offloadSnapshot cfg watch name path ts tgt prev w = ((r, pg), w')" and "commands_spare (under hot) (w_env w)"
    and "tgt = ''local'' \<Longrightarrow> apart hot (path_join [LocalDestRoot (Local cfg), Namespace watch, name])" and "isBackupDir ts"
  shows "calm (under hot) w w'"
  using assms(1) offload_local_calm [OF _ assms(2) refl assms(3,4)] offload_nas_calm [OF _ assms(2)]
  by (auto simp: offloadSnapshot_def Let_def split: if_splits)

section \<open>A job\<close>

lemma newest_in_path:
  assumes "newest_in dir w = (hot, w')" and "hot \<noteq> []"
  shows "\<exists>ts. isBackupDir ts \<and> hot = path_join [dir, ts]"
proof -
  obtain es where "hot = path_join [dir, latest_snapshot es]" "latest_snapshot es \<noteq> []"
    using assms by (auto simp: newest_in_def Let_def split: prod.splits sum.splits if_splits)
  moreover have "isBackupDir (latest_snapshot es)"
    using latest_snapshot_iff [of "latest_snapshot es" es] calculation(2) latest_snapshot_Nil by (auto simp: set_snapshot_names)
  ultimately show ?thesis by blast
qed

lemma newest_in_calm: "newest_in dir w = (hot, w') \<Longrightarrow> calm P w w'"
  using readdir.silent [of dir w]
  by (auto simp: newest_in_def calm_def runs_def os_ReadDir_def spares_same_fs Let_def split: prod.splits sum.splits if_splits)

lemma Base_snapshot: "proper_dir dir \<Longrightarrow> isBackupDir ts \<Longrightarrow> Base (path_join [dir, ts]) = ts"
  using Base_abs_path isBackupDir_ok_comp
  by (fastforce simp: proper_dir_def path_join_abs list_all_iff)

text \<open>The two ends of a job. Either nothing is recorded and the hot directory is as it was; or its
  newest snapshot was copied while the hot directory was as it was, the copy is on record,
  and the rest (the file of the last backups and the pruning) comes after that.\<close>

definition job_kept :: "string \<Rightarrow> Daemon \<Rightarrow> world \<Rightarrow> Daemon \<Rightarrow> world \<Rightarrow> bool" where
  "job_kept hotDir d w d' w' \<longleftrightarrow> lastBackups d' = lastBackups d \<and> spares (under hotDir) w w'"

definition job_copied :: "string \<Rightarrow> offloadJob \<Rightarrow> Daemon \<Rightarrow> world \<Rightarrow> Daemon \<Rightarrow> world \<Rightarrow> bool" where
  "job_copied hotDir job d w d' w' \<longleftrightarrow>
     (\<exists>ts prev v pg cold v' b. isBackupDir ts \<and>
        offloadSnapshot (JobCfg job) (JobWatch job) (JobServer job) (path_join [hotDir, ts]) ts (ColdTarget job) prev v
          = ((Inr cold, pg), v') \<and>
        spares (under hotDir) w v' \<and>
        map_of (lastBackups d') (JobKey job) = Some b \<and> cold_of (ColdTarget job) b = cold \<and>
        w' = prune_hot job (prune_cold job (writeLastSnapshotAt (cfgPath d) (JobServer job) (LastLocal b) (LastNAS b) (LastHot b)
          (time_of_path (loc (w_env v')) (path_join [hotDir, ts])) v')))"

lemma cold_of_offloaded: "cold_of tgt (offloaded tgt hot cold b) = cold"
  by (simp add: cold_of_def offloaded_def Let_def)

lemma transfer_job_outcome:
  assumes run: "transfer_job job hot prev d v = (r, d', w')" and c: "calm (under hotDir) w v"
    and hot: "hot = path_join [hotDir, ts]" "isBackupDir ts" "proper_dir hotDir"
    and cmds: "commands_spare (under hotDir) (w_env w)"
    and cold: "ColdTarget job = ''local'' \<Longrightarrow>
      apart hotDir (path_join [LocalDestRoot (Local (JobCfg job)), Namespace (JobWatch job), JobServer job])"
  shows "job_kept hotDir d w d' w' \<or> (r = Inr () \<and> job_copied hotDir job d w d' w')"
proof -
  have ts: "Base hot = ts" unfolding hot(1) by (rule Base_snapshot [OF hot(3,2)])
  obtain q pg v' where off: "offloadSnapshot (JobCfg job) (JobWatch job) (JobServer job) hot ts (ColdTarget job) prev v = ((q, pg), v')"
    by (metis prod.exhaust)
  have sp: "spares (under hotDir) w v'"
    using calm_trans [OF c offloadSnapshot_calm [OF off calm_cmds [OF c cmds] cold hot(2)]] by (simp add: calm_def)
  define d1 where "d1 = show_job job (JobTimestamp job) (0, 0) d"
  define d2 where "d2 = (if ts \<noteq> JobTimestamp job then show_job job ts (0, 0) d1 else d1)"
  define d3 where "d3 = fold (show_progress job ts) (shown_progress 0 pg) d2"
  have d3: "same_queue d d3" "lastBackups d3 = lastBackups d" by (simp_all add: d3_def d2_def d1_def)
  note run' = run [unfolded transfer_job_def Let_def ts off prod.case, folded d1_def, folded d2_def, folded d3_def]
  show ?thesis
  proof (cases q)
    case (Inl e)
    then show ?thesis using run' d3 sp by (auto simp: job_kept_def)
  next
    case (Inr cold)
    then have fin: "finish_offload job hot cold d3 v' = (d', w')" and r: "r = Inr ()" using run' by simp_all
    then obtain b w1 where b: "d' = drop_both job ts (set_last (JobKey job) b d3)"
        "b = offloaded (ColdTarget job) hot cold (last_of (JobKey job) d3)"
        "w1 = writeLastSnapshotAt (cfgPath d3) (JobServer job) (LastLocal b) (LastNAS b) (LastHot b)
           (time_of_path (loc (w_env v')) hot) v'" "w' = prune_hot job (prune_cold job w1)"
      using finish_offload_split [OF fin] ts by auto
    have "map_of (lastBackups d') (JobKey job) = Some b" "cold_of (ColdTarget job) b = cold" "cfgPath d3 = cfgPath d"
      using b(1,2) d3(1) by (simp_all add: cold_of_offloaded same_queue_def)
    then have "job_copied hotDir job d w d' w'"
      unfolding job_copied_def
      by (intro exI [of _ ts] exI [of _ prev] exI [of _ v] exI [of _ pg] exI [of _ cold] exI [of _ v'] exI [of _ b])
        (use off sp hot b(3,4) Inr in simp)
    with r show ?thesis by simp
  qed
qed

section \<open>Properties\<close>

text \<open>C36: an offload job never costs a hot snapshot. Whatever fails, as long as no copy is complete and
  on record the hot directory of the server is byte for byte as it was and so is the table of
  the last backups: that is how a job ends that fails, is canceled or has nothing to do. Otherwise
  the newest hot snapshot was copied while the hot directory was still as before, the copy is on
  record as the last cold backup, and only then are \<open>.last-backup\<close> written and old snapshots
  pruned. In every case no entry for the job is left in the tracker, and no
  other server's entries have changed. The commands are relied on to leave the hot directory alone; for a
  local target the two directories must not lie in one another.\<close>

theorem hot_kept_until_copied:
  assumes "processOffloadJob job d w = (r, d', w')"
    and "hotDir = path_join [HotRoot (Local (JobCfg job)), JobNamespace job, JobServer job]" and "proper_dir hotDir"
    and "commands_spare (under hotDir) (w_env w)"
    and "ColdTarget job = ''local'' \<Longrightarrow>
      apart hotDir (path_join [LocalDestRoot (Local (JobCfg job)), Namespace (JobWatch job), JobServer job])"
  shows "job_over job d d' \<and>
    (job_kept hotDir d w d' w' \<or> (r = Inr () \<and> job_copied hotDir job d w d' w'))"
proof
  show "job_over job d d'" by (rule processOffloadJob_over [OF assms(1)])
  let ?prev = "cold_of (ColdTarget job) (last_of (JobKey job) d)"
  obtain hot w1 where 1: "newest_in hotDir w = (hot, w1)" by fastforce
  note run = assms(1) [unfolded processOffloadJob_def Let_def, folded assms(2), unfolded 1 prod.case]
  have c1: "calm (under hotDir) w w1" by (rule newest_in_calm [OF 1])
  have kept: "job_kept hotDir d w (drop_job job s d) v" if "calm (under hotDir) w v" for s v
    using that by (simp add: job_kept_def calm_def)
  have wait: "calm (under hotDir) w v" if "wait_or_done CycleCtx w1 = (c, v)" for c v
    using that calm_trans [OF c1 calm_tick] by (simp add: wait_or_done_def)
  have go: ?thesis if "transfer_job job hot ?prev d v = (r, d', w')" "hot \<noteq> []" "calm (under hotDir) w v" for v
    using newest_in_path [OF 1 that(2)] transfer_job_outcome [OF that(1,3) _ _ assms(3,4,5)]
      \<open>job_over job d d'\<close> by blast
  show "job_kept hotDir d w d' w' \<or> (r = Inr () \<and> job_copied hotDir job d w d' w')"
    using run kept c1 wait go by (auto split: if_splits prod.splits)
qed

definition hot_job :: offloadJob where
  "hot_job = \<lparr>JobKey = ''mc/s'', JobNamespace = ''mc'', JobServer = ''s'', JobHotPath = ''/hot/mc/s/20260101-0000'',
     JobTimestamp = ''20260101-0000'', ColdTarget = ''local'', JobCfg = demo_config, JobWatch = demo_watch\<rparr>"

definition hot_fs :: fs where
  "hot_fs = [(''/hot'', DirNode), (''/hot/mc'', DirNode), (''/hot/mc/s'', DirNode), (''/hot/mc/s/20260101-0000'', DirNode),
     (''/hot/mc/s/20260101-0000/level.dat'', FileNode ''x'' 420)]"

theorem hot_kept_until_copied_witness:
  "case processOffloadJob hot_job run_daemon (quiet_world hot_fs) of
     (r, d', w') \<Rightarrow> job_over hot_job run_daemon d' \<and>
       (job_kept ''/hot/mc/s'' run_daemon (quiet_world hot_fs) d' w' \<or>
        (r = Inr () \<and> job_copied ''/hot/mc/s'' hot_job run_daemon (quiet_world hot_fs) d' w'))"
proof -
  obtain r d' w' where run: "processOffloadJob hot_job run_daemon (quiet_world hot_fs) = (r, d', w')" by (metis prod.exhaust)
  have dirs: "''/hot/mc/s'' = path_join [HotRoot (Local (JobCfg hot_job)), JobNamespace hot_job, JobServer hot_job]"
    "''/cold/mc/s'' = path_join [LocalDestRoot (Local (JobCfg hot_job)), Namespace (JobWatch hot_job), JobServer hot_job]"
    using demo_dirs(1,2) by (simp_all add: hot_job_def demo_config_def demo_watch_def)
  have "commands_spare (under ''/hot/mc/s'') (w_env (quiet_world hot_fs))" by (simp add: quiet_env_ok)
  moreover have "apart ''/hot/mc/s'' ''/cold/mc/s''"
    using demo_dirs(3,4) by (simp add: apart_def under_def HasPrefix_def dir_prefix_def)
  ultimately show ?thesis
    using hot_kept_until_copied [OF run dirs(1) demo_dirs(3)] run by (simp add: dirs(2) [symmetric])
qed

end
