(* ===== verification/Cli.thy ===== *)
theory Cli
  imports Daemon_Run
begin

text \<open>
  \<open>cmd/mc-backup/main.go\<close>: the command line. A command returns its exit code, what it
  wrote, and the requests it sent to the daemon. The flags are parsed as Go's \<open>flag\<close>
  package does it. What lies outside the process is an argument: whether \<open>net/http\<close> accepts a
  URL, the answers to its requests, the working directory, the path of the executable, SHA-256 and
  the run of the daemon.
\<close>

section \<open>Flags\<close>

text \<open>\<open>FlagSet.Parse\<close> for the given boolean and string flags: the values set and the arguments left, or an
  error (also for \<open>-h\<close>). A later value replaces an earlier one.\<close>

definition flag_name :: "string \<Rightarrow> string" where
  "flag_name s = (if take 2 s = ''--'' then drop 2 s else drop 1 s)"

definition flag_key :: "string \<Rightarrow> string" where
  "flag_key n = (case n of [] \<Rightarrow> [] | c # t \<Rightarrow> c # takeWhile (\<lambda>c. c \<noteq> CHR ''='') t)"

definition flag_value :: "string \<Rightarrow> string option" where
  "flag_value n = (if CHR ''='' \<in> set (tl n) then Some (drop (Suc (length (flag_key n))) n) else None)"

fun parse_flags ::
  "string list \<Rightarrow> string list \<Rightarrow> string list \<Rightarrow> (string \<times> string) list \<Rightarrow> ((string \<times> string) list \<times> string list) option" where
  "parse_flags bools strs [] vals = Some (vals, [])"
| "parse_flags bools strs (s # args) vals =
     (if length s < 2 \<or> hd s \<noteq> CHR ''-'' then Some (vals, s # args)
      else if s = ''--'' then Some (vals, args)
      else
        (let n = flag_name s; k = flag_key n
         in if n = [] \<or> hd n = CHR ''-'' \<or> hd n = CHR ''='' then None
            else if k \<in> set bools then
              (case flag_value n of
                 None \<Rightarrow> parse_flags bools strs args (AList.update k ''true'' vals)
               | Some v \<Rightarrow> if ParseBool v = None then None else parse_flags bools strs args (AList.update k v vals))
            else if k \<in> set strs then
              (case flag_value n of
                 Some v \<Rightarrow> parse_flags bools strs args (AList.update k v vals)
               | None \<Rightarrow>
                   (case args of
                      [] \<Rightarrow> None
                    | v # rest \<Rightarrow> parse_flags bools strs rest (AList.update k v vals)))
            else None))"

definition string_flag :: "(string \<times> string) list \<Rightarrow> string \<Rightarrow> string \<Rightarrow> string" where
  "string_flag vals k dflt = (case map_of vals k of Some v \<Rightarrow> v | None \<Rightarrow> dflt)"

definition bool_flag :: "(string \<times> string) list \<Rightarrow> string \<Rightarrow> bool" where
  "bool_flag vals k = (case map_of vals k of Some v \<Rightarrow> ParseBool v = Some True | None \<Rightarrow> False)"

section \<open>The surroundings and the result of a command\<close>

record http_answer =
  AnswerStatus :: int
  AnswerBody :: string
  Complete :: bool

record surroundings =
  UrlOk :: "string \<Rightarrow> bool"
  Do :: "nat \<Rightarrow> string \<Rightarrow> request \<Rightarrow> http_answer result"
  HttpGet :: "nat \<Rightarrow> string \<Rightarrow> http_answer result"
  Jobs :: "nat \<Rightarrow> string \<Rightarrow> (JobTracker result) result"
  Getwd :: "string result"
  Executable :: "string result"
  Sha256Hex :: "string \<Rightarrow> string"
  Gib :: "int \<Rightarrow> string"
  RunDaemon :: "string \<Rightarrow> Config \<Rightarrow> bool \<Rightarrow> world \<Rightarrow> unit result \<times> world"
  RepoURL :: string
  ProgVersion :: string

datatype message = Text string "string list" | Failed string error | Cells "string list" | Usage

record cli =
  ExitCode :: int
  Stdout :: "message list"
  Stderr :: "message list"
  Sent :: "(string \<times> request) list"

definition ok_with :: "message list \<Rightarrow> cli" where
  "ok_with out = \<lparr>ExitCode = 0, Stdout = out, Stderr = [], Sent = []\<rparr>"

definition fail_with :: "message list \<Rightarrow> cli" where
  "fail_with err = \<lparr>ExitCode = 1, Stdout = [], Stderr = err, Sent = []\<rparr>"

section \<open>The configuration file\<close>

definition defaultConfigPaths :: "string list" where
  "defaultConfigPaths = [''/etc/mc-backup/config.toml'']"

fun first_existing :: "string list \<Rightarrow> world \<Rightarrow> string option \<times> world" where
  "first_existing [] w = (None, w)"
| "first_existing (p # ps) w =
     (case os_Stat p w of (Inr _, w) \<Rightarrow> (Some p, w) | (Inl _, w) \<Rightarrow> first_existing ps w)"

definition findConfig :: "world \<Rightarrow> string \<times> world" where
  "findConfig w =
     (let home = getenv (env_vars (w_env w)) ''HOME'';
          homePath = path_join [home, ''.config'', ''mc-backup'', ''config.toml''];
          (found, w) = (if home \<noteq> [] then first_existing [homePath] w else (None, w))
      in case found of
           Some p \<Rightarrow> (p, w)
         | None \<Rightarrow> (let (found, w) = first_existing defaultConfigPaths w
                    in (case found of Some p \<Rightarrow> p | None \<Rightarrow> defaultConfigPaths ! 0, w)))"

definition ensureDefaultConfig :: "tomllib \<Rightarrow> string \<Rightarrow> world \<Rightarrow> message result \<times> world" where
  "ensureDefaultConfig toml path w =
     (let dir = Dir_of path; sshKeysDir = path_join [dir, ''ssh'', ''keys'']
      in case os_MkdirAll dir w of
           (Inl e, w) \<Rightarrow> (Inl (Wrapf ''create config directory %s'' e), w)
         | (Inr _, w) \<Rightarrow>
        (case os_MkdirAll sshKeysDir w of
           (Inl e, w) \<Rightarrow> (Inl (Wrapf ''create ssh keys directory %s'' e), w)
         | (Inr _, w) \<Rightarrow>
        (case SaveConfig toml path DefaultConfig w of
           (Inl e, w) \<Rightarrow> (Inl (Wrapf ''save default config to %s'' e), w)
         | (Inr _, w) \<Rightarrow> (Inr (Text ''provisioned default configuration at %s'' [path]), w))))"

section \<open>Requests to the daemon\<close>

definition maxResponseBodyBytes :: nat where "maxResponseBodyBytes = 1024 * 1024"

definition readResponseBody :: "http_answer \<Rightarrow> string result" where
  "readResponseBody a =
     (if length (AnswerBody a) \<le> maxResponseBodyBytes \<and> \<not> Complete a then Inl (Wrapf ''read response body'' CmdFailed)
      else if maxResponseBodyBytes < length (AnswerBody a)
      then Inl (Errorf ''response body exceeded limit of %d bytes'' [show_nat maxResponseBodyBytes])
      else Inr (AnswerBody a))"

definition api_request :: "Config \<Rightarrow> string \<Rightarrow> (string \<times> string) list \<Rightarrow> request" where
  "api_request cfg endpoint query =
     \<lparr>Method = ''POST'', UrlPath = CHR ''/'' # endpoint, Query = query,
      Authorization = (if APIToken (Global cfg) \<noteq> [] then ''Bearer '' @ APIToken (Global cfg) else [])\<rparr>"

text \<open>What follows the loading of the configuration in \<open>backupCmd\<close> and \<open>postCmd\<close>; the messages for
  the codes other than 200 and 401 differ.\<close>

definition send_request ::
  "surroundings \<Rightarrow> Config \<Rightarrow> string \<Rightarrow> (string \<times> string) list \<Rightarrow> (int \<Rightarrow> message) \<Rightarrow> world \<Rightarrow> cli \<times> world" where
  "send_request sr cfg endpoint query other w =
     (let addr = ListenAddr (Global cfg); r = api_request cfg endpoint query;
          sent = (\<lambda>c. c\<lparr>Sent := [(addr, r)]\<rparr>)
      in if \<not> UrlOk sr (''http://'' @ addr @ CHR ''/'' # endpoint)
         then (fail_with [Failed (endpoint @ '': %v'') (Errorf ''parse URL'' [])], w)
         else (case Do sr (w_tick w) addr r of
                 Inl e \<Rightarrow> (sent (fail_with [Failed (endpoint @ '' failed: %v'') e]), tick w)
               | Inr a \<Rightarrow>
                   (if AnswerStatus a = 200 then
                      (case readResponseBody a of
                         Inl e \<Rightarrow> sent (fail_with [Failed (endpoint @ '': %v'') e])
                       | Inr body \<Rightarrow> sent (ok_with [Text (endpoint @ '': %s'') [body]]))
                    else if AnswerStatus a = 401
                    then sent (fail_with [Text (endpoint @ '': unauthorized (check global.api_token)'') []])
                    else sent (fail_with [other (AnswerStatus a)]), tick w)))"

text \<open>The beginning all commands share: the flags and then the configuration.\<close>

definition backup_server :: "surroundings \<Rightarrow> Config \<Rightarrow> string list \<Rightarrow> string" where
  "backup_server sr cfg rest =
     (let server = (case rest of s # _ \<Rightarrow> s | [] \<Rightarrow> [])
      in if server \<noteq> [] then server
         else (case Getwd sr of
                 Inl _ \<Rightarrow> []
               | Inr cwd \<Rightarrow> if map_of (Servers cfg) (ToLower (Base cwd)) \<noteq> None then Base cwd else []))"

definition backup_query :: "string \<Rightarrow> bool \<Rightarrow> (string \<times> string) list" where
  "backup_query server offline =
     (if server \<noteq> [] then [(''server'', server)] else []) @ (if offline then [(''offline'', ''true'')] else [])"

definition backupCmd :: "golib \<Rightarrow> tomllib \<Rightarrow> surroundings \<Rightarrow> string list \<Rightarrow> world \<Rightarrow> cli \<times> world" where
  "backupCmd gl toml sr args w =
     (let (dflt, w) = findConfig w
      in case parse_flags [''offline''] [''config''] args [] of
           None \<Rightarrow> (fail_with [Usage], w)
         | Some (vals, rest) \<Rightarrow>
             (case LoadConfig gl toml (string_flag vals ''config'' dflt) w of
                (Inl e, w) \<Rightarrow> (fail_with [Failed ''config error: %v'' e], w)
              | (Inr cfg, w) \<Rightarrow>
                  send_request sr cfg ''backup'' (backup_query (backup_server sr cfg rest) (bool_flag vals ''offline''))
                    (\<lambda>c. Text ''backup: daemon returned %d'' [show_int c]) w))"

definition post_other :: "string \<Rightarrow> int \<Rightarrow> message" where
  "post_other endpoint c =
     (if c = 405 then Text (endpoint @ '': daemon not responding to POST'') []
      else Text (endpoint @ '': unexpected status %d'') [show_int c])"

definition postCmd :: "golib \<Rightarrow> tomllib \<Rightarrow> surroundings \<Rightarrow> string \<Rightarrow> string list \<Rightarrow> world \<Rightarrow> cli \<times> world" where
  "postCmd gl toml sr endpoint args w =
     (let (dflt, w) = findConfig w
      in case parse_flags [] [''config''] args [] of
           None \<Rightarrow> (fail_with [Usage], w)
         | Some (vals, rest) \<Rightarrow>
             (case LoadConfig gl toml (string_flag vals ''config'' dflt) w of
                (Inl e, w) \<Rightarrow> (fail_with [Failed ''config error: %v'' e], w)
              | (Inr cfg, w) \<Rightarrow> send_request sr cfg endpoint [] (post_other endpoint) w))"

definition statusCmd :: "golib \<Rightarrow> tomllib \<Rightarrow> surroundings \<Rightarrow> string list \<Rightarrow> world \<Rightarrow> cli \<times> world" where
  "statusCmd gl toml sr args w =
     (let (dflt, w) = findConfig w
      in case parse_flags [] [''config''] args [] of
           None \<Rightarrow> (fail_with [Usage], w)
         | Some (vals, rest) \<Rightarrow>
             (case LoadConfig gl toml (string_flag vals ''config'' dflt) w of
                (Inl e, w) \<Rightarrow> (fail_with [Failed ''status error: %v'' e], w)
              | (Inr cfg, w) \<Rightarrow>
                  (case PrintDashboardTo (Gib sr) (ListenAddr (Global cfg)) (Jobs sr (w_tick w) (ListenAddr (Global cfg))) of
                     Inl e \<Rightarrow> (fail_with [Failed ''status error: %v'' e], tick w)
                   | Inr rows \<Rightarrow> (ok_with (List.map Cells rows), tick w))))"

section \<open>\<open>config\<close> and \<open>run\<close>\<close>

definition configCmd :: "golib \<Rightarrow> tomllib \<Rightarrow> string list \<Rightarrow> world \<Rightarrow> cli \<times> world" where
  "configCmd gl toml args w =
     (let (dflt, w) = findConfig w
      in case parse_flags [] [''config''] args [] of
           None \<Rightarrow> (fail_with [Usage], w)
         | Some (vals, cmdArgs) \<Rightarrow>
             (let path = string_flag vals ''config'' dflt
              in case cmdArgs of
                   [] \<Rightarrow> (fail_with [Text ''usage: mc-backup config <get|set> <key> [value]'' []], w)
                 | action # rest \<Rightarrow>
                     if action = ''get'' then
                       (case rest of
                          [] \<Rightarrow> (fail_with [Text ''usage: mc-backup config get <key>'' []], w)
                        | key # _ \<Rightarrow>
                            (case LoadConfig gl toml path w of
                               (Inl e, w) \<Rightarrow> (fail_with [Failed ''config error: %v'' e], w)
                             | (Inr cfg, w) \<Rightarrow> (ok_with [Text ''%s'' [GetConfigValue gl cfg key]], w)))
                     else if action = ''set'' then
                       (case rest of
                          key # val # _ \<Rightarrow>
                            (case SetConfigValue gl toml path key val w of
                               (Inl e, w) \<Rightarrow> (fail_with [Failed ''config error: %v'' e], w)
                             | (Inr _, w) \<Rightarrow> (ok_with [], w))
                        | _ \<Rightarrow> (fail_with [Text ''usage: mc-backup config set <key> <value>'' []], w))
                     else (fail_with [Text ''unknown config action: %s'' [action]], w)))"

text \<open>The configuration \<open>run\<close> starts with: the file, or the default one written where there is none.\<close>

definition run_load :: "golib \<Rightarrow> tomllib \<Rightarrow> string \<Rightarrow> world \<Rightarrow> (message + Config) \<times> message list \<times> world" where
  "run_load gl toml path w =
     (case LoadConfig gl toml path w of
        (Inr cfg, w) \<Rightarrow> (Inr cfg, [], w)
      | (Inl e, w) \<Rightarrow>
          (case os_Stat path w of
             (Inr _, w) \<Rightarrow> (Inl (Failed ''config error: %v'' e), [], w)
           | (Inl se, w) \<Rightarrow>
               if \<not> IsNotExist se then (Inl (Failed ''config error: %v'' e), [], w)
               else (case ensureDefaultConfig toml path w of
                       (Inl e, w) \<Rightarrow> (Inl (Failed ''failed to provision default config: %v'' e), [], w)
                     | (Inr m, w) \<Rightarrow>
                         (case LoadConfig gl toml path w of
                            (Inr cfg, w) \<Rightarrow> (Inr cfg, [m], w)
                          | (Inl e, w) \<Rightarrow> (Inl (Failed ''config error: %v'' e), [m], w)))))"

definition runCmd :: "golib \<Rightarrow> tomllib \<Rightarrow> surroundings \<Rightarrow> string list \<Rightarrow> world \<Rightarrow> cli \<times> world" where
  "runCmd gl toml sr args w =
     (let (dflt, w) = findConfig w
      in case parse_flags [''debug''] [''config''] args [] of
           None \<Rightarrow> (fail_with [Usage], w)
         | Some (vals, rest) \<Rightarrow>
             (let path = string_flag vals ''config'' dflt
              in case run_load gl toml path w of
                   (Inl m, out, w) \<Rightarrow> ((fail_with [m])\<lparr>Stdout := out\<rparr>, w)
                 | (Inr cfg, out, w) \<Rightarrow>
                     (case RunDaemon sr path cfg (bool_flag vals ''debug'') w of
                        (Inl e, w) \<Rightarrow> ((fail_with [Failed ''daemon error: %v'' e])\<lparr>Stdout := out\<rparr>, w)
                      | (Inr _, w) \<Rightarrow> (ok_with out, w))))"

section \<open>\<open>update\<close>\<close>

definition deriveReleaseURL :: "string \<Rightarrow> string" where
  "deriveReleaseURL repo = TrimSuffix repo ''.git'' @ ''/releases/latest/download/mc-backup-linux-amd64''"

text \<open>\<open>io.Copy\<close> of the body to the open file fails when a write fails or the body breaks off.\<close>

definition copy_body :: "string \<Rightarrow> http_answer \<Rightarrow> world \<Rightarrow> unit result \<times> world" where
  "copy_body dest a w =
     (case os_Write dest (AnswerBody a) w of
        (Inl e, w) \<Rightarrow> (Inl e, w)
      | (Inr _, w) \<Rightarrow> (if Complete a then Inr () else Inl CmdFailed, w))"

definition downloadFile :: "surroundings \<Rightarrow> string \<Rightarrow> string \<Rightarrow> world \<Rightarrow> unit result \<times> world" where
  "downloadFile sr url dest w =
     (case HttpGet sr (w_tick w) url of
        Inl e \<Rightarrow> (Inl (Wrapf ''download %s'' e), tick w)
      | Inr a \<Rightarrow>
          (let w = tick w
           in if AnswerStatus a \<noteq> 200 then (Inl (Errorf ''download %s: HTTP %d'' [url, show_int (AnswerStatus a)]), w)
              else (case os_Create dest w of
                      (Inl e, w) \<Rightarrow> (Inl (Wrapf ''create %s'' e), w)
                    | (Inr _, w) \<Rightarrow>
                   (case os_Chmod dest 493 w of
                      (Inl e, w) \<Rightarrow> (Inl (Wrapf ''chmod %s'' e), snd (os_Remove dest (snd (os_Close dest w))))
                    | (Inr _, w) \<Rightarrow>
                   (case copy_body dest a w of
                      (Inl e, w) \<Rightarrow> (Inl (Wrapf ''write %s'' e), snd (os_Remove dest (snd (os_Close dest w))))
                    | (Inr _, w) \<Rightarrow>
                   (case os_Close dest w of
                      (Inl e, w) \<Rightarrow> (Inl (Wrapf ''close %s'' e), snd (os_Remove dest w))
                    | (Inr _, w) \<Rightarrow> (Inr (), w)))))))"

text \<open>The checksum is the first word of at most 4096 bytes; a body that breaks off before that is an
  error. Opening the binary is a \<open>Stat\<close>, hashing it a read.\<close>

definition verifyChecksum :: "surroundings \<Rightarrow> string \<Rightarrow> string \<Rightarrow> world \<Rightarrow> unit result \<times> world" where
  "verifyChecksum sr binaryPath url w =
     (case HttpGet sr (w_tick w) url of
        Inl e \<Rightarrow> (Inl (Wrapf ''fetch checksum %s'' e), tick w)
      | Inr a \<Rightarrow>
          (let w = tick w; fields = Fields (TrimSpace (take 4096 (AnswerBody a)))
           in if AnswerStatus a \<noteq> 200 then (Inl (Errorf ''fetch checksum %s: HTTP %d'' [url, show_int (AnswerStatus a)]), w)
              else if length (AnswerBody a) < 4096 \<and> \<not> Complete a then (Inl (Wrapf ''read checksum'' CmdFailed), w)
              else if fields = [] then (Inl (Errorf ''checksum %s is empty'' [url]), w)
              else (case os_Stat binaryPath w of
                      (Inl e, w) \<Rightarrow> (Inl (Wrapf ''open %s'' e), w)
                    | (Inr _, w) \<Rightarrow>
                   (case os_ReadFile binaryPath w of
                      (Inl e, w) \<Rightarrow> (Inl (Wrapf ''hash %s'' e), w)
                    | (Inr content, w) \<Rightarrow>
                        let expected = hd fields; got = Sha256Hex sr content
                        in if \<not> EqualFold got expected
                           then (Inl (Errorf ''checksum mismatch: want %s, got %s'' [expected, got]), w)
                           else (Inr (), w)))))"

definition update_steps :: "string \<Rightarrow> (string \<times> string list) list" where
  "update_steps execPath =
     [(''Stopping mc-backup service'', [''sudo'', ''systemctl'', ''stop'', ''mc-backup'']),
      (''Installing mc-backup'', [''sudo'', ''mv'', execPath @ ''.new'', execPath]),
      (''Starting mc-backup service'', [''sudo'', ''systemctl'', ''start'', ''mc-backup'']),
      (''mc-backup service status'', [''systemctl'', ''status'', ''mc-backup'', ''--no-pager''])]"

fun run_update_steps :: "(string \<times> string list) list \<Rightarrow> world \<Rightarrow> unit result \<times> world" where
  "run_update_steps [] w = (Inr (), w)"
| "run_update_steps ((name, argv) # ss) w =
     (let ((ok, _), w) = run_cmd BackgroundCtx argv [] w
      in if ok then run_update_steps ss w else (Inl (Wrapf name CmdFailed), w))"

text \<open>The titles of the steps and what the commands print go to the terminal and are left out.\<close>

definition runUpdate :: "surroundings \<Rightarrow> world \<Rightarrow> unit result \<times> message list \<times> world" where
  "runUpdate sr w =
     (if RepoURL sr = [] then (Inl (Errorf ''update requires a built binary with embedded repo URL'' []), [], w)
      else
        (case Executable sr of
           Inl e \<Rightarrow> (Inl (Wrapf ''cannot determine binary path'' e), [], w)
         | Inr execPath \<Rightarrow>
             (let tmpBin = execPath @ ''.new''; releaseURL = deriveReleaseURL (RepoURL sr);
                  out = [Text ''Downloading %s'' [releaseURL]]
              in case downloadFile sr releaseURL tmpBin w of
                   (Inl e, w) \<Rightarrow> (Inl (Wrapf ''download'' e), out, w)
                 | (Inr _, w) \<Rightarrow>
                     (case verifyChecksum sr tmpBin (releaseURL @ ''.sha256'') w of
                        (Inl e, w) \<Rightarrow> (Inl (Wrapf ''checksum'' e), out, snd (os_Remove tmpBin w))
                      | (Inr _, w) \<Rightarrow> (let (r, w) = run_update_steps (update_steps execPath) w in (r, out, w))))))"

definition updateCmd :: "surroundings \<Rightarrow> world \<Rightarrow> cli \<times> world" where
  "updateCmd sr w =
     (case runUpdate sr w of
        (Inl e, out, w) \<Rightarrow> ((fail_with [Failed ''update failed: %v'' e])\<lparr>Stdout := out\<rparr>, w)
      | (Inr _, out, w) \<Rightarrow> (ok_with out, w))"

section \<open>The program\<close>

definition runCLI :: "golib \<Rightarrow> tomllib \<Rightarrow> surroundings \<Rightarrow> string list \<Rightarrow> world \<Rightarrow> cli \<times> world" where
  "runCLI gl toml sr args w =
     (case args of
        [] \<Rightarrow> (fail_with [Usage], w)
      | cmd # rest \<Rightarrow>
          if cmd = ''run'' then runCmd gl toml sr rest w
          else if cmd = ''status'' then statusCmd gl toml sr rest w
          else if cmd = ''config'' then configCmd gl toml rest w
          else if cmd = ''backup'' then backupCmd gl toml sr rest w
          else if cmd = ''scan'' then postCmd gl toml sr ''scan'' rest w
          else if cmd = ''cancel'' then postCmd gl toml sr ''cancel'' rest w
          else if cmd = ''update'' then updateCmd sr w
          else if cmd \<in> {''version'', ''--version'', ''-v''} then (ok_with [Text ''mc-backup %s'' [ProgVersion sr]], w)
          else (fail_with [Text ''unknown command: %s'' [cmd], Usage], w))"

end
