(* ===== verification/Cli_Laws.thy ===== *)
theory Cli_Laws
  imports Cli
begin

text \<open>
  Properties of the command line: a command that triggers an action reaches the handler of the
  daemon it means, and an update installs nothing but a verified download.
\<close>

section \<open>The command line and the status API\<close>

text \<open>A value a HTTP header carries unchanged: printable ASCII that does not end with a space.\<close>

definition header_ok :: "string \<Rightarrow> bool" where
  "header_ok v \<longleftrightarrow> list_all (\<lambda>c. CHR '' '' \<le> c \<and> c \<le> CHR ''~'') v \<and> (v \<noteq> [] \<longrightarrow> last v \<noteq> CHR '' '')"

text \<open>What is relied on of the network: a \<open>POST\<close> request with such a header gets the answer of the handler.\<close>

definition answer_of :: "response \<Rightarrow> http_answer" where
  "answer_of resp = \<lparr>AnswerStatus = StatusCode resp,
     AnswerBody = (case Body resp of TextBody s \<Rightarrow> s | _ \<Rightarrow> []), Complete = True\<rparr>"

definition connected :: "surroundings \<Rightarrow> JobTracker \<Rightarrow> string \<Rightarrow> bool" where
  "connected sr jt token \<longleftrightarrow> (\<forall>k addr r. header_ok (Authorization r) \<and> Method r = ''POST'' \<longrightarrow>
     Do sr k addr r = Inr (answer_of (fst (newStatusMux jt token r))))"

text \<open>The action a command line asks for.\<close>

definition requested :: "surroundings \<Rightarrow> Config \<Rightarrow> (string \<times> string) list \<Rightarrow> string list \<Rightarrow> string \<Rightarrow> callback" where
  "requested sr cfg vals rest cmd =
     (if cmd = ''backup'' then OnBackup (backup_server sr cfg rest) (bool_flag vals ''offline'')
      else if cmd = ''scan'' then OnScan else OnCancel)"

definition cmd_query :: "surroundings \<Rightarrow> Config \<Rightarrow> (string \<times> string) list \<Rightarrow> string list \<Rightarrow> string \<Rightarrow> (string \<times> string) list" where
  "cmd_query sr cfg vals rest cmd =
     (if cmd = ''backup'' then backup_query (backup_server sr cfg rest) (bool_flag vals ''offline'') else [])"

lemma api_token:
  "checkBearerToken (api_request cfg endpoint q) token \<longleftrightarrow> token = [] \<or> token = APIToken (Global cfg)"
  by (auto simp: checkBearerToken_def api_request_def HasPrefix_def TrimPrefix_def)

lemma backup_query_Get:
  "query_Get (api_request cfg e (backup_query server offline)) ''server'' = server"
  "query_Get (api_request cfg e (backup_query server offline)) ''offline'' = ''true'' \<longleftrightarrow> offline"
  by (auto simp: query_Get_def api_request_def backup_query_def)

text \<open>The handler on the request of a command.\<close>

lemma mux_on_request:
  assumes "cmd \<in> {''backup'', ''scan'', ''cancel''}"
  shows "\<exists>s. length s < 100 \<and> newStatusMux jt token (api_request cfg cmd (cmd_query sr cfg vals rest cmd)) =
    (if token = [] \<or> token = APIToken (Global cfg)
     then (reply 200 (TextBody s), Some (requested sr cfg vals rest cmd)) else (reply 401 NoBody, None))"
proof -
  have path: "UrlPath (api_request cfg e q) = CHR ''/'' # e" "Method (api_request cfg e q) = ''POST''" for e q
    by (simp_all add: api_request_def)
  from assms consider "cmd = ''backup''" | "cmd = ''scan''" | "cmd = ''cancel''" by blast
  then show ?thesis
  proof cases
    case 1
    then show ?thesis
      by (intro exI [of _ "''backup triggered''"])
        (simp add: newStatusMux_def guarded_post_def path api_token requested_def cmd_query_def backup_query_Get)
  next
    case 2
    then show ?thesis
      by (intro exI [of _ "''scan triggered''"]) (simp add: newStatusMux_def guarded_post_def path api_token requested_def)
  next
    case 3
    then show ?thesis
      by (intro exI [of _ "''canceled''"]) (simp add: newStatusMux_def guarded_post_def path api_token requested_def)
  qed
qed

lemma runCLI_sends:
  assumes "cmd \<in> {''backup'', ''scan'', ''cancel''}" and "findConfig w = (dflt, w0)"
    and "parse_flags (if cmd = ''backup'' then [''offline''] else []) [''config''] args [] = Some (vals, rest)"
    and "LoadConfig gl toml (string_flag vals ''config'' dflt) w0 = (Inr cfg, w1)"
  shows "\<exists>other. runCLI gl toml sr (cmd # args) w = send_request sr cfg cmd (cmd_query sr cfg vals rest cmd) other w1"
proof (cases "cmd = ''backup''")
  case True
  have "runCLI gl toml sr (cmd # args) w = backupCmd gl toml sr args w" by (simp add: runCLI_def True)
  also have "\<dots> = send_request sr cfg cmd (cmd_query sr cfg vals rest cmd) (\<lambda>c. Text ''backup: daemon returned %d'' [show_int c]) w1"
    using assms(2,3,4) by (simp add: backupCmd_def cmd_query_def True)
  finally show ?thesis by blast
next
  case False
  then have cmd: "cmd = ''scan'' \<or> cmd = ''cancel''" using assms(1) by simp
  then have "runCLI gl toml sr (cmd # args) w = postCmd gl toml sr cmd args w" by (auto simp: runCLI_def)
  also have "\<dots> = send_request sr cfg cmd (cmd_query sr cfg vals rest cmd) (post_other cmd) w1"
    using assms(2,3,4) False by (simp add: postCmd_def cmd_query_def)
  finally show ?thesis by blast
qed

lemma send_request_outcome:
  assumes "UrlOk sr (''http://'' @ ListenAddr (Global cfg) @ CHR ''/'' # e)"
    and "Do sr (w_tick w) (ListenAddr (Global cfg)) (api_request cfg e q) = Inr (answer_of resp)"
    and "resp = reply 200 (TextBody s) \<and> length s < 100 \<or> resp = reply 401 NoBody"
  shows "Sent (fst (send_request sr cfg e q other w)) = [(ListenAddr (Global cfg), api_request cfg e q)] \<and>
    ExitCode (fst (send_request sr cfg e q other w)) = (if StatusCode resp = 200 then 0 else 1)"
proof -
  have "length s < 100 \<Longrightarrow> readResponseBody (answer_of (reply 200 (TextBody s))) = Inr s"
    by (simp add: readResponseBody_def answer_of_def reply_def maxResponseBodyBytes_def)
  moreover have "AnswerStatus (answer_of resp) = StatusCode resp" by (simp add: answer_of_def)
  ultimately show ?thesis
    using assms by (auto simp: send_request_def Let_def reply_def ok_with_def fail_with_def)
qed

text \<open>C39: \<open>mc-backup backup\<close>, \<open>scan\<close> and \<open>cancel\<close> do what they say, through the API. With a
  configuration that loads, each sends exactly one request, to the address of the configuration,
  and the handler of a daemon whose token is none or that of the configuration calls exactly the
  action asked for, with the server and the \<open>--offline\<close> flag of the command line; the exit
  code is then 0. Under another token nothing is called and the exit code is 1. The network is
  relied on to deliver the request and the answer unchanged; the token must be one a HTTP
  header can carry.\<close>

theorem cli_triggers:
  assumes "cmd \<in> {''backup'', ''scan'', ''cancel''}" and "findConfig w = (dflt, w0)"
    and "parse_flags (if cmd = ''backup'' then [''offline''] else []) [''config''] args [] = Some (vals, rest)"
    and "LoadConfig gl toml (string_flag vals ''config'' dflt) w0 = (Inr cfg, w1)"
    and "UrlOk sr (''http://'' @ ListenAddr (Global cfg) @ CHR ''/'' # cmd)"
    and "connected sr jt token" and "header_ok (Authorization (api_request cfg cmd []))"
  shows "case runCLI gl toml sr (cmd # args) w of (c, w') \<Rightarrow>
    \<exists>r. Sent c = [(ListenAddr (Global cfg), r)] \<and>
      (if token = [] \<or> token = APIToken (Global cfg)
       then ExitCode c = 0 \<and> snd (newStatusMux jt token r) = Some (requested sr cfg vals rest cmd)
       else ExitCode c = 1 \<and> snd (newStatusMux jt token r) = None)"
proof -
  let ?q = "cmd_query sr cfg vals rest cmd"
  let ?r = "api_request cfg cmd ?q"
  let ?ok = "token = [] \<or> token = APIToken (Global cfg)"
  obtain s where s: "length s < 100" and mux: "newStatusMux jt token ?r =
      (if ?ok then (reply 200 (TextBody s), Some (requested sr cfg vals rest cmd)) else (reply 401 NoBody, None))"
    using mux_on_request [OF assms(1)] by blast
  have "header_ok (Authorization ?r)" "Method ?r = ''POST''"
    using assms(7) by (auto simp: api_request_def header_ok_def)
  then have answer: "Do sr k addr ?r = Inr (answer_of (fst (newStatusMux jt token ?r)))" for k addr
    using assms(6) by (simp add: connected_def)
  obtain other where run: "runCLI gl toml sr (cmd # args) w = send_request sr cfg cmd ?q other w1"
    using runCLI_sends [OF assms(1-4)] by blast
  have resp: "fst (newStatusMux jt token ?r) = reply 200 (TextBody s) \<and> length s < 100 \<or>
      fst (newStatusMux jt token ?r) = reply 401 NoBody"
    using s by (simp add: mux)
  obtain c w' where c: "send_request sr cfg cmd ?q other w1 = (c, w')" by fastforce
  have "Sent c = [(ListenAddr (Global cfg), ?r)]" "ExitCode c = (if StatusCode (fst (newStatusMux jt token ?r)) = 200 then 0 else 1)"
    using send_request_outcome [OF assms(5) answer resp, of other w1] unfolding c fst_conv by blast+
  then show ?thesis
    unfolding run c prod.case by (intro exI [of _ ?r]) (simp add: mux reply_def)
qed

definition demo_sr :: surroundings where
  "demo_sr = \<lparr>UrlOk = (\<lambda>_. True), Do = (\<lambda>_ _ r. Inr (answer_of (fst (newStatusMux [] [] r)))),
     HttpGet = (\<lambda>_ _. Inr \<lparr>AnswerStatus = 200, AnswerBody = ''ab'', Complete = True\<rparr>), Jobs = (\<lambda>_ _. Inr (Inr [])),
     Getwd = Inr ''/'', Executable = Inr ''/opt/mc'', Sha256Hex = (\<lambda>_. ''AB''), Gib = show_int,
     RunDaemon = (\<lambda>_ _ _ w. (Inr (), w)), RepoURL = ''https://h/r.git'', ProgVersion = ''0.1.0''\<rparr>"

theorem cli_triggers_witness:
  "case runCLI small_golib small_toml demo_sr [''backup'', ''--config'', ''/etc/c.toml'', ''-offline'', ''s''] (quiet_world conf_fs) of
     (c, w') \<Rightarrow> \<exists>r. Sent c = [(''127.0.0.1:47990'', r)] \<and> ExitCode c = 0 \<and>
       snd (newStatusMux [] [] r) = Some (OnBackup ''s'' True)"
proof -
  have find: "findConfig (quiet_world conf_fs) = (''/etc/mc-backup/config.toml'', tick (quiet_world conf_fs))"
    by (simp add: findConfig_def quiet_env_def defaultConfigPaths_def os_Stat_def faulty_def conf_fs_def)
  have flags: "parse_flags (if ''backup'' = ''backup'' then [''offline''] else []) [''config'']
      [''--config'', ''/etc/c.toml'', ''-offline'', ''s''] [] = Some ([(''config'', ''/etc/c.toml''), (''offline'', ''true'')], [''s''])"
    by code_simp
  have load: "LoadConfig small_golib small_toml (string_flag [(''config'', ''/etc/c.toml''), (''offline'', ''true'')] ''config''
      ''/etc/mc-backup/config.toml'') (tick (quiet_world conf_fs)) = (Inr DefaultConfig, tick (tick (tick (tick (quiet_world conf_fs)))))"
    by (simp add: string_flag_def small_load_at)
  have con: "connected demo_sr [] []" by (simp add: connected_def demo_sr_def)
  have url: "UrlOk demo_sr x" for x by (simp add: demo_sr_def)
  have hdr: "header_ok (Authorization (api_request DefaultConfig ''backup'' []))"
    by (simp add: header_ok_def api_request_def DefaultConfig_def)
  have addr: "ListenAddr (Global DefaultConfig) = ''127.0.0.1:47990''" by (simp add: DefaultConfig_def)
  have act: "requested demo_sr DefaultConfig [(''config'', ''/etc/c.toml''), (''offline'', ''true'')] [''s''] ''backup'' = OnBackup ''s'' True"
    by (simp add: requested_def backup_server_def bool_flag_def ParseBool_def)
  from cli_triggers [OF _ find flags load url con hdr] show ?thesis
    by (simp add: addr act)
qed

section \<open>The update\<close>

definition update_events :: "string \<Rightarrow> (bool \<Rightarrow> event) list" where
  "update_events execPath = List.map (\<lambda>(_, argv) ok. Exec BackgroundCtx argv [] ok) (update_steps execPath)"

lemma run_update_steps_runs:
  "run_update_steps ss w = (r, w') \<Longrightarrow>
     \<exists>k. runs w (run_steps (List.map (\<lambda>(_, argv) ok. Exec BackgroundCtx argv [] ok) ss) k) w' \<and> (is_ok r \<longleftrightarrow> length ss \<le> k)"
proof (induction ss arbitrary: w)
  case (Cons s ss)
  obtain name argv where s: "s = (name, argv)" by fastforce
  obtain ok out w1 where 1: "run_cmd BackgroundCtx argv [] w = ((ok, out), w1)" by (metis prod.exhaust)
  note run1 = run_cmd_runs [OF 1]
  show ?case
  proof (cases ok)
    case True
    then obtain k where k: "runs w1 (run_steps (List.map (\<lambda>(_, argv) ok. Exec BackgroundCtx argv [] ok) ss) k) w'"
        "is_ok r \<longleftrightarrow> length ss \<le> k"
      using Cons 1 s by auto
    then show ?thesis using runs_trans [OF run1 k(1)] True by (intro exI [of _ "Suc k"]) (simp add: s)
  next
    case False
    then have "w' = w1" "\<not> is_ok r" using Cons.prems 1 s by auto
    then show ?thesis using run1 False by (intro exI [of _ 0]) (simp add: s)
  qed
qed auto

lemma tick_silent: "runs w [] (tick w)"
  by (simp add: runs_def)

lemma runs_remove: "runs w ev v \<Longrightarrow> runs w ev (snd (os_Remove p v))"
  using runs_quiet remove.silent_snd by blast

lemma runs_close: "runs w ev v \<Longrightarrow> runs w ev (snd (os_Close p v))"
  using runs_quiet close.silent_snd by blast

lemma copy_body_runs: "copy_body dest a w = (r, w') \<Longrightarrow> runs w [] w'"
  using writefile.silent [of dest "AnswerBody a" w]
  by (auto simp: copy_body_def split: prod.splits sum.splits)

lemma downloadFile_runs:
  assumes "downloadFile sr url dest w = (r, w')"
  shows "runs w [] w'"
proof (cases "HttpGet sr (w_tick w) url")
  case (Inl e)
  then show ?thesis using assms tick_silent by (auto simp: downloadFile_def)
next
  case (Inr a)
  obtain r1 w1 where 1: "os_Create dest (tick w) = (r1, w1)" by fastforce
  obtain r2 w2 where 2: "os_Chmod dest 493 w1 = (r2, w2)" by fastforce
  obtain r3 w3 where 3: "copy_body dest a w2 = (r3, w3)" by fastforce
  obtain r4 w4 where 4: "os_Close dest w3 = (r4, w4)" by fastforce
  have s1: "runs w [] w1" by (rule runs_quiet [OF tick_silent create.silent [OF 1]])
  have s2: "runs w [] w2" by (rule runs_quiet [OF s1 chmod.silent [OF 2]])
  have s3: "runs w [] w3" by (rule runs_quiet [OF s2 copy_body_runs [OF 3]])
  have s4: "runs w [] w4" by (rule runs_quiet [OF s3 close.silent [OF 4]])
  show ?thesis
    using assms Inr s1 s2 s3 s4 tick_silent runs_remove runs_close
    by (cases "AnswerStatus a = 200"; cases r1; cases r2; cases r3; cases r4) (auto simp: downloadFile_def 1 2 3 4)
qed

text \<open>What a successful download leaves: the bytes that were sent, executable.\<close>

lemma downloadFile_file:
  assumes "downloadFile sr url dest w = (Inr u, w')"
  shows "\<exists>k a. HttpGet sr k url = Inr a \<and> AnswerStatus a = 200 \<and> Complete a \<and>
    map_of (w_fs w') dest = Some (FileNode (AnswerBody a) 493)"
proof -
  obtain a where a: "HttpGet sr (w_tick w) url = Inr a" "AnswerStatus a = 200"
    using assms by (auto simp: downloadFile_def Let_def split: sum.splits if_splits)
  obtain u1 w1 where 1: "os_Create dest (tick w) = (Inr u1, w1)"
    using assms a by (auto simp: downloadFile_def split: sum.splits prod.splits)
  obtain u2 w2 where 2: "os_Chmod dest 493 w1 = (Inr u2, w2)"
    using assms a 1 by (auto simp: downloadFile_def split: sum.splits prod.splits)
  obtain u3 w3 where 3: "copy_body dest a w2 = (Inr u3, w3)"
    using assms a 1 2 by (auto simp: downloadFile_def split: sum.splits prod.splits)
  have 4: "w_fs w' = w_fs w3"
    using assms a 1 2 3 by (auto simp: downloadFile_def os_Close_def split: sum.splits prod.splits if_splits)
  have "\<exists>m. map_of (w_fs w1) dest = Some (FileNode [] m)"
    using 1 by (auto simp: os_Create_def split: option.splits node.splits if_splits)
  then have "map_of (w_fs w2) dest = Some (FileNode [] 493)"
    using 2 by (auto simp: os_Chmod_def split: if_splits)
  then have "map_of (w_fs w3) dest = Some (FileNode (AnswerBody a) 493)" and "Complete a"
    using 3 by (auto simp: copy_body_def os_Write_def split: if_splits)
  with a 4 show ?thesis by (intro exI [of _ "w_tick w"] exI [of _ a]) simp
qed

lemma verifyChecksum_keeps: "verifyChecksum sr p url w = (r, w') \<Longrightarrow> runs w [] w' \<and> w_fs w' = w_fs w"
  by (auto simp: verifyChecksum_def os_Stat_def os_ReadFile_def Let_def runs_def
      split: sum.splits prod.splits if_splits option.splits node.splits)

lemma verifyChecksum_ok:
  assumes "verifyChecksum sr p url w = (Inr u, w')" and "map_of (w_fs w) p = Some (FileNode c m)"
  shows "\<exists>k s. HttpGet sr k url = Inr s \<and> AnswerStatus s = 200 \<and>
    (\<exists>x xs. Fields (TrimSpace (take 4096 (AnswerBody s))) = x # xs \<and> EqualFold (Sha256Hex sr c) x)"
proof -
  obtain s where s: "HttpGet sr (w_tick w) url = Inr s" "AnswerStatus s = 200"
    "Fields (TrimSpace (take 4096 (AnswerBody s))) \<noteq> []"
    using assms(1) by (auto simp: verifyChecksum_def Let_def split: sum.splits if_splits)
  then have "EqualFold (Sha256Hex sr c) (hd (Fields (TrimSpace (take 4096 (AnswerBody s)))))"
    using assms by (auto simp: verifyChecksum_def Let_def os_Stat_def os_ReadFile_def split: if_splits)
  with s show ?thesis by (metis list.collapse)
qed

text \<open>The new binary lies ready: the complete body of the release, executable, and its SHA-256 is the first
  word of the published checksum.\<close>

definition verified_binary :: "surroundings \<Rightarrow> string \<Rightarrow> world \<Rightarrow> bool" where
  "verified_binary sr execPath v \<longleftrightarrow>
     (\<exists>k a l s x xs. HttpGet sr k (deriveReleaseURL (RepoURL sr)) = Inr a \<and> AnswerStatus a = 200 \<and> Complete a \<and>
        map_of (w_fs v) (execPath @ ''.new'') = Some (FileNode (AnswerBody a) 493) \<and>
        HttpGet sr l (deriveReleaseURL (RepoURL sr) @ ''.sha256'') = Inr s \<and> AnswerStatus s = 200 \<and>
        Fields (TrimSpace (take 4096 (AnswerBody s))) = x # xs \<and> EqualFold (Sha256Hex sr (AnswerBody a)) x)"

text \<open>C40: an update installs nothing but what was verified. Either \<open>mc-backup update\<close> runs no command at all
  and fails; or, before its first command, the complete release lies executable beside the
  binary and matches the published checksum, and then the service is stopped, the new binary moved
  over the old one, the service started and its status shown, in this order and up to the first
  command that fails, and the update succeeds exactly if none does. (So a failed move leaves the
  service stopped.)\<close>

theorem update_verified_first:
  assumes "runUpdate sr w = (r, out, w')" and "Executable sr = Inr execPath"
  shows "(\<not> is_ok r \<and> runs w [] w') \<or>
    (\<exists>v k. runs w [] v \<and> verified_binary sr execPath v \<and> runs v (run_steps (update_events execPath) k) w' \<and>
       (is_ok r \<longleftrightarrow> 4 \<le> k))"
proof (cases "RepoURL sr = []")
  case True
  then show ?thesis using assms(1) by (auto simp: runUpdate_def)
next
  case False
  let ?tmp = "execPath @ ''.new''" and ?url = "deriveReleaseURL (RepoURL sr)"
  obtain r1 w1 where 1: "downloadFile sr ?url ?tmp w = (r1, w1)" by fastforce
  obtain r2 w2 where 2: "verifyChecksum sr ?tmp (?url @ ''.sha256'') w1 = (r2, w2)" by fastforce
  have s1: "runs w [] w1" by (rule downloadFile_runs [OF 1])
  have s2: "runs w [] w2" "w_fs w2 = w_fs w1" using runs_quiet [OF s1] verifyChecksum_keeps [OF 2] by simp_all
  note run = assms(1) [unfolded runUpdate_def Let_def assms(2) if_not_P [OF False] sum.case 1 prod.case]
  show ?thesis
  proof (cases r1)
    case (Inl e)
    then show ?thesis using run s1 by auto
  next
    case ok1: (Inr u)
    note dl = downloadFile_file [OF 1 [unfolded ok1]]
    show ?thesis
    proof (cases r2)
      case (Inl e)
      then show ?thesis using run ok1 2 runs_remove [OF s2(1)] by auto
    next
      case ok2: (Inr u')
      have "run_update_steps (update_steps execPath) w2 = (r, w')"
        using run ok1 ok2 2 by (auto split: prod.splits)
      then obtain k where k: "runs w2 (run_steps (update_events execPath) k) w'" "is_ok r \<longleftrightarrow> length (update_steps execPath) \<le> k"
        using run_update_steps_runs unfolding update_events_def by blast
      obtain j a where a: "HttpGet sr j ?url = Inr a" "AnswerStatus a = 200" "Complete a"
          "map_of (w_fs w1) ?tmp = Some (FileNode (AnswerBody a) 493)" using dl by blast
      have "verified_binary sr execPath w2"
        using a verifyChecksum_ok [OF 2 [unfolded ok2] a(4)] s2(2) unfolding verified_binary_def by fastforce
      moreover have "length (update_steps execPath) = 4" by (simp add: update_steps_def)
      ultimately show ?thesis using s2(1) k by auto
    qed
  qed
qed

theorem update_verified_first_witness:
  "is_ok (fst (runUpdate demo_sr (quiet_world [(''/opt'', DirNode)]))) \<and>
   (\<exists>v k. runs (quiet_world [(''/opt'', DirNode)]) [] v \<and> verified_binary demo_sr ''/opt/mc'' v \<and>
      runs v (run_steps (update_events ''/opt/mc'') k) (snd (snd (runUpdate demo_sr (quiet_world [(''/opt'', DirNode)])))) \<and> 4 \<le> k)"
proof -
  let ?x = "runUpdate demo_sr (quiet_world [(''/opt'', DirNode)])"
  have ok: "is_ok (fst ?x)" by code_simp
  have run: "?x = (fst ?x, fst (snd ?x), snd (snd ?x))" by simp
  have "Executable demo_sr = Inr ''/opt/mc''" by (simp add: demo_sr_def)
  from update_verified_first [OF run this] ok show ?thesis by blast
qed

end
